theory Spec2Isabelle
  imports Complex_Main "HOL-Library.Multiset" "HOL-Library.Sublist"
begin

section \<open>Data model\<close>

text \<open>
  JavaScript numbers are modelled as reals: finite values with exact arithmetic.
  A label set (\<open>Record<string, string>\<close>) is the list of its entries in the order
  \<open>Object.entries\<close> enumerates them.  \<open>String.prototype.localeCompare\<close> belongs to the
  runtime, not to the repository, so every function that sorts label keys takes the
  comparator \<open>lc\<close> as an argument (negative, zero or positive, as in JavaScript).
\<close>

type_synonym number = real
type_synonym labels = "(string \<times> string) list"
type_synonym comparator = "string \<Rightarrow> string \<Rightarrow> int"

datatype MetricType = Counter | Gauge

record MetricValue =
  v_labels :: labels
  v_value :: number

record MetricDefinition =
  m_name :: string
  m_help :: string
  m_type :: MetricType
  m_values :: "MetricValue list"

record CounterState =
  accumulated :: number

type_synonym counters = "string \<rightharpoonup> CounterState"

text \<open>
  A concrete comparator (order by character code) for running the definitions on
  concrete inputs; the properties below hold for every comparator.
\<close>

fun codeUnitCompare :: comparator where
  "codeUnitCompare [] [] = 0"
| "codeUnitCompare [] (y # ys) = - 1"
| "codeUnitCompare (x # xs) [] = 1"
| "codeUnitCompare (x # xs) (y # ys) =
     (if (of_char x :: nat) < of_char y then - 1
      else if (of_char y :: nat) < of_char x then 1
      else codeUnitCompare xs ys)"

text \<open>
  A concrete number rendering for running the serializer on concrete inputs: the decimal
  digits of a whole, non-negative number, as \<open>String\<close> gives them.
\<close>

function decimal :: "nat \<Rightarrow> string" where
  "decimal n =
     (if n < 10 then [''0123456789'' ! n] else decimal (n div 10) @ [''0123456789'' ! (n mod 10)])"
  by pat_completeness auto
termination
  by (relation "measure id") auto

definition wholeNumberString :: "number \<Rightarrow> string" where
  "wholeNumberString v = decimal (nat \<lfloor>v\<rfloor>)"

section \<open>lib/time.ts: metricKey\<close>

text \<open>\<open>Array.prototype.join\<close>.\<close>

fun join :: "string \<Rightarrow> string list \<Rightarrow> string" where
  "join sep [] = []"
| "join sep [x] = x"
| "join sep (x # y # ys) = x @ sep @ join sep (y # ys)"

text \<open>
  \<open>entries.sort(([a], [b]) => a.localeCompare(b))\<close>: the sort is stable, so it is an
  insertion sort that keeps entries with equal keys in their original order.
\<close>

fun insert_entry :: "comparator \<Rightarrow> string \<times> string \<Rightarrow> labels \<Rightarrow> labels" where
  "insert_entry lc e [] = [e]"
| "insert_entry lc e (x # xs) =
     (if lc (fst e) (fst x) \<le> 0 then e # x # xs else x # insert_entry lc e xs)"

definition sort_entries :: "comparator \<Rightarrow> labels \<Rightarrow> labels" where
  "sort_entries lc es = foldr (insert_entry lc) es []"

definition metricKey :: "comparator \<Rightarrow> string \<Rightarrow> labels \<Rightarrow> string" where
  "metricKey lc name ls =
     name @ ''{'' @ join '','' (map (\<lambda>(k, v). k @ ''='' @ v) (sort_entries lc ls)) @ ''}''"

section \<open>MetricExporter: counter accumulation\<close>

definition updateCounter :: "CounterState option \<Rightarrow> number \<Rightarrow> CounterState" where
  "updateCounter existing rawValue =
     (case existing of
        None \<Rightarrow> \<lparr>accumulated = rawValue\<rparr>
      | Some e \<Rightarrow> \<lparr>accumulated = accumulated e + rawValue\<rparr>)"

text \<open>
  The inner \<open>metric.values.map\<close> of \<open>processCounters\<close>: it walks the value rows in order
  and writes \<open>newCounters[key]\<close> as it goes.
\<close>

fun processValues ::
  "comparator \<Rightarrow> string \<Rightarrow> MetricValue list \<Rightarrow> counters \<Rightarrow> MetricValue list \<times> counters" where
  "processValues lc nm [] newCounters = ([], newCounters)"
| "processValues lc nm (v # vs) newCounters =
     (let key = metricKey lc nm (v_labels v);
          st = updateCounter (newCounters key) (v_value v);
          (out, final) = processValues lc nm vs (newCounters(key \<mapsto> st))
      in (\<lparr>v_labels = v_labels v, v_value = accumulated st\<rparr> # out, final))"

text \<open>The outer \<open>rawMetrics.map\<close>.\<close>

fun processMetrics ::
  "comparator \<Rightarrow> MetricDefinition list \<Rightarrow> counters \<Rightarrow> MetricDefinition list \<times> counters" where
  "processMetrics lc [] newCounters = ([], newCounters)"
| "processMetrics lc (metric # rest) newCounters =
     (if m_type metric \<noteq> Counter then
        (let (out, final) = processMetrics lc rest newCounters in (metric # out, final))
      else
        (let (processedValues, c') = processValues lc (m_name metric) (m_values metric) newCounters;
             (out, final) = processMetrics lc rest c'
         in (metric\<lparr>m_values := processedValues\<rparr> # out, final)))"

definition processCounters ::
  "comparator \<Rightarrow> MetricDefinition list \<Rightarrow> counters \<Rightarrow> MetricDefinition list \<times> counters" where
  "processCounters lc rawMetrics existingCounters = processMetrics lc rawMetrics existingCounters"

text \<open>
  Successive refresh cycles of one exporter: each cycle runs \<open>processCounters\<close> on the
  raw metrics it fetched, with the counter map the previous cycle stored.
\<close>

fun refreshCycles ::
  "comparator \<Rightarrow> counters \<Rightarrow> MetricDefinition list list \<Rightarrow> MetricDefinition list list" where
  "refreshCycles lc c [] = []"
| "refreshCycles lc c (raw # later) =
     (let (out, c') = processCounters lc raw c in out # refreshCycles lc c' later)"

text \<open>
  The values carried, in processing order, by the counter rows of signature \<open>K\<close> in a
  list of metrics.  Applied to raw metrics these are the window values; applied to
  processed metrics they are the emitted values (names and labels are not rewritten).
\<close>

definition rowsOf :: "comparator \<Rightarrow> string \<Rightarrow> MetricDefinition list \<Rightarrow> number list" where
  "rowsOf lc K ms =
     concat (map (\<lambda>m. if m_type m = Counter
                       then map v_value (filter (\<lambda>v. metricKey lc (m_name m) (v_labels v) = K) (m_values m))
                       else []) ms)"

definition prefixSums :: "number list \<Rightarrow> number list" where
  "prefixSums ws = map (\<lambda>k. sum_list (take (Suc k) ws)) [0..<length ws]"

text \<open>Running totals from a starting value: the accumulator after each window.\<close>

fun running :: "number \<Rightarrow> number list \<Rightarrow> number list" where
  "running a [] = []"
| "running a (w # ws) = (a + w) # running (a + w) ws"

definition acc0 :: "counters \<Rightarrow> string \<Rightarrow> number" where
  "acc0 c K = (case c K of None \<Rightarrow> 0 | Some s \<Rightarrow> accumulated s)"

section \<open>lib/prometheus.ts: the serializer\<close>

text \<open>
  \<open>denylist\<close> and \<open>excludeLabels\<close> are optional fields of an optional argument; an
  absent set is \<open>None\<close> and reads as the empty set.
\<close>

record SerializeOptions =
  denylist :: "string set option"
  excludeLabels :: "string set option"

definition optSet :: "SerializeOptions option \<Rightarrow> (SerializeOptions \<Rightarrow> string set option) \<Rightarrow> string set" where
  "optSet options field =
     (case options of
        None \<Rightarrow> {}
      | Some opts \<Rightarrow> (case field opts of None \<Rightarrow> {} | Some s \<Rightarrow> s))"

text \<open>\<open>s.replace(/c/g, rep)\<close> for a single character \<open>c\<close>.\<close>

definition replaceAll :: "char \<Rightarrow> string \<Rightarrow> string \<Rightarrow> string" where
  "replaceAll c rep s = concat (map (\<lambda>x. if x = c then rep else [x]) s)"

definition backslash :: char where "backslash = CHR 0x5C"
definition newline :: char where "newline = CHR 0x0A"
definition dquote :: char where "dquote = CHR 0x22"

definition escapeHelp :: "string \<Rightarrow> string" where
  "escapeHelp h = replaceAll newline [backslash, CHR ''n''] (replaceAll backslash [backslash, backslash] h)"

definition escapeLabel :: "string \<Rightarrow> string" where
  "escapeLabel v =
     replaceAll newline [backslash, CHR ''n'']
       (replaceAll dquote [backslash, dquote]
          (replaceAll backslash [backslash, backslash] v))"

text \<open>
  \<open>formatValue\<close>: a real is neither NaN nor infinite, so the result is \<open>String(value)\<close>;
  the runtime's number-to-string conversion is the argument \<open>numToString\<close>.
\<close>

definition formatValue :: "(number \<Rightarrow> string) \<Rightarrow> number \<Rightarrow> string" where
  "formatValue numToString v = numToString v"

definition formatLabels :: "labels \<Rightarrow> string" where
  "formatLabels ls =
     (if length ls = 0 then []
      else ''{'' @ join '','' (map (\<lambda>(k, v). k @ ''='' @ [dquote] @ escapeLabel v @ [dquote]) ls) @ ''}'')"

definition filterLabels :: "labels \<Rightarrow> string set \<Rightarrow> labels" where
  "filterLabels ls exclude = filter (\<lambda>(k, v). k \<notin> exclude) ls"

definition labelSignature :: "comparator \<Rightarrow> labels \<Rightarrow> string" where
  "labelSignature lc ls =
     join [CHR 0x01] (map (\<lambda>(k, v). k @ [CHR 0x00] @ v) (sort_entries lc ls))"

text \<open>
  A JavaScript \<open>Map\<close> keeps its keys in insertion order: \<open>set\<close> on a key that is
  present replaces the value where it stands, on a new key it appends.
\<close>

fun mapGet :: "('k \<times> 'v) list \<Rightarrow> 'k \<Rightarrow> 'v option" where
  "mapGet [] k = None"
| "mapGet ((k', v) # rest) k = (if k' = k then Some v else mapGet rest k)"

fun mapSet :: "'k \<Rightarrow> 'v \<Rightarrow> ('k \<times> 'v) list \<Rightarrow> ('k \<times> 'v) list" where
  "mapSet k v [] = [(k, v)]"
| "mapSet k v ((k', v') # rest) = (if k' = k then (k, v) # rest else (k', v') # mapSet k v rest)"

text \<open>One turn of the loop of \<open>aggregateByLabels\<close>.\<close>

definition aggregateStep ::
  "comparator \<Rightarrow> MetricType \<Rightarrow> (string \<times> MetricValue) list \<Rightarrow> MetricValue \<Rightarrow> (string \<times> MetricValue) list" where
  "aggregateStep lc ty bySignature row =
     (let sig = labelSignature lc (v_labels row) in
      case mapGet bySignature sig of
        Some existing \<Rightarrow>
          mapSet sig
            (if ty = Counter then existing\<lparr>v_value := v_value existing + v_value row\<rparr>
             else existing\<lparr>v_value := max (v_value existing) (v_value row)\<rparr>)
            bySignature
      | None \<Rightarrow> mapSet sig \<lparr>v_labels = v_labels row, v_value = v_value row\<rparr> bySignature)"

definition aggregateByLabels :: "comparator \<Rightarrow> MetricValue list \<Rightarrow> MetricType \<Rightarrow> MetricValue list" where
  "aggregateByLabels lc vs ty = map snd (foldl (aggregateStep lc ty) [] vs)"

text \<open>One turn of the grouping loop of \<open>serializeToPrometheus\<close>.\<close>

definition groupStep ::
  "string set \<Rightarrow> string set \<Rightarrow> (string \<times> MetricDefinition) list \<Rightarrow> MetricDefinition
     \<Rightarrow> (string \<times> MetricDefinition) list" where
  "groupStep deny exclude grouped metric =
     (if m_name metric \<in> deny then grouped
      else
        let filteredValues =
              (if exclude \<noteq> {}
               then map (\<lambda>v. v\<lparr>v_labels := filterLabels (v_labels v) exclude\<rparr>) (m_values metric)
               else m_values metric)
        in case mapGet grouped (m_name metric) of
             Some existing \<Rightarrow>
               mapSet (m_name metric) (existing\<lparr>m_values := m_values existing @ filteredValues\<rparr>) grouped
           | None \<Rightarrow> mapSet (m_name metric) (metric\<lparr>m_values := filteredValues\<rparr>) grouped)"

definition groupMetrics ::
  "MetricDefinition list \<Rightarrow> SerializeOptions option \<Rightarrow> (string \<times> MetricDefinition) list" where
  "groupMetrics metrics options =
     foldl (groupStep (optSet options denylist) (optSet options excludeLabels)) [] metrics"

definition typeName :: "MetricType \<Rightarrow> string" where
  "typeName ty = (case ty of Counter \<Rightarrow> ''counter'' | Gauge \<Rightarrow> ''gauge'')"

definition valueLine :: "(number \<Rightarrow> string) \<Rightarrow> string \<Rightarrow> MetricValue \<Rightarrow> string" where
  "valueLine numToString name row =
     name @ formatLabels (v_labels row) @ '' '' @ formatValue numToString (v_value row)"

text \<open>The lines pushed for one entry of \<open>grouped\<close>.\<close>

definition groupLines ::
  "comparator \<Rightarrow> (number \<Rightarrow> string) \<Rightarrow> string \<times> MetricDefinition \<Rightarrow> string list" where
  "groupLines lc numToString entry =
     (let name = fst entry; metric = snd entry in
      [''# HELP '' @ name @ '' '' @ escapeHelp (m_help metric),
       ''# TYPE '' @ name @ '' '' @ typeName (m_type metric)]
      @ map (valueLine numToString name) (aggregateByLabels lc (m_values metric) (m_type metric))
      @ [[]])"

definition serializeLines ::
  "comparator \<Rightarrow> (number \<Rightarrow> string) \<Rightarrow> MetricDefinition list \<Rightarrow> SerializeOptions option \<Rightarrow> string list" where
  "serializeLines lc numToString metrics options =
     concat (map (groupLines lc numToString) (groupMetrics metrics options))"

definition serializeToPrometheus ::
  "comparator \<Rightarrow> (number \<Rightarrow> string) \<Rightarrow> MetricDefinition list \<Rightarrow> SerializeOptions option \<Rightarrow> string" where
  "serializeToPrometheus lc numToString metrics options =
     join [newline] (serializeLines lc numToString metrics options)"

text \<open>
  The rows a metric contributes to its group in \<open>serializeToPrometheus\<close>: its rows after
  label exclusion (the \<open>filteredValues\<close> of the grouping loop).
\<close>

definition keptRows :: "string set \<Rightarrow> MetricDefinition \<Rightarrow> MetricValue list" where
  "keptRows exclude metric =
     (if exclude \<noteq> {}
      then map (\<lambda>v. v\<lparr>v_labels := filterLabels (v_labels v) exclude\<rparr>) (m_values metric)
      else m_values metric)"

section \<open>lib/types.ts: MetricExporterIdSchema\<close>

text \<open>
  The regular expressions the schema needs: a literal, an alternative, a sequence and
  \<open>[^c]+\<close>.  \<open>remainders r s\<close> lists what can be left of \<open>s\<close> after \<open>r\<close> has matched a
  prefix of it; \<open>^r$\<close> accepts \<open>s\<close> when nothing can be left.
\<close>

datatype regex = Lit string | Alt regex regex | Seq regex regex | PlusNot char

fun remainders :: "regex \<Rightarrow> string \<Rightarrow> string list" where
  "remainders (Lit l) s = (if take (length l) s = l then [drop (length l) s] else [])"
| "remainders (Alt a b) s = remainders a s @ remainders b s"
| "remainders (Seq a b) s = concat (map (remainders b) (remainders a s))"
| "remainders (PlusNot c) [] = []"
| "remainders (PlusNot c) (x # xs) = (if x = c then [] else xs # remainders (PlusNot c) xs)"

definition anchoredMatch :: "regex \<Rightarrow> string \<Rightarrow> bool" where
  "anchoredMatch r s = ([] \<in> set (remainders r s))"

text \<open>\<open>/^(account|zone):[^:]+:[^:]+$/\<close>\<close>

definition idRegex :: regex where
  "idRegex =
     Seq (Alt (Lit ''account'') (Lit ''zone''))
       (Seq (Lit '':'') (Seq (PlusNot (CHR '':'')) (Seq (Lit '':'') (PlusNot (CHR '':'')))))"

text \<open>\<open>String.prototype.split\<close> with a one-character separator.\<close>

fun splitOn :: "char \<Rightarrow> string \<Rightarrow> string list" where
  "splitOn c [] = [[]]"
| "splitOn c (x # xs) =
     (if x = c then [] # splitOn c xs
      else (case splitOn c xs of [] \<Rightarrow> [[x]] | p # ps \<Rightarrow> (x # p) # ps))"

datatype ScopeType = ScopeAccount | ScopeZone

definition scopeName :: "ScopeType \<Rightarrow> string" where
  "scopeName t = (case t of ScopeAccount \<Rightarrow> ''account'' | ScopeZone \<Rightarrow> ''zone'')"

record MetricExporterId =
  scopeType :: ScopeType
  scopeId :: string
  queryName :: string

text \<open>
  A failing zod \<open>parse\<close> throws a \<open>ZodError\<close>; here it is \<open>None\<close>.  An array read
  past the end is \<open>undefined\<close>, which no string schema accepts.
\<close>

definition arrayAt :: "'a list \<Rightarrow> nat \<Rightarrow> 'a option" where
  "arrayAt xs i = (if i < length xs then Some (xs ! i) else None)"

definition ScopeTypeSchema_parse :: "string option \<Rightarrow> ScopeType option" where
  "ScopeTypeSchema_parse x =
     (case x of
        None \<Rightarrow> None
      | Some s \<Rightarrow> if s = ''account'' then Some ScopeAccount
                  else if s = ''zone'' then Some ScopeZone else None)"

definition stringMin1_parse :: "string option \<Rightarrow> string option" where
  "stringMin1_parse x =
     (case x of None \<Rightarrow> None | Some s \<Rightarrow> if 1 \<le> length s then Some s else None)"

definition MetricExporterIdSchema_parse :: "string \<Rightarrow> MetricExporterId option" where
  "MetricExporterIdSchema_parse s =
     (if \<not> anchoredMatch idRegex s then None
      else
        let parts = splitOn (CHR '':'') s in
        case ScopeTypeSchema_parse (arrayAt parts 0) of
          None \<Rightarrow> None
        | Some st \<Rightarrow>
            (case stringMin1_parse (arrayAt parts 1) of
               None \<Rightarrow> None
             | Some sid \<Rightarrow>
                 (case stringMin1_parse (arrayAt parts 2) of
                    None \<Rightarrow> None
                  | Some q \<Rightarrow> Some \<lparr>scopeType = st, scopeId = sid, queryName = q\<rparr>)))"

section \<open>lib/errors.ts\<close>

datatype ErrorCode =
    API_RATE_LIMITED | API_TIMEOUT | API_UNAVAILABLE | API_AUTH_FAILED
  | GRAPHQL_ERROR | GRAPHQL_FIELD_ACCESS
  | CONFIG_INVALID | CONFIG_PARSE_ERROR
  | STATE_NOT_INITIALIZED
  | VALIDATION_ERROR
  | TIMEOUT
  | UNKNOWN

text \<open>The string each member of \<open>ErrorCode\<close> stands for.\<close>

fun codeString :: "ErrorCode \<Rightarrow> string" where
  "codeString API_RATE_LIMITED = ''API_RATE_LIMITED''"
| "codeString API_TIMEOUT = ''API_TIMEOUT''"
| "codeString API_UNAVAILABLE = ''API_UNAVAILABLE''"
| "codeString API_AUTH_FAILED = ''API_AUTH_FAILED''"
| "codeString GRAPHQL_ERROR = ''GRAPHQL_ERROR''"
| "codeString GRAPHQL_FIELD_ACCESS = ''GRAPHQL_FIELD_ACCESS''"
| "codeString CONFIG_INVALID = ''CONFIG_INVALID''"
| "codeString CONFIG_PARSE_ERROR = ''CONFIG_PARSE_ERROR''"
| "codeString STATE_NOT_INITIALIZED = ''STATE_NOT_INITIALIZED''"
| "codeString VALIDATION_ERROR = ''VALIDATION_ERROR''"
| "codeString TIMEOUT = ''TIMEOUT''"
| "codeString UNKNOWN = ''UNKNOWN''"

text \<open>
  What a \<open>catch\<close> clause can receive: a \<open>CloudflarePrometheusError\<close> (or a subclass)
  with its message, code and retryable flag; any other \<open>Error\<close> with its message; or
  a value that is not an \<open>Error\<close>, given by what \<open>String\<close> makes of it.
\<close>

datatype thrown =
    CloudflarePrometheusError string ErrorCode bool
  | JsError string
  | NonError string

record ErrorInfo =
  e_message :: string
  e_code :: ErrorCode
  e_retryable :: bool

text \<open>\<open>extractErrorInfo\<close>, without the stack and context it copies for the log.\<close>

fun extractErrorInfo :: "thrown \<Rightarrow> ErrorInfo" where
  "extractErrorInfo (CloudflarePrometheusError msg code retryable) =
     \<lparr>e_message = msg, e_code = code, e_retryable = retryable\<rparr>"
| "extractErrorInfo (JsError msg) = \<lparr>e_message = msg, e_code = UNKNOWN, e_retryable = False\<rparr>"
| "extractErrorInfo (NonError str) = \<lparr>e_message = str, e_code = UNKNOWN, e_retryable = False\<rparr>"

text \<open>\<open>error instanceof Error ? error.message : String(error)\<close>\<close>

fun errorMessage :: "thrown \<Rightarrow> string" where
  "errorMessage (CloudflarePrometheusError msg code retryable) = msg"
| "errorMessage (JsError msg) = msg"
| "errorMessage (NonError str) = str"

section \<open>cloudflare/client.ts: the rate-limited fetch\<close>

definition MAX_RETRIES :: nat where "MAX_RETRIES = 3"
definition BASE_DELAY_MS :: nat where "BASE_DELAY_MS = 250"

text \<open>
  What the wrapper does to the outside, in order: it asks the limiter, it sleeps for a
  number of milliseconds, it calls the underlying \<open>fetch\<close>.
\<close>

datatype fetchEvent = AskLimiter | Sleep nat | CallFetch

text \<open>
  The loop of \<open>createRateLimitedFetch\<close>.  \<open>answers attempt\<close> is the limiter's answer to
  the request of that attempt, \<open>fetchResult\<close> what the underlying \<open>fetch\<close> would settle
  to, \<open>tr\<close> the events so far.
\<close>

function rateLimitedLoop ::
  "(nat \<Rightarrow> bool) \<Rightarrow> thrown + 'r \<Rightarrow> nat \<Rightarrow> fetchEvent list \<Rightarrow> (thrown + 'r) \<times> fetchEvent list" where
  "rateLimitedLoop answers fetchResult attempt tr =
     (if attempt \<le> MAX_RETRIES then
        (let success = answers attempt; tr1 = tr @ [AskLimiter] in
         if success then (fetchResult, tr1 @ [CallFetch])
         else if attempt < MAX_RETRIES
           then rateLimitedLoop answers fetchResult (attempt + 1)
                  (tr1 @ [Sleep (BASE_DELAY_MS * 2 ^ attempt)])
           else rateLimitedLoop answers fetchResult (attempt + 1) tr1)
      else (Inl (JsError ''Rate limit exceeded after retries''), tr))"
  by pat_completeness auto
termination
  by (relation "measure (\<lambda>(answers, fetchResult, attempt, tr). Suc MAX_RETRIES - attempt)") auto

definition rateLimitedFetch :: "(nat \<Rightarrow> bool) \<Rightarrow> thrown + 'r \<Rightarrow> (thrown + 'r) \<times> fetchEvent list" where
  "rateLimitedFetch answers fetchResult = rateLimitedLoop answers fetchResult 0 []"

text \<open>The events of \<open>k\<close> denied attempts, each followed by its back-off.\<close>

definition backoffs :: "nat \<Rightarrow> fetchEvent list" where
  "backoffs k = concat (map (\<lambda>attempt. [AskLimiter, Sleep (BASE_DELAY_MS * 2 ^ attempt)]) [0..<k])"

section \<open>lib/time.ts: getTimeRange\<close>

text \<open>
  A \<open>Date\<close> is its time value, the milliseconds since the epoch, and an ISO string is
  the time value it renders.  \<open>setSeconds(0, 0)\<close> clears the seconds and milliseconds of
  the local time, which is the time value rounded down to a multiple of 60000 as long as
  the local UTC offset is a whole number of minutes.  \<open>nowMs\<close> is what \<open>new Date()\<close>
  reads from the clock; an argument left out is \<open>None\<close> and takes its default.
\<close>

record TimeRange =
  mintime :: int
  maxtime :: int

definition getTimeRange :: "int \<Rightarrow> int option \<Rightarrow> int option \<Rightarrow> TimeRange" where
  "getTimeRange nowMs scrapeDelayArg timeWindowArg =
     (let scrapeDelaySeconds = (case scrapeDelayArg of None \<Rightarrow> 300 | Some d \<Rightarrow> d);
          timeWindowSeconds = (case timeWindowArg of None \<Rightarrow> 60 | Some w \<Rightarrow> w);
          now0 = nowMs - nowMs mod 60000;
          now1 = now0 - scrapeDelaySeconds * 1000;
          maxtime = now1;
          now2 = now1 - timeWindowSeconds * 1000;
          mintime = now2
      in \<lparr>mintime = mintime, maxtime = maxtime\<rparr>)"

text \<open>Rounding a time value down to the whole minute.\<close>

definition wholeMinute :: "int \<Rightarrow> int" where
  "wholeMinute t = t - t mod 60000"

section \<open>lib/filters.ts and the configuration\<close>

text \<open>The fields of \<open>ResolvedConfig\<close> that the coordinators and exporters read.\<close>

record ResolvedConfig =
  scrapeDelaySeconds :: int
  timeWindowSeconds :: int
  metricRefreshIntervalSeconds :: int
  accountListCacheTtlSeconds :: int
  zoneListCacheTtlSeconds :: int
  sslCertsCacheTtlSeconds :: int
  cfAccounts :: "string option"
  cfZones :: "string option"
  cfFreeTierAccounts :: string
  metricsDenylist :: string
  excludeHost :: bool

record Account =
  a_id :: string
  a_name :: string

record Zone =
  z_id :: string
  z_name :: string
  z_status :: string
  z_plan_id :: string
  z_plan_name :: string
  z_account_id :: string
  z_account_name :: string

text \<open>
  \<open>String.prototype.trim\<close> on the white space of ASCII (tab, line feed, vertical tab,
  form feed, carriage return, space).
\<close>

definition isWhiteSpace :: "char \<Rightarrow> bool" where
  "isWhiteSpace c = (c \<in> {CHR 0x09, CHR 0x0A, CHR 0x0B, CHR 0x0C, CHR 0x0D, CHR 0x20})"

definition trim :: "string \<Rightarrow> string" where
  "trim s = rev (dropWhile isWhiteSpace (rev (dropWhile isWhiteSpace s)))"

text \<open>\<open>parseCommaSeparated\<close>; an \<open>undefined\<close> argument is \<open>None\<close>.\<close>

definition parseCommaSeparated :: "string option \<Rightarrow> string set" where
  "parseCommaSeparated v =
     (case v of
        None \<Rightarrow> {}
      | Some s \<Rightarrow>
          if s = [] \<or> trim s = [] then {}
          else set (filter (\<lambda>p. length p > 0) (map trim (splitOn (CHR '','') s))))"

definition filterAccountsByIds :: "Account list \<Rightarrow> string set \<Rightarrow> Account list" where
  "filterAccountsByIds accounts includeIds = filter (\<lambda>a. a_id a \<in> includeIds) accounts"

definition FREE_PLAN_ID :: string where
  "FREE_PLAN_ID = ''0feeeeeeeeeeeeeeeeeeeeeeeeeeeeee''"

definition isFreeTierZone :: "Zone \<Rightarrow> bool" where
  "isFreeTierZone zone = (z_plan_id zone = FREE_PLAN_ID)"

text \<open>\<open>partitionZonesByTier\<close>: the pair (paid, free).\<close>

definition partitionZonesByTier :: "Zone list \<Rightarrow> Zone list \<times> Zone list" where
  "partitionZonesByTier zones = (filter (\<lambda>z. \<not> isFreeTierZone z) zones, filter isFreeTierZone zones)"

section \<open>cloudflare/queries.ts: the query names\<close>

definition ACCOUNT_LEVEL_QUERIES :: "string list" where
  "ACCOUNT_LEVEL_QUERIES = [''worker-totals'', ''logpush-account'', ''magic-transit'']"

definition ZONE_LEVEL_QUERIES :: "string list" where
  "ZONE_LEVEL_QUERIES =
     [''http-metrics'', ''adaptive-metrics'', ''edge-country-metrics'', ''colo-metrics'',
      ''colo-error-metrics'', ''request-method-metrics'', ''health-check-metrics'',
      ''load-balancer-metrics'', ''logpush-zone'', ''origin-status-metrics'',
      ''cache-miss-metrics'', ''ssl-certificates'', ''lb-weight-metrics'']"

definition FREE_TIER_QUERIES :: "string list" where
  "FREE_TIER_QUERIES = [''worker-totals'', ''logpush-account'', ''magic-transit'']"

definition PAID_TIER_GRAPHQL_QUERIES :: "string list" where
  "PAID_TIER_GRAPHQL_QUERIES =
     [''http-metrics'', ''adaptive-metrics'', ''edge-country-metrics'', ''colo-metrics'',
      ''colo-error-metrics'', ''request-method-metrics'', ''health-check-metrics'',
      ''load-balancer-metrics'', ''logpush-zone'', ''origin-status-metrics'',
      ''cache-miss-metrics'']"

definition isAccountLevelQuery :: "string \<Rightarrow> bool" where
  "isAccountLevelQuery q = (q \<in> set ACCOUNT_LEVEL_QUERIES)"

definition isZoneLevelQuery :: "string \<Rightarrow> bool" where
  "isZoneLevelQuery q = (q \<in> set ZONE_LEVEL_QUERIES)"

definition isPaidTierGraphQLQuery :: "string \<Rightarrow> bool" where
  "isPaidTierGraphQLQuery q = (q \<in> set PAID_TIER_GRAPHQL_QUERIES)"

section \<open>durable-objects/MetricExporter.ts\<close>

record MetricExporterState =
  x_scopeType :: ScopeType
  x_scopeId :: string
  x_queryName :: string
  x_counters :: counters
  x_metrics :: "MetricDefinition list"
  x_lastIngest :: int
  x_accountId :: string
  x_accountName :: string
  x_zones :: "Zone list"
  x_firewallRules :: "(string \<times> string) list"
  x_zoneMetadata :: "Zone option"
  x_refreshInterval :: int
  x_lastRefresh :: int
  x_lastError :: "string option"
  x_lastSslFetch :: int

text \<open>
  The upstream client is the environment: each of its four methods is given by what the
  call settles to, the metrics or the error thrown.
\<close>

record MetricsClient =
  getAccountMetrics :: "string \<Rightarrow> string \<Rightarrow> string \<Rightarrow> TimeRange \<Rightarrow> thrown + MetricDefinition list"
  getZoneMetrics ::
    "string \<Rightarrow> string list \<Rightarrow> Zone list \<Rightarrow> (string \<times> string) list \<Rightarrow> TimeRange
       \<Rightarrow> thrown + MetricDefinition list"
  getSSLCertificateMetricsForZone :: "Zone \<Rightarrow> thrown + MetricDefinition list"
  getLbWeightMetricsForZone :: "Zone \<Rightarrow> thrown + MetricDefinition list"

datatype clientMethod =
  GetAccountMetrics | GetZoneMetrics | GetSSLCertificateMetricsForZone | GetLbWeightMetricsForZone

text \<open>
  What an exporter does to the outside: a call of the upstream client, a write of its
  state to storage, the registration of its next alarm.
\<close>

datatype exporterEffect =
    UpstreamCall clientMethod
  | StoragePut MetricExporterState
  | SetAlarm real

text \<open>
  \<open>fetchAccountScopedMetrics\<close> and \<open>fetchZoneScopedMetrics\<close>: the outcome and the
  upstream calls made for it.
\<close>

definition fetchAccountScopedMetrics ::
  "MetricsClient \<Rightarrow> MetricExporterState \<Rightarrow> TimeRange
     \<Rightarrow> (thrown + MetricDefinition list) \<times> exporterEffect list" where
  "fetchAccountScopedMetrics client state timeRange =
     (if isAccountLevelQuery (x_queryName state) then
        (getAccountMetrics client (x_queryName state) (x_accountId state) (x_accountName state) timeRange,
         [UpstreamCall GetAccountMetrics])
      else if isZoneLevelQuery (x_queryName state) then
        (let zonesToQuery =
               (if isPaidTierGraphQLQuery (x_queryName state)
                then fst (partitionZonesByTier (x_zones state)) else x_zones state)
         in if isPaidTierGraphQLQuery (x_queryName state) \<and> length zonesToQuery = 0
            then (Inr [], [])
            else (getZoneMetrics client (x_queryName state) (map z_id zonesToQuery) zonesToQuery
                    (x_firewallRules state) timeRange,
                  [UpstreamCall GetZoneMetrics]))
      else (Inr [], []))"

definition fetchZoneScopedMetrics ::
  "MetricsClient \<Rightarrow> MetricExporterState \<Rightarrow> (thrown + MetricDefinition list) \<times> exporterEffect list" where
  "fetchZoneScopedMetrics client state =
     (case x_zoneMetadata state of
        None \<Rightarrow> (Inr [], [])
      | Some zoneMetadata \<Rightarrow>
          if x_queryName state = ''ssl-certificates''
            then (getSSLCertificateMetricsForZone client zoneMetadata,
                  [UpstreamCall GetSSLCertificateMetricsForZone])
          else if x_queryName state = ''lb-weight-metrics''
            then (getLbWeightMetricsForZone client zoneMetadata,
                  [UpstreamCall GetLbWeightMetricsForZone])
          else (Inr [], []))"

text \<open>
  \<open>scheduleNextAlarm\<close>: the time it registers.  \<open>nowMs\<close> is the clock reading,
  \<open>random\<close> what \<open>Math.random()\<close> returns; the refresh interval is positive, as the
  configuration schema requires.
\<close>

definition nextAlarm :: "ResolvedConfig \<Rightarrow> int \<Rightarrow> real \<Rightarrow> real" where
  "nextAlarm config nowMs random =
     (let intervalMs = metricRefreshIntervalSeconds config * 1000;
          startOfInterval = (nowMs div intervalMs) * intervalMs;
          jitter = 1000 + random * 4000
      in real_of_int startOfInterval + real_of_int intervalMs + jitter)"

text \<open>
  The clock readings of one refresh, in the order the code takes them: for the SSL
  cache age, for \<open>lastRefresh\<close>, for \<open>lastSslFetch\<close>, and for the next alarm.
\<close>

record clockReadings =
  atCacheCheck :: int
  atRefresh :: int
  atSslFetch :: int
  atAlarm :: int

text \<open>The three early exits of \<open>refreshWithTimeRange\<close>, which skip the fetch.\<close>

definition skipsFetch :: "ResolvedConfig \<Rightarrow> clockReadings \<Rightarrow> MetricExporterState \<Rightarrow> bool" where
  "skipsFetch config clock state =
     (if x_scopeType state = ScopeAccount \<and> length (x_zones state) = 0 then True
      else if x_scopeType state = ScopeZone \<and> x_zoneMetadata state = None then True
      else if x_scopeType state = ScopeZone then
        (let cacheAgeMs = atCacheCheck clock - x_lastSslFetch state;
             cacheTtlMs = sslCertsCacheTtlSeconds config * 1000
         in x_lastSslFetch state > 0 \<and> cacheAgeMs < cacheTtlMs)
      else False)"

definition fetchMetrics ::
  "MetricsClient \<Rightarrow> MetricExporterState \<Rightarrow> TimeRange
     \<Rightarrow> (thrown + MetricDefinition list) \<times> exporterEffect list" where
  "fetchMetrics client state timeRange =
     (if x_scopeType state = ScopeAccount then fetchAccountScopedMetrics client state timeRange
      else fetchZoneScopedMetrics client state)"

text \<open>\<open>refreshWithTimeRange\<close>: the state it leaves in \<open>this.state\<close> and its effects.\<close>

definition refreshWithTimeRange ::
  "comparator \<Rightarrow> ResolvedConfig \<Rightarrow> clockReadings \<Rightarrow> real \<Rightarrow> MetricsClient \<Rightarrow> TimeRange
     \<Rightarrow> MetricExporterState \<Rightarrow> MetricExporterState \<times> exporterEffect list" where
  "refreshWithTimeRange lc config clock random client timeRange state =
     (if skipsFetch config clock state
      then (state, [SetAlarm (nextAlarm config (atAlarm clock) random)])
      else
        (case fetchMetrics client state timeRange of
           (Inr metrics, calls) \<Rightarrow>
             (let processed = processCounters lc metrics (x_counters state);
                  state' = state\<lparr>x_metrics := fst processed,
                                  x_counters := snd processed,
                                  x_lastRefresh := atRefresh clock,
                                  x_lastSslFetch :=
                                    (if x_scopeType state = ScopeZone then atSslFetch clock
                                     else x_lastSslFetch state),
                                  x_lastError := None\<rparr>
              in (state', calls @ [StoragePut state', SetAlarm (nextAlarm config (atAlarm clock) random)]))
         | (Inl error, calls) \<Rightarrow>
             (let msg = errorMessage error;
                  state' = state\<lparr>x_lastError := Some msg\<rparr>
              in (state', calls @ [StoragePut state', SetAlarm (nextAlarm config (atAlarm clock) random)]))))"

text \<open>
  \<open>MetricExporter.export\<close>: \<open>getState\<close> throws when the exporter was never
  initialized; otherwise the result is the \<open>metrics\<close> field.  The second component
  lists its effects.
\<close>

definition MetricExporter_export ::
  "MetricExporterState option \<Rightarrow> (thrown + MetricDefinition list) \<times> exporterEffect list" where
  "MetricExporter_export this_state =
     (case this_state of
        None \<Rightarrow> (Inl (JsError ''State not initialized''), [])
      | Some state \<Rightarrow> (Inr (x_metrics state), []))"

section \<open>durable-objects/AccountMetricCoordinator.ts\<close>

definition ACCOUNT_SCOPED_QUERIES :: "string list" where
  "ACCOUNT_SCOPED_QUERIES =
     ACCOUNT_LEVEL_QUERIES
     @ filter (\<lambda>q. q \<noteq> ''ssl-certificates'' \<and> q \<noteq> ''lb-weight-metrics'') ZONE_LEVEL_QUERIES"

definition ZONE_SCOPED_QUERIES :: "string list" where
  "ZONE_SCOPED_QUERIES = [''ssl-certificates'', ''lb-weight-metrics'']"

record AccountMetricCoordinatorState =
  c_accountId :: string
  c_accountName :: string
  c_zones :: "Zone list"
  c_totalZoneCount :: nat
  c_firewallRules :: "(string \<times> string) list"
  c_lastZoneFetch :: int
  c_lastRefresh :: int

record ZoneCounts =
  total :: number
  filtered :: number
  processed :: number
  skippedFreeTier :: number

record AccountExport =
  r_metrics :: "MetricDefinition list"
  r_zoneCounts :: ZoneCounts

text \<open>
  What an account coordinator does to the outside: it runs
  \<open>refreshZonesAndPushContext\<close> (the upstream zone and rule fetches and the pushes to its
  exporters), writes its state, registers its alarm, asks an exporter for its snapshot.
\<close>

datatype coordinatorEffect =
    ZonesRefreshAndPush
  | CoordinatorPut AccountMetricCoordinatorState
  | CoordinatorAlarm int
  | ExporterExport string

text \<open>
  The clock readings of one \<open>export\<close>, in the order the code takes them: for the
  staleness test, for \<open>lastRefresh\<close>, for the alarm.
\<close>

record coordinatorClock =
  atStaleCheck :: int
  atRefreshed :: int
  atRearm :: int

text \<open>
  \<open>refresh\<close>.  \<open>refreshZonesAndPushContext\<close> is the environment: from the current state
  it either completes, leaving a state, or throws, leaving the state it had reached.
\<close>

definition refresh ::
  "ResolvedConfig \<Rightarrow> coordinatorClock
     \<Rightarrow> (AccountMetricCoordinatorState \<Rightarrow> (thrown \<times> AccountMetricCoordinatorState) + AccountMetricCoordinatorState)
     \<Rightarrow> AccountMetricCoordinatorState \<Rightarrow> AccountMetricCoordinatorState \<times> coordinatorEffect list" where
  "refresh config clock refreshZonesAndPushContext state =
     (case refreshZonesAndPushContext state of
        Inr pushed \<Rightarrow>
          (let state' = pushed\<lparr>c_lastRefresh := atRefreshed clock\<rparr>
           in (state',
               [ZonesRefreshAndPush, CoordinatorPut state',
                CoordinatorAlarm (atRearm clock + metricRefreshIntervalSeconds config * 1000)]))
      | Inl (error, reached) \<Rightarrow>
          (reached,
           [ZonesRefreshAndPush,
            CoordinatorAlarm (atRearm clock + metricRefreshIntervalSeconds config * 1000)]))"

text \<open>The exporters an account coordinator reads, in the order it asks them.\<close>

definition exporterIds :: "ResolvedConfig \<Rightarrow> AccountMetricCoordinatorState \<Rightarrow> string list" where
  "exporterIds config state =
     (let cfFreeTierSet = parseCommaSeparated (Some (cfFreeTierAccounts config));
          isFreeTierAccount = (c_accountId state \<in> cfFreeTierSet);
          accountQueries =
            (if isFreeTierAccount
             then filter (\<lambda>q. q \<in> set FREE_TIER_QUERIES) ACCOUNT_SCOPED_QUERIES
             else ACCOUNT_SCOPED_QUERIES)
      in map (\<lambda>query. ''account:'' @ c_accountId state @ '':'' @ query) accountQueries
         @ (if isFreeTierAccount then []
            else concat (map (\<lambda>zone. map (\<lambda>query. ''zone:'' @ z_id zone @ '':'' @ query)
                                        ZONE_SCOPED_QUERIES)
                             (c_zones state))))"

text \<open>The non-empty \<open>zone\<close> labels of a list of metrics, in order.\<close>

definition zoneLabels :: "MetricDefinition list \<Rightarrow> string list" where
  "zoneLabels ms =
     concat (map (\<lambda>metric. concat (map (\<lambda>v. case mapGet (v_labels v) ''zone'' of
                                               None \<Rightarrow> []
                                             | Some zone \<Rightarrow> if zone = [] then [] else [zone])
                                        (m_values metric))) ms)"

text \<open>
  \<open>AccountMetricCoordinator.export\<close>.  \<open>exporterExport id\<close> is what getting the exporter
  of that id and calling its \<open>export\<close> settles to.  The result is the value returned or
  the error thrown, the state left in \<open>this.state\<close>, and the effects in order.
\<close>

definition AccountMetricCoordinator_export ::
  "ResolvedConfig \<Rightarrow> coordinatorClock
     \<Rightarrow> (AccountMetricCoordinatorState \<Rightarrow> (thrown \<times> AccountMetricCoordinatorState) + AccountMetricCoordinatorState)
     \<Rightarrow> (string \<Rightarrow> thrown + MetricDefinition list)
     \<Rightarrow> AccountMetricCoordinatorState option
     \<Rightarrow> (thrown + AccountExport) \<times> AccountMetricCoordinatorState option \<times> coordinatorEffect list" where
  "AccountMetricCoordinator_export config clock refreshZonesAndPushContext exporterExport this_state =
     (case this_state of
        None \<Rightarrow> (Inl (JsError ''State not initialized''), None, [])
      | Some initialState \<Rightarrow>
          (let staleThreshold = metricRefreshIntervalSeconds config * 2 * 1000;
               (state, refreshEffects) =
                 (if c_lastRefresh initialState = 0
                     \<or> atStaleCheck clock - c_lastRefresh initialState > staleThreshold
                  then refresh config clock refreshZonesAndPushContext initialState
                  else (initialState, []));
               ids = exporterIds config state;
               allMetrics = concat (map (\<lambda>id. case exporterExport id of
                                                  Inr metrics \<Rightarrow> metrics
                                                | Inl error \<Rightarrow> []) ids);
               processedZones = length (remdups (zoneLabels allMetrics));
               freeTierCount = length (filter isFreeTierZone (c_zones state))
           in (Inr \<lparr>r_metrics = allMetrics,
                     r_zoneCounts = \<lparr>total = real (c_totalZoneCount state),
                                      filtered = real (length (c_zones state)),
                                      processed = real processedZones,
                                      skippedFreeTier = real freeTierCount\<rparr>\<rparr>,
               Some state,
               refreshEffects @ map ExporterExport ids)))"

section \<open>durable-objects/MetricCoordinator.ts\<close>

record MetricCoordinatorState =
  f_identifier :: string
  f_accounts :: "Account list"
  f_lastAccountFetch :: int

text \<open>
  \<open>refreshAccountsIfStale\<close>.  \<open>nowCheck\<close> and \<open>nowFetched\<close> are the two clock readings,
  \<open>getAccounts\<close> is what the upstream account listing settles to.
\<close>

definition refreshAccountsIfStale ::
  "ResolvedConfig \<Rightarrow> int \<Rightarrow> int \<Rightarrow> thrown + Account list \<Rightarrow> MetricCoordinatorState
     \<Rightarrow> thrown + (Account list \<times> MetricCoordinatorState)" where
  "refreshAccountsIfStale config nowCheck nowFetched getAccounts state =
     (let ttlMs = accountListCacheTtlSeconds config * 1000 in
      if length (f_accounts state) > 0 \<and> nowCheck - f_lastAccountFetch state < ttlMs
      then Inr (f_accounts state, state)
      else
        (case getAccounts of
           Inl error \<Rightarrow> Inl error
         | Inr allAccounts \<Rightarrow>
             (let cfAccountsSet =
                    (case cfAccounts config of
                       None \<Rightarrow> None
                     | Some s \<Rightarrow> Some (parseCommaSeparated (Some s)));
                  kept =
                    (case cfAccountsSet of
                       None \<Rightarrow> allAccounts
                     | Some ids \<Rightarrow> filterAccountsByIds allAccounts ids)
              in Inr (kept, state\<lparr>f_accounts := kept, f_lastAccountFetch := nowFetched\<rparr>))))"

text \<open>\<open>errorsByAccount\<close>: a \<open>Map\<close> from account id to an array of code and count.\<close>

type_synonym errorTally = "(string \<times> (string \<times> number) list) list"

text \<open>The \<open>find\<close> and the increment or \<open>push\<close> of the \<open>catch\<close> block.\<close>

fun bumpCode :: "string \<Rightarrow> (string \<times> number) list \<Rightarrow> (string \<times> number) list" where
  "bumpCode code [] = [(code, 1)]"
| "bumpCode code ((c, n) # rest) =
     (if c = code then (c, n + 1) # rest else (c, n) # bumpCode code rest)"

definition recordError :: "string \<Rightarrow> string \<Rightarrow> errorTally \<Rightarrow> errorTally" where
  "recordError accountId code errorsByAccount =
     (let accountErrors = (case mapGet errorsByAccount accountId of None \<Rightarrow> [] | Some es \<Rightarrow> es)
      in mapSet accountId (bumpCode code accountErrors) errorsByAccount)"

definition zeroExport :: AccountExport where
  "zeroExport =
     \<lparr>r_metrics = [],
      r_zoneCounts = \<lparr>total = 0, filtered = 0, processed = 0, skippedFreeTier = 0\<rparr>\<rparr>"

text \<open>
  The fan-out.  \<open>outcome i\<close> is what getting the coordinator of the \<open>i\<close>-th account and
  calling its \<open>export\<close> settles to.  The callback of account \<open>i\<close> resolves to that result
  or, from its \<open>catch\<close> block, to the zero result; \<open>Promise.all\<close> keeps the results in the
  order of the accounts.  The \<open>catch\<close> blocks run in the order in which the calls
  settle, \<open>order\<close>, a permutation of the indices (an index beyond the account list
  belongs to no call and is passed over).
\<close>

definition settled :: "thrown + AccountExport \<Rightarrow> AccountExport" where
  "settled outcome = (case outcome of Inr result \<Rightarrow> result | Inl error \<Rightarrow> zeroExport)"

definition fanOutResults :: "Account list \<Rightarrow> (nat \<Rightarrow> thrown + AccountExport) \<Rightarrow> AccountExport list" where
  "fanOutResults accts outcome = map (\<lambda>i. settled (outcome i)) [0..<length accts]"

definition tallyStep ::
  "Account list \<Rightarrow> (nat \<Rightarrow> thrown + AccountExport) \<Rightarrow> errorTally \<Rightarrow> nat \<Rightarrow> errorTally" where
  "tallyStep accts outcome errorsByAccount i =
     (case outcome i of
        Inr result \<Rightarrow> errorsByAccount
      | Inl error \<Rightarrow>
          recordError (a_id (accts ! i)) (codeString (e_code (extractErrorInfo error))) errorsByAccount)"

definition tallyErrors ::
  "Account list \<Rightarrow> (nat \<Rightarrow> thrown + AccountExport) \<Rightarrow> nat list \<Rightarrow> errorTally" where
  "tallyErrors accts outcome order =
     foldl (tallyStep accts outcome) [] (filter (\<lambda>i. i < length accts) order)"

definition addZoneCounts :: "ZoneCounts \<Rightarrow> AccountExport \<Rightarrow> ZoneCounts" where
  "addZoneCounts zc result =
     \<lparr>total = total zc + total (r_zoneCounts result),
      filtered = filtered zc + filtered (r_zoneCounts result),
      processed = processed zc + processed (r_zoneCounts result),
      skippedFreeTier = skippedFreeTier zc + skippedFreeTier (r_zoneCounts result)\<rparr>"

definition errorRows :: "errorTally \<Rightarrow> MetricValue list" where
  "errorRows errorsByAccount =
     concat (map (\<lambda>(accountId, errors).
                    map (\<lambda>(code, count).
                           \<lparr>v_labels = [(''account_id'', accountId), (''error_code'', code)],
                            v_value = count\<rparr>) errors)
                 errorsByAccount)"

definition buildExporterInfoMetrics :: "number \<Rightarrow> ZoneCounts \<Rightarrow> errorTally \<Rightarrow> MetricDefinition list" where
  "buildExporterInfoMetrics accountCount zoneCounts errorsByAccount =
     [\<lparr>m_name = ''cloudflare_exporter_up'', m_help = ''Exporter health'', m_type = Gauge,
       m_values = [\<lparr>v_labels = [], v_value = 1\<rparr>]\<rparr>,
      \<lparr>m_name = ''cloudflare_accounts'', m_help = ''Total accounts discovered'', m_type = Gauge,
       m_values = [\<lparr>v_labels = [], v_value = accountCount\<rparr>]\<rparr>,
      \<lparr>m_name = ''cloudflare_zones'', m_help = ''Total zones before filtering'', m_type = Gauge,
       m_values = [\<lparr>v_labels = [], v_value = total zoneCounts\<rparr>]\<rparr>,
      \<lparr>m_name = ''cloudflare_zones_filtered'', m_help = ''Zones after whitelist filter'',
       m_type = Gauge, m_values = [\<lparr>v_labels = [], v_value = filtered zoneCounts\<rparr>]\<rparr>,
      \<lparr>m_name = ''cloudflare_zones_processed'', m_help = ''Zones successfully processed'',
       m_type = Gauge, m_values = [\<lparr>v_labels = [], v_value = processed zoneCounts\<rparr>]\<rparr>,
      \<lparr>m_name = ''cloudflare_zones_skipped_free_tier'',
       m_help = ''Zones skipped due to free tier plan (no GraphQL analytics access)'',
       m_type = Gauge, m_values = [\<lparr>v_labels = [], v_value = skippedFreeTier zoneCounts\<rparr>]\<rparr>]
     @ (if length errorsByAccount > 0
        then [\<lparr>m_name = ''cloudflare_exporter_errors_total'',
               m_help = ''Total errors during metric collection by account and error code'',
               m_type = Counter, m_values = errorRows errorsByAccount\<rparr>]
        else [])"

text \<open>The metrics and the options that \<open>export\<close> hands to the serializer.\<close>

definition fleetMetrics ::
  "Account list \<Rightarrow> (nat \<Rightarrow> thrown + AccountExport) \<Rightarrow> nat list \<Rightarrow> MetricDefinition list" where
  "fleetMetrics accts outcome order =
     (let results = fanOutResults accts outcome;
          errorsByAccount = tallyErrors accts outcome order;
          zoneCounts =
            foldl addZoneCounts \<lparr>total = 0, filtered = 0, processed = 0, skippedFreeTier = 0\<rparr> results;
          allMetrics = concat (map r_metrics results);
          exporterMetrics =
            buildExporterInfoMetrics (real (length accts)) zoneCounts errorsByAccount
      in exporterMetrics @ allMetrics)"

definition fleetOptions :: "ResolvedConfig \<Rightarrow> SerializeOptions option" where
  "fleetOptions config =
     Some \<lparr>denylist = Some (parseCommaSeparated (Some (metricsDenylist config))),
           excludeLabels = (if excludeHost config then Some {''host''} else None)\<rparr>"

text \<open>
  \<open>MetricCoordinator.export\<close>: the text returned or the error thrown, and the state left
  in \<open>this.state\<close>.
\<close>

definition MetricCoordinator_export ::
  "comparator \<Rightarrow> (number \<Rightarrow> string) \<Rightarrow> ResolvedConfig \<Rightarrow> int \<Rightarrow> int \<Rightarrow> thrown + Account list
     \<Rightarrow> (nat \<Rightarrow> thrown + AccountExport) \<Rightarrow> nat list \<Rightarrow> MetricCoordinatorState option
     \<Rightarrow> (thrown + string) \<times> MetricCoordinatorState option" where
  "MetricCoordinator_export lc numToString config nowCheck nowFetched getAccounts outcome order this_state =
     (case this_state of
        None \<Rightarrow> (Inl (JsError ''State not initialized''), None)
      | Some state \<Rightarrow>
          (case refreshAccountsIfStale config nowCheck nowFetched getAccounts state of
             Inl error \<Rightarrow> (Inl error, Some state)
           | Inr (accts, state') \<Rightarrow>
               if length accts = 0 then (Inr [], Some state')
               else (Inr (serializeToPrometheus lc numToString (fleetMetrics accts outcome order)
                            (fleetOptions config)),
                     Some state')))"

text \<open>The tally has an entry for the account with a count for the code.\<close>

definition tallied :: "errorTally \<Rightarrow> string \<Rightarrow> string \<Rightarrow> bool" where
  "tallied t accountId code = (\<exists>es n. mapGet t accountId = Some es \<and> (code, n) \<in> set es)"

text \<open>Every code in the tally is the string of an error code.\<close>

definition codesKnown :: "errorTally \<Rightarrow> bool" where
  "codesKnown t = (\<forall>(a, es) \<in> set t. \<forall>(c, n) \<in> set es. c \<in> range codeString)"

section \<open>Example inputs\<close>

text \<open>
  A configuration with the default intervals, a given metrics denylist and a given
  \<open>excludeHost\<close> flag; a fleet state holding a fresh cache of the given accounts (fetched
  at time 1000, read at time 2000 below); and the result of an account that reports one
  counter row \<open>cf_requests{zone, host} = 4\<close>.
\<close>

definition exampleConfig :: "string \<Rightarrow> bool \<Rightarrow> ResolvedConfig" where
  "exampleConfig deny noHost =
     \<lparr>scrapeDelaySeconds = 300, timeWindowSeconds = 60, metricRefreshIntervalSeconds = 60,
      accountListCacheTtlSeconds = 600, zoneListCacheTtlSeconds = 1800,
      sslCertsCacheTtlSeconds = 1800, cfAccounts = None, cfZones = None,
      cfFreeTierAccounts = [], metricsDenylist = deny, excludeHost = noHost\<rparr>"

definition exampleFleet :: "Account list \<Rightarrow> MetricCoordinatorState" where
  "exampleFleet accts =
     \<lparr>f_identifier = ''metric-coordinator'', f_accounts = accts, f_lastAccountFetch = 1000\<rparr>"

definition exampleExport :: "string \<Rightarrow> AccountExport" where
  "exampleExport host =
     \<lparr>r_metrics = [\<lparr>m_name = ''cf_requests'', m_help = ''Requests'', m_type = Counter,
                    m_values = [\<lparr>v_labels = [(''zone'', ''z''), (''host'', host)], v_value = 4\<rparr>]\<rparr>],
      r_zoneCounts = \<lparr>total = 2, filtered = 1, processed = 1, skippedFreeTier = 0\<rparr>\<rparr>"

text \<open>Three accounts of which the second rejects with a rate-limit error.\<close>

definition threeAccounts :: "Account list" where
  "threeAccounts =
     [\<lparr>a_id = ''a1'', a_name = ''A''\<rparr>, \<lparr>a_id = ''a2'', a_name = ''B''\<rparr>, \<lparr>a_id = ''a3'', a_name = ''C''\<rparr>]"

definition secondRejects :: "nat \<Rightarrow> thrown + AccountExport" where
  "secondRejects j =
     (if j = 1 then Inl (CloudflarePrometheusError ''slow down'' API_RATE_LIMITED True)
      else if j = 0 then Inr (exampleExport ''h0'')
      else Inr (exampleExport ''h2''))"

text \<open>A single account whose export rejects with a plain error.\<close>

definition oneAccount :: "Account list" where
  "oneAccount = [\<lparr>a_id = ''a1'', a_name = ''A''\<rparr>]"

definition alwaysRejects :: "nat \<Rightarrow> thrown + AccountExport" where
  "alwaysRejects j = Inl (JsError ''boom'')"

section \<open>MetricCoordinator.export with the calls it makes\<close>

text \<open>
  \<open>export\<close> once more, now with a third component: the account coordinators it reaches
  for, \<open>AccountMetricCoordinator.get(account.id, account.name, env)\<close>, one per callback
  of the fan-out, in the order of the account list.  The two early returns and the throw
  come before the fan-out.
\<close>

datatype fleetEffect = AccountCoordinatorGet string string

definition MetricCoordinator_exportTraced ::
  "comparator \<Rightarrow> (number \<Rightarrow> string) \<Rightarrow> ResolvedConfig \<Rightarrow> int \<Rightarrow> int \<Rightarrow> thrown + Account list
     \<Rightarrow> (nat \<Rightarrow> thrown + AccountExport) \<Rightarrow> nat list \<Rightarrow> MetricCoordinatorState option
     \<Rightarrow> (thrown + string) \<times> MetricCoordinatorState option \<times> fleetEffect list" where
  "MetricCoordinator_exportTraced lc numToString config nowCheck nowFetched getAccounts outcome order
       this_state =
     (case this_state of
        None \<Rightarrow> (Inl (JsError ''State not initialized''), None, [])
      | Some state \<Rightarrow>
          (case refreshAccountsIfStale config nowCheck nowFetched getAccounts state of
             Inl error \<Rightarrow> (Inl error, Some state, [])
           | Inr (accts, state') \<Rightarrow>
               if length accts = 0 then (Inr [], Some state', [])
               else (Inr (serializeToPrometheus lc numToString (fleetMetrics accts outcome order)
                            (fleetOptions config)),
                     Some state',
                     map (\<lambda>account. AccountCoordinatorGet (a_id account) (a_name account)) accts)))"

text \<open>
  The values of the rows without labels, after label exclusion, that the metrics of a
  given name in a list carry.
\<close>

definition labelLessValues :: "string set \<Rightarrow> string \<Rightarrow> MetricDefinition list \<Rightarrow> number list" where
  "labelLessValues exclude n ms =
     map v_value (filter (\<lambda>r. v_labels r = [])
                    (concat (map (keptRows exclude) (filter (\<lambda>m. m_name m = n) ms))))"

text \<open>A single account whose export succeeds.\<close>

definition alwaysExports :: "nat \<Rightarrow> thrown + AccountExport" where
  "alwaysExports j = Inr (exampleExport ''h0'')"

section \<open>Properties of the counter accumulation\<close>

lemma running_append: "running a (xs @ ys) = running a xs @ running (a + sum_list xs) ys"
  by (induction xs arbitrary: a) (simp_all add: add.assoc)

lemma running_nth: "k < length ws \<Longrightarrow> running a ws ! k = a + sum_list (take (Suc k) ws)"
proof (induction ws arbitrary: a k)
  case Nil
  then show ?case by simp
next
  case (Cons w ws)
  then show ?case by (cases k) (simp_all add: add.assoc)
qed

lemma length_running: "length (running a ws) = length ws"
  by (induction ws arbitrary: a) simp_all

lemma running_prefixSums: "running 0 ws = prefixSums ws"
proof (rule nth_equalityI)
  show "length (running 0 ws) = length (prefixSums ws)"
    by (simp add: length_running prefixSums_def)
next
  fix i assume "i < length (running 0 ws)"
  then have i: "i < length ws" by (simp add: length_running)
  then show "running 0 ws ! i = prefixSums ws ! i"
    by (simp add: running_nth prefixSums_def)
qed

lemma running_lower: "\<forall>w\<in>set ws. 0 \<le> w \<Longrightarrow> x \<in> set (running a ws) \<Longrightarrow> a \<le> x"
proof (induction ws arbitrary: a)
  case Nil
  then show ?case by simp
next
  case (Cons w ws)
  from Cons.prems have w: "0 \<le> w" and rest: "\<forall>u\<in>set ws. 0 \<le> u" by simp_all
  from Cons.prems(2) have "x = a + w \<or> x \<in> set (running (a + w) ws)" by simp
  then show ?case
  proof
    assume "x = a + w" with w show ?thesis by simp
  next
    assume "x \<in> set (running (a + w) ws)"
    from Cons.IH[OF rest this] w show ?thesis by simp
  qed
qed

lemma sorted_running: "\<forall>w\<in>set ws. 0 \<le> w \<Longrightarrow> sorted (running a ws)"
proof (induction ws arbitrary: a)
  case Nil
  then show ?case by simp
next
  case (Cons w ws)
  then have rest: "\<forall>u\<in>set ws. 0 \<le> u" by simp
  have "\<forall>x\<in>set (running (a + w) ws). a + w \<le> x"
    using running_lower[OF rest] by blast
  with Cons.IH[OF rest] show ?case by simp
qed

lemma acc0_update:
  "acc0 (c(k \<mapsto> updateCounter (c k) w)) K = (if k = K then acc0 c K + w else acc0 c K)"
  by (simp add: acc0_def updateCounter_def split: option.splits)

lemma processValues_rows:
  "map v_value (filter (\<lambda>v. metricKey lc nm (v_labels v) = K) (fst (processValues lc nm vs c)))
     = running (acc0 c K) (map v_value (filter (\<lambda>v. metricKey lc nm (v_labels v) = K) vs))
   \<and> acc0 (snd (processValues lc nm vs c)) K
     = acc0 c K + sum_list (map v_value (filter (\<lambda>v. metricKey lc nm (v_labels v) = K) vs))"
proof (induction vs arbitrary: c)
  case Nil
  then show ?case by simp
next
  case (Cons v vs)
  let ?key = "metricKey lc nm (v_labels v)"
  let ?c' = "c(?key \<mapsto> updateCounter (c ?key) (v_value v))"
  note IH = Cons.IH[of ?c']
  show ?case
  proof (cases "?key = K")
    case True
    have a: "acc0 ?c' K = acc0 c K + v_value v" using True by (simp add: acc0_update)
    have b: "accumulated (updateCounter (c K) (v_value v)) = acc0 c K + v_value v"
      by (simp add: acc0_def updateCounter_def split: option.splits)
    from IH have IH': "map v_value (filter (\<lambda>v. metricKey lc nm (v_labels v) = K) (fst (processValues lc nm vs ?c')))
        = running (acc0 c K + v_value v) (map v_value (filter (\<lambda>v. metricKey lc nm (v_labels v) = K) vs))"
      and IH'': "acc0 (snd (processValues lc nm vs ?c')) K
        = acc0 c K + v_value v + sum_list (map v_value (filter (\<lambda>v. metricKey lc nm (v_labels v) = K) vs))"
      by (simp_all only: a)
    have out: "fst (processValues lc nm (v # vs) c)
        = \<lparr>v_labels = v_labels v, v_value = accumulated (updateCounter (c ?key) (v_value v))\<rparr> # fst (processValues lc nm vs ?c')"
      and fin: "snd (processValues lc nm (v # vs) c) = snd (processValues lc nm vs ?c')"
      by (simp_all add: Let_def split_beta)
    show ?thesis unfolding out fin using IH' IH'' True b
      by (simp add: add.assoc)
  next
    case False
    have a: "acc0 ?c' K = acc0 c K" using False by (simp add: acc0_update)
    from IH have IH': "map v_value (filter (\<lambda>v. metricKey lc nm (v_labels v) = K) (fst (processValues lc nm vs ?c')))
        = running (acc0 c K) (map v_value (filter (\<lambda>v. metricKey lc nm (v_labels v) = K) vs))"
      and IH'': "acc0 (snd (processValues lc nm vs ?c')) K
        = acc0 c K + sum_list (map v_value (filter (\<lambda>v. metricKey lc nm (v_labels v) = K) vs))"
      by (simp_all only: a)
    have out: "fst (processValues lc nm (v # vs) c)
        = \<lparr>v_labels = v_labels v, v_value = accumulated (updateCounter (c ?key) (v_value v))\<rparr> # fst (processValues lc nm vs ?c')"
      and fin: "snd (processValues lc nm (v # vs) c) = snd (processValues lc nm vs ?c')"
      by (simp_all add: Let_def split_beta)
    show ?thesis unfolding out fin using IH' IH'' False
      by simp
  qed
qed

lemma processMetrics_rows:
  "rowsOf lc K (fst (processMetrics lc ms c)) = running (acc0 c K) (rowsOf lc K ms)
   \<and> acc0 (snd (processMetrics lc ms c)) K = acc0 c K + sum_list (rowsOf lc K ms)"
proof (induction ms arbitrary: c)
  case Nil
  then show ?case by (simp add: rowsOf_def)
next
  case (Cons m ms)
  show ?case
  proof (cases "m_type m = Counter")
    case False
    with Cons.IH[of c] show ?thesis
      by (simp add: rowsOf_def split_beta)
  next
    case True
    let ?c' = "snd (processValues lc (m_name m) (m_values m) c)"
    from processValues_rows[of lc "m_name m" K "m_values m" c] Cons.IH[of ?c'] True
    show ?thesis
      by (simp add: rowsOf_def split_beta Let_def running_append add.assoc)
  qed
qed

lemma refreshCycles_rows:
  "concat (map (rowsOf lc K) (refreshCycles lc c batches))
     = running (acc0 c K) (concat (map (rowsOf lc K) batches))"
proof (induction batches arbitrary: c)
  case Nil
  then show ?case by simp
next
  case (Cons raw later)
  from processMetrics_rows[of lc K raw c] Cons.IH[of "snd (processMetrics lc raw c)"]
  show ?case
    by (simp add: processCounters_def split_beta running_append)
qed

lemma processMetrics_length: "length (fst (processMetrics lc ms c)) = length ms"
  by (induction ms arbitrary: c) (simp_all add: split_beta Let_def)

lemma processMetrics_gauge:
  "i < length ms \<Longrightarrow> m_type (ms ! i) \<noteq> Counter \<Longrightarrow> fst (processMetrics lc ms c) ! i = ms ! i"
proof (induction ms arbitrary: c i)
  case Nil
  then show ?case by simp
next
  case (Cons m ms)
  then show ?case
    by (cases i) (auto simp: split_beta Let_def)
qed

text \<open>
  C1.  Feed any sequence of raw metric batches through successive refresh cycles,
  starting from a counter map with no entry for the signature \<open>K\<close>.  The values emitted
  for \<open>K\<close> are, in order, the running sums w1, w1+w2, ... of the raw window values
  observed for \<open>K\<close>.  The window values of a counter are upstream request counts and
  byte sums, hence never negative, and then the emitted values never decrease.  A metric
  that is not a counter comes out of \<open>processCounters\<close> exactly as it went in, at the
  same position.  (Numbers are reals here; on whole numbers below \<open>2^53\<close>, which counts
  and byte sums are, the addition of the runtime is the same.)
\<close>

theorem counter_accumulation:
  assumes fresh: "c K = None"
  shows "concat (map (rowsOf lc K) (refreshCycles lc c batches))
           = prefixSums (concat (map (rowsOf lc K) batches))
       \<and> ((\<forall>w \<in> set (concat (map (rowsOf lc K) batches)). 0 \<le> w)
            \<longrightarrow> sorted (concat (map (rowsOf lc K) (refreshCycles lc c batches))))
       \<and> length (fst (processCounters lc raw c')) = length raw
       \<and> (\<forall>i < length raw. m_type (raw ! i) = Gauge
            \<longrightarrow> fst (processCounters lc raw c') ! i = raw ! i)"
proof -
  from fresh have zero: "acc0 c K = 0" by (simp add: acc0_def)
  have emitted: "concat (map (rowsOf lc K) (refreshCycles lc c batches))
      = running 0 (concat (map (rowsOf lc K) batches))"
    using refreshCycles_rows[of lc K c batches] zero by simp
  have sums: "concat (map (rowsOf lc K) (refreshCycles lc c batches))
      = prefixSums (concat (map (rowsOf lc K) batches))"
    using emitted by (simp only: running_prefixSums)
  have mono: "(\<forall>w \<in> set (concat (map (rowsOf lc K) batches)). 0 \<le> w)
      \<longrightarrow> sorted (concat (map (rowsOf lc K) (refreshCycles lc c batches)))"
    unfolding emitted by (intro impI) (rule sorted_running)
  have len: "length (fst (processCounters lc raw c')) = length raw"
    by (simp add: processCounters_def processMetrics_length)
  have gauge: "\<forall>i < length raw. m_type (raw ! i) = Gauge
      \<longrightarrow> fst (processCounters lc raw c') ! i = raw ! i"
    by (simp add: processCounters_def processMetrics_gauge)
  from sums mono len gauge show ?thesis by blast
qed

theorem counter_accumulation_witness:
  "concat (map (rowsOf codeUnitCompare ''requests{}'')
      (refreshCycles codeUnitCompare Map.empty
         [[\<lparr>m_name = ''requests'', m_help = ''h'', m_type = Counter,
            m_values = [\<lparr>v_labels = [], v_value = 5\<rparr>]\<rparr>],
          [\<lparr>m_name = ''requests'', m_help = ''h'', m_type = Counter,
            m_values = [\<lparr>v_labels = [], v_value = 3\<rparr>]\<rparr>]]))
     = [5, 8]
   \<and> sorted (concat (map (rowsOf codeUnitCompare ''requests{}'')
      (refreshCycles codeUnitCompare Map.empty
         [[\<lparr>m_name = ''requests'', m_help = ''h'', m_type = Counter,
            m_values = [\<lparr>v_labels = [], v_value = 5\<rparr>]\<rparr>],
          [\<lparr>m_name = ''requests'', m_help = ''h'', m_type = Counter,
            m_values = [\<lparr>v_labels = [], v_value = 3\<rparr>]\<rparr>]])))
   \<and> fst (processCounters codeUnitCompare
        [\<lparr>m_name = ''up'', m_help = ''h'', m_type = Gauge,
          m_values = [\<lparr>v_labels = [], v_value = 1\<rparr>]\<rparr>] Map.empty) ! 0
     = \<lparr>m_name = ''up'', m_help = ''h'', m_type = Gauge,
          m_values = [\<lparr>v_labels = [], v_value = 1\<rparr>]\<rparr>"
proof -
  let ?batches = "[[\<lparr>m_name = ''requests'', m_help = ''h'', m_type = Counter,
            m_values = [\<lparr>v_labels = [], v_value = 5\<rparr>]\<rparr>],
        [\<lparr>m_name = ''requests'', m_help = ''h'', m_type = Counter,
            m_values = [\<lparr>v_labels = [], v_value = (3::real)\<rparr>]\<rparr>]]"
  let ?gauge = "[\<lparr>m_name = ''up'', m_help = ''h'', m_type = Gauge,
          m_values = [\<lparr>v_labels = [], v_value = (1::real)\<rparr>]\<rparr>]"
  have fresh: "Map.empty ''requests{}'' = (None :: CounterState option)" by simp
  have windows: "concat (map (rowsOf codeUnitCompare ''requests{}'') ?batches) = [5, 3]"
    by (simp add: rowsOf_def metricKey_def sort_entries_def)
  have counts: "\<forall>w \<in> set (concat (map (rowsOf codeUnitCompare ''requests{}'') ?batches)). 0 \<le> w"
    unfolding windows by simp
  note t = counter_accumulation[where c = Map.empty and K = "''requests{}''"
      and lc = codeUnitCompare and batches = ?batches and raw = ?gauge and c' = Map.empty,
      OF fresh]
  have pre: "prefixSums [5, 3] = [5, 8]"
    by (simp add: prefixSums_def upt_rec)
  have sums: "concat (map (rowsOf codeUnitCompare ''requests{}'')
      (refreshCycles codeUnitCompare Map.empty ?batches)) = [5, 8]"
    using t[THEN conjunct1] unfolding windows pre .
  have mono: "sorted (concat (map (rowsOf codeUnitCompare ''requests{}'')
      (refreshCycles codeUnitCompare Map.empty ?batches)))"
    using t[THEN conjunct2, THEN conjunct1] counts by blast
  have gauge: "fst (processCounters codeUnitCompare ?gauge Map.empty) ! 0 = ?gauge ! 0"
    using t[THEN conjunct2, THEN conjunct2, THEN conjunct2] by simp
  from sums mono gauge show ?thesis by simp
qed

section \<open>Properties of the serializer\<close>

lemma groupStep_denied: "m_name m \<in> d \<Longrightarrow> groupStep d e g m = g"
  by (simp add: groupStep_def)

lemma foldl_groupStep_drop:
  "n \<in> d \<Longrightarrow> foldl (groupStep d e) g ms = foldl (groupStep d e) g (filter (\<lambda>m. m_name m \<noteq> n) ms)"
  by (induction ms arbitrary: g) (simp_all add: groupStep_denied)

lemma map_fst_mapSet:
  "map fst (mapSet k v al) = (if k \<in> set (map fst al) then map fst al else map fst al @ [k])"
proof (induction al)
  case Nil
  then show ?case by simp
next
  case (Cons p al)
  obtain k' v' where p: "p = (k', v')" by (cases p)
  show ?case
  proof (cases "k' = k")
    case True
    with p show ?thesis by simp
  next
    case False
    with p Cons.IH show ?thesis by simp
  qed
qed

lemma mapSet_keys: "fst ` set (mapSet k v al) = insert k (fst ` set al)"
proof -
  have "set (map fst (mapSet k v al)) = insert k (set (map fst al))"
    unfolding map_fst_mapSet by auto
  then show ?thesis by simp
qed

lemma groupStep_keys:
  "fst ` set (groupStep d e g m) = (if m_name m \<in> d then fst ` set g else insert (m_name m) (fst ` set g))"
  by (simp add: groupStep_def Let_def mapSet_keys split: option.splits)

lemma foldl_groupStep_keys:
  "fst ` set (foldl (groupStep d e) g ms) = fst ` set g \<union> {m_name m |m. m \<in> set ms \<and> m_name m \<notin> d}"
proof (induction ms arbitrary: g)
  case Nil
  then show ?case by simp
next
  case (Cons m ms)
  show ?case
    unfolding foldl_Cons Cons.IH groupStep_keys by auto
qed

text \<open>
  C9.  A metric name in the denylist has no entry in the grouping map, so the serializer
  writes neither a header pair nor a value line for it; and the output, line by line and
  as text, is the output for the input with every entry of that name removed, however
  many there are.
\<close>

theorem denylist_excludes:
  assumes denied: "n \<in> optSet options denylist"
  shows "n \<notin> fst ` set (groupMetrics metrics options)
       \<and> serializeLines lc numToString metrics options
           = serializeLines lc numToString (filter (\<lambda>m. m_name m \<noteq> n) metrics) options
       \<and> serializeToPrometheus lc numToString metrics options
           = serializeToPrometheus lc numToString (filter (\<lambda>m. m_name m \<noteq> n) metrics) options"
proof -
  have keys: "n \<notin> fst ` set (groupMetrics metrics options)"
    using denied by (auto simp: groupMetrics_def foldl_groupStep_keys)
  have same: "groupMetrics metrics options = groupMetrics (filter (\<lambda>m. m_name m \<noteq> n) metrics) options"
    unfolding groupMetrics_def using denied by (rule foldl_groupStep_drop)
  from keys same show ?thesis
    by (simp add: serializeToPrometheus_def serializeLines_def)
qed

theorem denylist_excludes_witness:
  "serializeToPrometheus codeUnitCompare (\<lambda>v. ''1'')
      [\<lparr>m_name = ''a'', m_help = ''h'', m_type = Gauge, m_values = [\<lparr>v_labels = [], v_value = 1\<rparr>]\<rparr>,
       \<lparr>m_name = ''a'', m_help = ''h'', m_type = Gauge, m_values = [\<lparr>v_labels = [(''z'', ''y'')], v_value = 1\<rparr>]\<rparr>]
      (Some \<lparr>denylist = Some {''a''}, excludeLabels = None\<rparr>) = []"
  using denylist_excludes[of "''a''" "Some \<lparr>denylist = Some {''a''}, excludeLabels = None\<rparr>"
      "[\<lparr>m_name = ''a'', m_help = ''h'', m_type = Gauge, m_values = [\<lparr>v_labels = [], v_value = 1\<rparr>]\<rparr>,
       \<lparr>m_name = ''a'', m_help = ''h'', m_type = Gauge, m_values = [\<lparr>v_labels = [(''z'', ''y'')], v_value = 1\<rparr>]\<rparr>]"
      codeUnitCompare "\<lambda>v. ''1''"]
  by (simp add: optSet_def serializeToPrometheus_def serializeLines_def groupMetrics_def)

text \<open>
  C2.  One metric name with the rows \<open>{host:"a"} = 3\<close> and \<open>{host:"b"} = 5\<close>, serialized
  with \<open>excludeLabels = {host}\<close>, gives the two header lines, exactly one value line and
  the closing blank line.  The value is 8 for a counter and 5 for a gauge, whether the two
  rows come in one metric definition or in two definitions of the same name.
\<close>

theorem label_exclusion_aggregation:
  "serializeLines lc numToString
     [\<lparr>m_name = nm, m_help = h, m_type = Counter,
       m_values = [\<lparr>v_labels = [(''host'', ''a'')], v_value = 3\<rparr>,
                   \<lparr>v_labels = [(''host'', ''b'')], v_value = 5\<rparr>]\<rparr>]
     (Some \<lparr>denylist = None, excludeLabels = Some {''host''}\<rparr>)
   = [''# HELP '' @ nm @ '' '' @ escapeHelp h, ''# TYPE '' @ nm @ '' counter'',
      nm @ '' '' @ numToString 8, []]
 \<and> serializeLines lc numToString
     [\<lparr>m_name = nm, m_help = h, m_type = Gauge,
       m_values = [\<lparr>v_labels = [(''host'', ''a'')], v_value = 3\<rparr>,
                   \<lparr>v_labels = [(''host'', ''b'')], v_value = 5\<rparr>]\<rparr>]
     (Some \<lparr>denylist = None, excludeLabels = Some {''host''}\<rparr>)
   = [''# HELP '' @ nm @ '' '' @ escapeHelp h, ''# TYPE '' @ nm @ '' gauge'',
      nm @ '' '' @ numToString 5, []]
 \<and> serializeLines lc numToString
     [\<lparr>m_name = nm, m_help = h, m_type = Counter,
       m_values = [\<lparr>v_labels = [(''host'', ''a'')], v_value = 3\<rparr>]\<rparr>,
      \<lparr>m_name = nm, m_help = h', m_type = Counter,
       m_values = [\<lparr>v_labels = [(''host'', ''b'')], v_value = 5\<rparr>]\<rparr>]
     (Some \<lparr>denylist = None, excludeLabels = Some {''host''}\<rparr>)
   = [''# HELP '' @ nm @ '' '' @ escapeHelp h, ''# TYPE '' @ nm @ '' counter'',
      nm @ '' '' @ numToString 8, []]
 \<and> serializeLines lc numToString
     [\<lparr>m_name = nm, m_help = h, m_type = Gauge,
       m_values = [\<lparr>v_labels = [(''host'', ''a'')], v_value = 3\<rparr>]\<rparr>,
      \<lparr>m_name = nm, m_help = h', m_type = Gauge,
       m_values = [\<lparr>v_labels = [(''host'', ''b'')], v_value = 5\<rparr>]\<rparr>]
     (Some \<lparr>denylist = None, excludeLabels = Some {''host''}\<rparr>)
   = [''# HELP '' @ nm @ '' '' @ escapeHelp h, ''# TYPE '' @ nm @ '' gauge'',
      nm @ '' '' @ numToString 5, []]"
  by (simp add: serializeLines_def groupMetrics_def groupStep_def optSet_def filterLabels_def
      groupLines_def aggregateByLabels_def aggregateStep_def labelSignature_def sort_entries_def
      valueLine_def formatLabels_def formatValue_def typeName_def)

section \<open>Properties of the identity parser\<close>

lemma rem_Lit: "set (remainders (Lit l) s) = {r. s = l @ r}"
proof -
  have "take (length l) s = l \<Longrightarrow> s = l @ drop (length l) s"
    by (metis append_take_drop_id)
  then show ?thesis by auto
qed

lemma rem_PlusNot:
  "set (remainders (PlusNot c) s) = {r. \<exists>p. p \<noteq> [] \<and> c \<notin> set p \<and> s = p @ r}"
proof (induction s)
  case Nil
  then show ?case by simp
next
  case (Cons x xs)
  show ?case
  proof (cases "x = c")
    case True
    have "\<And>p r. p \<noteq> [] \<Longrightarrow> c \<notin> set p \<Longrightarrow> x # xs \<noteq> p @ r"
      using True by (metis append_Cons list.inject list.set_intros(1) neq_Nil_conv)
    with True show ?thesis by auto
  next
    case False
    have "{r. \<exists>p. p \<noteq> [] \<and> c \<notin> set p \<and> x # xs = p @ r}
        = insert xs {r. \<exists>p. p \<noteq> [] \<and> c \<notin> set p \<and> xs = p @ r}" (is "?L = ?R")
    proof (rule set_eqI)
      fix r
      show "r \<in> ?L \<longleftrightarrow> r \<in> ?R"
      proof
        assume "r \<in> ?L"
        then obtain p where p: "p \<noteq> []" "c \<notin> set p" "x # xs = p @ r" by blast
        then obtain p' where p': "p = x # p'" by (cases p) auto
        show "r \<in> ?R"
        proof (cases "p' = []")
          case True
          with p p' show ?thesis by simp
        next
          case False
          with p p' have "p' \<noteq> [] \<and> c \<notin> set p' \<and> xs = p' @ r" by simp
          then show ?thesis by blast
        qed
      next
        assume "r \<in> ?R"
        then consider "r = xs" | p where "p \<noteq> []" "c \<notin> set p" "xs = p @ r" by blast
        then show "r \<in> ?L"
        proof cases
          case 1
          with False have "[x] \<noteq> [] \<and> c \<notin> set [x] \<and> x # xs = [x] @ r" by simp
          then show ?thesis by blast
        next
          case 2
          with False have "x # p \<noteq> [] \<and> c \<notin> set (x # p) \<and> x # xs = (x # p) @ r" by simp
          then show ?thesis by blast
        qed
      qed
    qed
    with False Cons.IH show ?thesis by simp
  qed
qed


lemma rem_Seq: "x \<in> set (remainders (Seq a b) s) \<longleftrightarrow> (\<exists>r. r \<in> set (remainders a s) \<and> x \<in> set (remainders b r))"
  by auto

lemma rem_Alt: "set (remainders (Alt a b) s) = set (remainders a s) \<union> set (remainders b s)"
  by simp

lemma idRegex_shape:
  "anchoredMatch idRegex s \<longleftrightarrow>
     (\<exists>pre p q. (pre = ''account'' \<or> pre = ''zone'') \<and> s = pre @ '':'' @ p @ '':'' @ q
        \<and> p \<noteq> [] \<and> CHR '':'' \<notin> set p \<and> q \<noteq> [] \<and> CHR '':'' \<notin> set q)"
  (is "?L \<longleftrightarrow> ?R")
proof
  assume ?L
  then obtain r1 r2 r3 r4 where
    r1: "r1 \<in> set (remainders (Alt (Lit ''account'') (Lit ''zone'')) s)" and
    r2: "r2 \<in> set (remainders (Lit '':'') r1)" and
    r3: "r3 \<in> set (remainders (PlusNot (CHR '':'')) r2)" and
    r4: "r4 \<in> set (remainders (Lit '':'') r3)" and
    r5: "[] \<in> set (remainders (PlusNot (CHR '':'')) r4)"
    unfolding anchoredMatch_def idRegex_def rem_Seq by blast
  from r1 have s: "s = ''account'' @ r1 \<or> s = ''zone'' @ r1"
    unfolding rem_Alt rem_Lit by blast
  from r2 have e2: "r1 = '':'' @ r2" unfolding rem_Lit by blast
  from r3 obtain p where p: "p \<noteq> []" "CHR '':'' \<notin> set p" "r2 = p @ r3"
    unfolding rem_PlusNot by blast
  from r4 have e4: "r3 = '':'' @ r4" unfolding rem_Lit by blast
  from r5 obtain q where q: "q \<noteq> []" "CHR '':'' \<notin> set q" "r4 = q @ []"
    unfolding rem_PlusNot by blast
  from s show ?R
  proof
    assume "s = ''account'' @ r1"
    with e2 p e4 q have "(''account'' = ''account'' \<or> ''account'' = ''zone'')
        \<and> s = ''account'' @ '':'' @ p @ '':'' @ q
        \<and> p \<noteq> [] \<and> CHR '':'' \<notin> set p \<and> q \<noteq> [] \<and> CHR '':'' \<notin> set q" by simp
    then show ?R by blast
  next
    assume "s = ''zone'' @ r1"
    with e2 p e4 q have "(''zone'' = ''account'' \<or> ''zone'' = ''zone'')
        \<and> s = ''zone'' @ '':'' @ p @ '':'' @ q
        \<and> p \<noteq> [] \<and> CHR '':'' \<notin> set p \<and> q \<noteq> [] \<and> CHR '':'' \<notin> set q" by simp
    then show ?R by blast
  qed
next
  assume ?R
  then obtain pre p q where pre: "pre = ''account'' \<or> pre = ''zone''"
    and s: "s = pre @ '':'' @ p @ '':'' @ q"
    and p: "p \<noteq> []" "CHR '':'' \<notin> set p" and q: "q \<noteq> []" "CHR '':'' \<notin> set q" by blast
  have a1: "'':'' @ p @ '':'' @ q \<in> set (remainders (Alt (Lit ''account'') (Lit ''zone'')) s)"
    unfolding rem_Alt rem_Lit using pre s by auto
  have a2: "p @ '':'' @ q \<in> set (remainders (Lit '':'') ('':'' @ p @ '':'' @ q))"
    unfolding rem_Lit by simp
  have a3: "'':'' @ q \<in> set (remainders (PlusNot (CHR '':'')) (p @ '':'' @ q))"
    unfolding rem_PlusNot using p by blast
  have a4: "q \<in> set (remainders (Lit '':'') ('':'' @ q))"
    unfolding rem_Lit by simp
  have a5: "[] \<in> set (remainders (PlusNot (CHR '':'')) q)"
    unfolding rem_PlusNot using q by auto
  show ?L
    unfolding anchoredMatch_def idRegex_def rem_Seq using a1 a2 a3 a4 a5
    by blast
qed

lemma splitOn_no_sep: "c \<notin> set a \<Longrightarrow> splitOn c a = [a]"
  by (induction a) (auto split: list.splits)

lemma splitOn_nonempty: "splitOn c s \<noteq> []"
  by (induction s) (auto split: list.splits)

lemma splitOn_append: "c \<notin> set a \<Longrightarrow> splitOn c (a @ c # rest) = a # splitOn c rest"
  by (induction a) (auto split: list.splits simp: splitOn_nonempty)

lemma splitOn_id:
  assumes "CHR '':'' \<notin> set pre" "CHR '':'' \<notin> set p" "CHR '':'' \<notin> set q"
  shows "splitOn (CHR '':'') (pre @ '':'' @ p @ '':'' @ q) = [pre, p, q]"
  using assms by (simp add: splitOn_append splitOn_no_sep)

lemma length_splitOn: "length (splitOn c s) = Suc (count_list s c)"
  by (induction s) (auto split: list.splits simp: splitOn_nonempty)


lemma splitOn_parts_no_sep: "p \<in> set (splitOn c s) \<Longrightarrow> c \<notin> set p"
proof (induction s arbitrary: p)
  case Nil
  then show ?case by simp
next
  case (Cons x xs)
  obtain h t where ht: "splitOn c xs = h # t"
    using splitOn_nonempty[of c xs] by (cases "splitOn c xs") auto
  show ?case
  proof (cases "x = c")
    case True
    with Cons.prems have "p = [] \<or> p \<in> set (splitOn c xs)" by simp
    with Cons.IH show ?thesis by auto
  next
    case False
    with Cons.prems ht have "p = x # h \<or> p \<in> set t" by simp
    moreover have "c \<notin> set h" using Cons.IH[of h] ht by simp
    moreover have "\<And>u. u \<in> set t \<Longrightarrow> c \<notin> set u" using Cons.IH ht by simp
    ultimately show ?thesis using False by auto
  qed
qed

lemma join_splitOn: "join [c] (splitOn c s) = s"
proof (induction s)
  case Nil
  then show ?case by simp
next
  case (Cons x xs)
  obtain h t where ht: "splitOn c xs = h # t"
    using splitOn_nonempty[of c xs] by (cases "splitOn c xs") auto
  show ?case
  proof (cases "x = c")
    case True
    with Cons.IH ht show ?thesis by simp
  next
    case False
    with Cons.IH ht show ?thesis by (cases t) simp_all
  qed
qed

lemma splitOn_three:
  assumes "splitOn c s = [a, p, q]"
  shows "s = a @ [c] @ p @ [c] @ q \<and> c \<notin> set a \<and> c \<notin> set p \<and> c \<notin> set q"
proof -
  have "join [c] (splitOn c s) = s" by (rule join_splitOn)
  with assms have s: "s = a @ [c] @ p @ [c] @ q" by simp
  have "\<And>u. u \<in> set (splitOn c s) \<Longrightarrow> c \<notin> set u" by (rule splitOn_parts_no_sep)
  with assms have "c \<notin> set a" "c \<notin> set p" "c \<notin> set q" by simp_all
  with s show ?thesis by simp
qed

lemma parse_shape:
  assumes pre: "pre = ''account'' \<or> pre = ''zone''"
    and p: "p \<noteq> []" "CHR '':'' \<notin> set p" and q: "q \<noteq> []" "CHR '':'' \<notin> set q"
  shows "MetricExporterIdSchema_parse (pre @ '':'' @ p @ '':'' @ q)
     = Some \<lparr>scopeType = (if pre = ''account'' then ScopeAccount else ScopeZone), scopeId = p, queryName = q\<rparr>"
proof -
  let ?s = "pre @ '':'' @ p @ '':'' @ q"
  have m: "anchoredMatch idRegex ?s"
    unfolding idRegex_shape using pre p q by blast
  have "CHR '':'' \<notin> set pre" using pre by auto
  then have sp: "splitOn (CHR '':'') ?s = [pre, p, q]"
    using p(2) q(2) by (rule splitOn_id)
  have lp: "1 \<le> length p" "1 \<le> length q" using p q by (simp_all add: Suc_le_eq)
  show ?thesis
    unfolding MetricExporterIdSchema_parse_def Let_def sp
    using m pre lp
    by (auto simp: ScopeTypeSchema_parse_def stringMin1_parse_def arrayAt_def)
qed

lemma parse_Some_shape:
  assumes "MetricExporterIdSchema_parse s = Some r"
  shows "\<exists>pre p q. (pre = ''account'' \<or> pre = ''zone'') \<and> s = pre @ '':'' @ p @ '':'' @ q
        \<and> p \<noteq> [] \<and> CHR '':'' \<notin> set p \<and> q \<noteq> [] \<and> CHR '':'' \<notin> set q
        \<and> r = \<lparr>scopeType = (if pre = ''account'' then ScopeAccount else ScopeZone), scopeId = p, queryName = q\<rparr>"
proof -
  from assms have "anchoredMatch idRegex s"
    by (auto simp: MetricExporterIdSchema_parse_def split: if_splits)
  then obtain pre p q where sh: "pre = ''account'' \<or> pre = ''zone''" "s = pre @ '':'' @ p @ '':'' @ q"
      "p \<noteq> []" "CHR '':'' \<notin> set p" "q \<noteq> []" "CHR '':'' \<notin> set q"
    unfolding idRegex_shape by blast
  from parse_shape[OF sh(1) sh(3) sh(4) sh(5) sh(6)] assms sh(2)
  have "r = \<lparr>scopeType = (if pre = ''account'' then ScopeAccount else ScopeZone), scopeId = p, queryName = q\<rparr>"
    by simp
  with sh show ?thesis by blast
qed

text \<open>
  C4.  \<open>"account:abc123:worker-totals"\<close> parses to account / abc123 / worker-totals.
  For every string, the parse succeeds with a result exactly when splitting the string at
  its colons gives three parts, the first the name of the result's scope (account or
  zone), the second and third its non-empty scope id and query name.  A string whose
  number of colons is not two is rejected, and so is one that starts with neither
  \<open>account:\<close> nor \<open>zone:\<close>.
\<close>

theorem identity_parsing:
  "MetricExporterIdSchema_parse ''account:abc123:worker-totals''
      = Some \<lparr>scopeType = ScopeAccount, scopeId = ''abc123'', queryName = ''worker-totals''\<rparr>
   \<and> (MetricExporterIdSchema_parse s = Some r \<longleftrightarrow>
        splitOn (CHR '':'') s = [scopeName (scopeType r), scopeId r, queryName r]
        \<and> scopeId r \<noteq> [] \<and> queryName r \<noteq> [])
   \<and> (count_list s (CHR '':'') \<noteq> 2 \<longrightarrow> MetricExporterIdSchema_parse s = None)
   \<and> (\<not> prefix ''account:'' s \<and> \<not> prefix ''zone:'' s \<longrightarrow> MetricExporterIdSchema_parse s = None)"
proof -
  have ex: "MetricExporterIdSchema_parse ''account:abc123:worker-totals''
      = Some \<lparr>scopeType = ScopeAccount, scopeId = ''abc123'', queryName = ''worker-totals''\<rparr>"
    using parse_shape[of "''account''" "''abc123''" "''worker-totals''"] by simp
  have iff: "MetricExporterIdSchema_parse s = Some r \<longleftrightarrow>
        splitOn (CHR '':'') s = [scopeName (scopeType r), scopeId r, queryName r]
        \<and> scopeId r \<noteq> [] \<and> queryName r \<noteq> []" (is "?L \<longleftrightarrow> ?R")
  proof
    assume ?L
    from parse_Some_shape[OF this] obtain pre p q where
      sh: "pre = ''account'' \<or> pre = ''zone''" "s = pre @ '':'' @ p @ '':'' @ q"
        "p \<noteq> []" "CHR '':'' \<notin> set p" "q \<noteq> []" "CHR '':'' \<notin> set q"
      and r: "r = \<lparr>scopeType = (if pre = ''account'' then ScopeAccount else ScopeZone), scopeId = p, queryName = q\<rparr>"
      by blast
    have "CHR '':'' \<notin> set pre" using sh(1) by auto
    then have "splitOn (CHR '':'') s = [pre, p, q]"
      unfolding sh(2) using sh(4) sh(6) by (rule splitOn_id)
    moreover have "scopeName (scopeType r) = pre" using sh(1) r by (auto simp: scopeName_def)
    ultimately show ?R using r sh(3) sh(5) by simp
  next
    assume R: ?R
    then have sp: "splitOn (CHR '':'') s = [scopeName (scopeType r), scopeId r, queryName r]" by simp
    from splitOn_three[OF sp]
    have s: "s = scopeName (scopeType r) @ '':'' @ scopeId r @ '':'' @ queryName r"
      and ns: "CHR '':'' \<notin> set (scopeId r)" "CHR '':'' \<notin> set (queryName r)" by simp_all
    have pre: "scopeName (scopeType r) = ''account'' \<or> scopeName (scopeType r) = ''zone''"
      by (cases "scopeType r") (simp_all add: scopeName_def)
    have ty: "(if scopeName (scopeType r) = ''account'' then ScopeAccount else ScopeZone) = scopeType r"
      by (cases "scopeType r") (simp_all add: scopeName_def)
    from R have ne: "scopeId r \<noteq> []" "queryName r \<noteq> []" by simp_all
    have "MetricExporterIdSchema_parse s = Some \<lparr>scopeType = scopeType r, scopeId = scopeId r, queryName = queryName r\<rparr>"
      using parse_shape[OF pre ne(1) ns(1) ne(2) ns(2)] s ty by simp
    then show ?L by simp
  qed
  have shape_of: "MetricExporterIdSchema_parse s \<noteq> None \<Longrightarrow>
      count_list s (CHR '':'') = 2 \<and> (prefix ''account:'' s \<or> prefix ''zone:'' s)"
  proof -
    assume "MetricExporterIdSchema_parse s \<noteq> None"
    then obtain r' where "MetricExporterIdSchema_parse s = Some r'" by blast
    from parse_Some_shape[OF this] obtain pre p q where
      sh: "pre = ''account'' \<or> pre = ''zone''" "s = pre @ '':'' @ p @ '':'' @ q"
        "CHR '':'' \<notin> set p" "CHR '':'' \<notin> set q"
      by blast
    from sh(1) have "count_list pre (CHR '':'') = 0" by auto
    moreover have "count_list p (CHR '':'') = 0" "count_list q (CHR '':'') = 0"
      using sh(3) sh(4) by (simp_all add: count_list_0_iff)
    ultimately have "count_list s (CHR '':'') = 2" unfolding sh(2) by simp
    moreover have "prefix ''account:'' s \<or> prefix ''zone:'' s"
      using sh(1) unfolding sh(2) by (auto simp: prefix_def)
    ultimately show ?thesis by simp
  qed
  from ex iff shape_of show ?thesis by blast
qed

theorem identity_parsing_witness:
  "MetricExporterIdSchema_parse ''zone:z1:ssl-certificates''
     = Some \<lparr>scopeType = ScopeZone, scopeId = ''z1'', queryName = ''ssl-certificates''\<rparr>
   \<and> MetricExporterIdSchema_parse ''account:abc123'' = None
   \<and> MetricExporterIdSchema_parse ''tenant:abc123:worker-totals'' = None"
proof -
  let ?r = "\<lparr>scopeType = ScopeZone, scopeId = ''z1'', queryName = ''ssl-certificates''\<rparr>"
  have sp: "splitOn (CHR '':'') ''zone:z1:ssl-certificates'' = [''zone'', ''z1'', ''ssl-certificates'']"
    by simp
  have a: "MetricExporterIdSchema_parse ''zone:z1:ssl-certificates'' = Some ?r"
    using identity_parsing[of "''zone:z1:ssl-certificates''" ?r] sp by (simp add: scopeName_def)
  have b: "MetricExporterIdSchema_parse ''account:abc123'' = None"
    using identity_parsing[of "''account:abc123''" ?r] by simp
  have c: "MetricExporterIdSchema_parse ''tenant:abc123:worker-totals'' = None"
    using identity_parsing[of "''tenant:abc123:worker-totals''" ?r] by (simp add: prefix_def)
  from a b c show ?thesis by simp
qed

section \<open>Properties of the rate-limited fetch\<close>

lemma loop_done: "MAX_RETRIES < attempt \<Longrightarrow>
    rateLimitedLoop answers fr attempt tr = (Inl (JsError ''Rate limit exceeded after retries''), tr)"
  by (simp add: rateLimitedLoop.simps[of answers fr attempt tr])

lemma loop_admitted: "attempt \<le> MAX_RETRIES \<Longrightarrow> answers attempt \<Longrightarrow>
    rateLimitedLoop answers fr attempt tr = (fr, tr @ [AskLimiter, CallFetch])"
  by (simp add: rateLimitedLoop.simps[of answers fr attempt tr])

lemma loop_denied: "attempt < MAX_RETRIES \<Longrightarrow> \<not> answers attempt \<Longrightarrow>
    rateLimitedLoop answers fr attempt tr
      = rateLimitedLoop answers fr (Suc attempt) (tr @ [AskLimiter, Sleep (BASE_DELAY_MS * 2 ^ attempt)])"
  by (simp add: rateLimitedLoop.simps[of answers fr attempt tr])

lemma loop_denied_last: "attempt = MAX_RETRIES \<Longrightarrow> \<not> answers attempt \<Longrightarrow>
    rateLimitedLoop answers fr attempt tr
      = (Inl (JsError ''Rate limit exceeded after retries''), tr @ [AskLimiter])"
  by (simp add: rateLimitedLoop.simps[of answers fr attempt tr] loop_done)

lemma backoffs_Suc: "backoffs (Suc k) = backoffs k @ [AskLimiter, Sleep (BASE_DELAY_MS * 2 ^ k)]"
  by (simp add: backoffs_def)

lemma loop_denials:
  "k \<le> MAX_RETRIES \<Longrightarrow> \<forall>i<k. \<not> answers i \<Longrightarrow>
     rateLimitedLoop answers fr 0 [] = rateLimitedLoop answers fr k (backoffs k)"
proof (induction k)
  case 0
  then show ?case by (simp add: backoffs_def)
next
  case (Suc k)
  then have "rateLimitedLoop answers fr 0 [] = rateLimitedLoop answers fr k (backoffs k)" by simp
  also have "\<dots> = rateLimitedLoop answers fr (Suc k) (backoffs k @ [AskLimiter, Sleep (BASE_DELAY_MS * 2 ^ k)])"
    using Suc.prems by (intro loop_denied) simp_all
  finally show ?case by (simp add: backoffs_Suc)
qed

text \<open>
  C7.  Every attempt starts by asking the limiter.  If the first admission comes at
  attempt \<open>k \<le> 3\<close>, the wrapper has asked and slept \<open>250 * 2^i\<close> ms for each denied attempt
  \<open>i < k\<close>, asks once more, calls \<open>fetch\<close> and returns its result.  If all four attempts
  are denied it has slept 250, 500 and 1000 ms, does not sleep after the fourth denial,
  throws "Rate limit exceeded after retries" and has never called \<open>fetch\<close>.
\<close>

theorem rate_limited_fetch:
  "(k \<le> 3 \<and> (\<forall>i<k. \<not> answers i) \<and> answers k \<longrightarrow>
      rateLimitedFetch answers fetchResult = (fetchResult, backoffs k @ [AskLimiter, CallFetch]))
   \<and> ((\<forall>i\<le>3. \<not> answers i) \<longrightarrow>
      rateLimitedFetch answers fetchResult
        = (Inl (JsError ''Rate limit exceeded after retries''),
           [AskLimiter, Sleep 250, AskLimiter, Sleep 500, AskLimiter, Sleep 1000, AskLimiter]))
   \<and> backoffs 3 = [AskLimiter, Sleep 250, AskLimiter, Sleep 500, AskLimiter, Sleep 1000]
   \<and> CallFetch \<notin> set (backoffs k)"
proof -
  have admitted: "k \<le> 3 \<and> (\<forall>i<k. \<not> answers i) \<and> answers k \<longrightarrow>
      rateLimitedFetch answers fetchResult = (fetchResult, backoffs k @ [AskLimiter, CallFetch])"
  proof
    assume h: "k \<le> 3 \<and> (\<forall>i<k. \<not> answers i) \<and> answers k"
    then have k: "k \<le> MAX_RETRIES" by (simp add: MAX_RETRIES_def)
    from h have "rateLimitedLoop answers fetchResult 0 [] = rateLimitedLoop answers fetchResult k (backoffs k)"
      using k by (intro loop_denials) simp_all
    also have "\<dots> = (fetchResult, backoffs k @ [AskLimiter, CallFetch])"
      using k h by (intro loop_admitted) simp_all
    finally show "rateLimitedFetch answers fetchResult = (fetchResult, backoffs k @ [AskLimiter, CallFetch])"
      by (simp add: rateLimitedFetch_def)
  qed
  have three: "backoffs 3 = [AskLimiter, Sleep 250, AskLimiter, Sleep 500, AskLimiter, Sleep 1000]"
    by (simp add: backoffs_def BASE_DELAY_MS_def numeral_3_eq_3)
  have refused: "(\<forall>i\<le>3. \<not> answers i) \<longrightarrow>
      rateLimitedFetch answers fetchResult
        = (Inl (JsError ''Rate limit exceeded after retries''),
           [AskLimiter, Sleep 250, AskLimiter, Sleep 500, AskLimiter, Sleep 1000, AskLimiter])"
  proof
    assume h: "\<forall>i\<le>3. \<not> answers i"
    have "rateLimitedLoop answers fetchResult 0 [] = rateLimitedLoop answers fetchResult 3 (backoffs 3)"
      using h by (intro loop_denials) (simp_all add: MAX_RETRIES_def)
    also have "\<dots> = (Inl (JsError ''Rate limit exceeded after retries''), backoffs 3 @ [AskLimiter])"
      using h by (intro loop_denied_last) (simp_all add: MAX_RETRIES_def)
    finally show "rateLimitedFetch answers fetchResult
        = (Inl (JsError ''Rate limit exceeded after retries''),
           [AskLimiter, Sleep 250, AskLimiter, Sleep 500, AskLimiter, Sleep 1000, AskLimiter])"
      by (simp add: rateLimitedFetch_def three)
  qed
  have nofetch: "CallFetch \<notin> set (backoffs k)"
    by (auto simp: backoffs_def)
  from admitted refused three nofetch show ?thesis by blast
qed

theorem rate_limited_fetch_witness:
  "rateLimitedFetch (\<lambda>i. i = 2) (Inr (200::nat))
     = (Inr 200, [AskLimiter, Sleep 250, AskLimiter, Sleep 500, AskLimiter, CallFetch])
   \<and> rateLimitedFetch (\<lambda>i. False) (Inr (200::nat))
     = (Inl (JsError ''Rate limit exceeded after retries''),
        [AskLimiter, Sleep 250, AskLimiter, Sleep 500, AskLimiter, Sleep 1000, AskLimiter])"
proof -
  have two: "backoffs 2 = [AskLimiter, Sleep 250, AskLimiter, Sleep 500]"
    by (simp add: backoffs_def BASE_DELAY_MS_def numeral_2_eq_2)
  have a: "rateLimitedFetch (\<lambda>i. i = 2) (Inr (200::nat))
     = (Inr 200, [AskLimiter, Sleep 250, AskLimiter, Sleep 500, AskLimiter, CallFetch])"
    using rate_limited_fetch[of 2 "\<lambda>i. i = 2" "Inr (200::nat)"] by (simp add: two)
  have b: "rateLimitedFetch (\<lambda>i. False) (Inr (200::nat))
     = (Inl (JsError ''Rate limit exceeded after retries''),
        [AskLimiter, Sleep 250, AskLimiter, Sleep 500, AskLimiter, Sleep 1000, AskLimiter])"
    using rate_limited_fetch[of 0 "\<lambda>i. False" "Inr (200::nat)"] by simp
  from a b show ?thesis by simp
qed

section \<open>Properties of the query time window\<close>

lemma aligned_iff: "(t - t mod 60000 - d * 1000) mod 60000 = 0 \<longleftrightarrow> 60 dvd (d::int)"
proof -
  have t: "t - t mod 60000 = 60000 * (t div 60000)"
    by (simp add: minus_mod_eq_mult_div)
  have "(t - t mod 60000 - d * 1000) mod 60000 = 0 \<longleftrightarrow> 60000 dvd (60000 * (t div 60000) - d * 1000)"
    unfolding t by (simp add: dvd_eq_mod_eq_0)
  also have "\<dots> \<longleftrightarrow> 60000 dvd d * 1000"
    by (rule dvd_diff_right_iff) simp
  also have "\<dots> \<longleftrightarrow> 1000 * 60 dvd 1000 * d"
    by (simp add: mult.commute)
  also have "\<dots> \<longleftrightarrow> 60 dvd d"
    by (simp only: dvd_mult_cancel_left) simp
  finally show ?thesis .
qed

lemma wholeMinute_shift: "60 dvd (d::int) \<Longrightarrow> wholeMinute (t - d * 1000) = t - t mod 60000 - d * 1000"
proof -
  assume "60 dvd d"
  then obtain k where k: "d = 60 * k" by (auto simp: dvd_def)
  have "d * 1000 = k * 60000" by (simp add: k)
  then have "(t - d * 1000) mod 60000 = (t - k * 60000) mod 60000" by (simp only:)
  also have "\<dots> = (t + (- k) * 60000) mod 60000" by simp
  also have "\<dots> = t mod 60000" by (rule mod_mult_self1)
  finally show ?thesis by (simp add: wholeMinute_def)
qed

text \<open>
  C8 (as the code has it).  \<open>getTimeRange\<close> rounds the current time down to the whole
  minute first and subtracts afterwards: \<open>maxtime\<close> is that minute less the scrape delay
  and \<open>mintime\<close> is \<open>maxtime\<close> less the time window, so \<open>maxtime - mintime\<close> is always
  exactly the time window.  \<open>maxtime\<close> is on a whole minute exactly when the scrape
  delay is a multiple of 60 seconds, \<open>mintime\<close> exactly when delay plus window is; for
  such arguments (the defaults 300 and 60 among them) the endpoints are
  \<open>now - delay\<close> and \<open>now - delay - window\<close> rounded down to the minute.
\<close>

theorem time_range:
  "maxtime (getTimeRange nowMs (Some d) (Some w)) = wholeMinute nowMs - d * 1000
   \<and> mintime (getTimeRange nowMs (Some d) (Some w)) = wholeMinute nowMs - d * 1000 - w * 1000
   \<and> maxtime (getTimeRange nowMs (Some d) (Some w)) - mintime (getTimeRange nowMs (Some d) (Some w)) = w * 1000
   \<and> (maxtime (getTimeRange nowMs (Some d) (Some w)) mod 60000 = 0 \<longleftrightarrow> 60 dvd d)
   \<and> (mintime (getTimeRange nowMs (Some d) (Some w)) mod 60000 = 0 \<longleftrightarrow> 60 dvd (d + w))
   \<and> (60 dvd d \<longrightarrow> maxtime (getTimeRange nowMs (Some d) (Some w)) = wholeMinute (nowMs - d * 1000))
   \<and> (60 dvd d \<and> 60 dvd w \<longrightarrow>
        mintime (getTimeRange nowMs (Some d) (Some w)) = wholeMinute (nowMs - d * 1000 - w * 1000))
   \<and> getTimeRange nowMs None None = getTimeRange nowMs (Some 300) (Some 60)"
proof -
  have mx: "maxtime (getTimeRange nowMs (Some d) (Some w)) = wholeMinute nowMs - d * 1000"
    and mn: "mintime (getTimeRange nowMs (Some d) (Some w)) = wholeMinute nowMs - d * 1000 - w * 1000"
    by (simp_all add: getTimeRange_def wholeMinute_def Let_def)
  have diff: "maxtime (getTimeRange nowMs (Some d) (Some w)) - mintime (getTimeRange nowMs (Some d) (Some w)) = w * 1000"
    unfolding mx mn by simp
  have amx: "maxtime (getTimeRange nowMs (Some d) (Some w)) mod 60000 = 0 \<longleftrightarrow> 60 dvd d"
    unfolding mx wholeMinute_def by (rule aligned_iff)
  have "wholeMinute nowMs - d * 1000 - w * 1000 = nowMs - nowMs mod 60000 - (d + w) * 1000"
    by (simp add: wholeMinute_def algebra_simps)
  then have amn: "mintime (getTimeRange nowMs (Some d) (Some w)) mod 60000 = 0 \<longleftrightarrow> 60 dvd (d + w)"
    unfolding mn by (simp only: aligned_iff)
  have tmx: "60 dvd d \<longrightarrow> maxtime (getTimeRange nowMs (Some d) (Some w)) = wholeMinute (nowMs - d * 1000)"
    unfolding mx using wholeMinute_shift[of d nowMs] by (simp add: wholeMinute_def)
  have tmn: "60 dvd d \<and> 60 dvd w \<longrightarrow>
        mintime (getTimeRange nowMs (Some d) (Some w)) = wholeMinute (nowMs - d * 1000 - w * 1000)"
  proof
    assume h: "60 dvd d \<and> 60 dvd w"
    then have "60 dvd (d + w)" by simp
    from wholeMinute_shift[OF this, of nowMs]
    show "mintime (getTimeRange nowMs (Some d) (Some w)) = wholeMinute (nowMs - d * 1000 - w * 1000)"
      unfolding mn by (simp add: wholeMinute_def algebra_simps)
  qed
  have dflt: "getTimeRange nowMs None None = getTimeRange nowMs (Some 300) (Some 60)"
    by (simp add: getTimeRange_def Let_def)
  from mx mn diff amx amn tmx tmn dflt show ?thesis by blast
qed

theorem time_range_witness:
  "getTimeRange 1700000000000 (Some 300) (Some 60) = \<lparr>mintime = 1699999620000, maxtime = 1699999680000\<rparr>
   \<and> wholeMinute (1700000000000 - 300 * 1000) = 1699999680000
   \<and> wholeMinute (1700000000000 - 300 * 1000 - 60 * 1000) = 1699999620000"
  using time_range[of 1700000000000 300 60]
  by (simp add: getTimeRange_def wholeMinute_def Let_def)

text \<open>
  With a scrape delay of 90 seconds the endpoints fall on the half minute, and
  \<open>maxtime\<close> is not \<open>now - delay\<close> rounded down to the minute.
\<close>

theorem time_range_counterexample:
  "getTimeRange 1700000000000 (Some 90) (Some 60) = \<lparr>mintime = 1699999830000, maxtime = 1699999890000\<rparr>
   \<and> maxtime (getTimeRange 1700000000000 (Some 90) (Some 60)) mod 60000 = 30000
   \<and> mintime (getTimeRange 1700000000000 (Some 90) (Some 60)) mod 60000 = 30000
   \<and> wholeMinute (1700000000000 - 90 * 1000) = 1699999860000"
  by (simp add: getTimeRange_def wholeMinute_def Let_def)

section \<open>Properties of the exporter refresh\<close>

text \<open>
  C6.  When a refresh reaches the upstream fetch and the fetch throws, the state left
  behind and written to storage is the previous state with \<open>lastError\<close> set to the
  error's message: the metrics snapshot, the counter map and \<open>lastRefresh\<close> are the
  previous ones.  The last effect of the refresh is the registration of the next alarm.
  \<open>export\<close> on an initialized exporter returns the \<open>metrics\<close> field of its state and
  has no effect at all, so it makes no upstream call.
\<close>

theorem refresh_failure_keeps_snapshot:
  assumes reached: "\<not> skipsFetch config clock state"
    and throws: "fetchMetrics client state timeRange = (Inl error, calls)"
  shows "refreshWithTimeRange lc config clock random client timeRange state
           = (state\<lparr>x_lastError := Some (errorMessage error)\<rparr>,
              calls @ [StoragePut (state\<lparr>x_lastError := Some (errorMessage error)\<rparr>),
                       SetAlarm (nextAlarm config (atAlarm clock) random)])
       \<and> x_metrics (fst (refreshWithTimeRange lc config clock random client timeRange state))
           = x_metrics state
       \<and> x_counters (fst (refreshWithTimeRange lc config clock random client timeRange state))
           = x_counters state
       \<and> x_lastRefresh (fst (refreshWithTimeRange lc config clock random client timeRange state))
           = x_lastRefresh state
       \<and> MetricExporter_export (Some cached) = (Inr (x_metrics cached), [])"
proof -
  have run: "refreshWithTimeRange lc config clock random client timeRange state
           = (state\<lparr>x_lastError := Some (errorMessage error)\<rparr>,
              calls @ [StoragePut (state\<lparr>x_lastError := Some (errorMessage error)\<rparr>),
                       SetAlarm (nextAlarm config (atAlarm clock) random)])"
    using reached throws by (simp add: refreshWithTimeRange_def Let_def)
  have exp: "MetricExporter_export (Some cached) = (Inr (x_metrics cached), [])"
    by (simp add: MetricExporter_export_def)
  show ?thesis unfolding run using exp by simp
qed

theorem refresh_failure_keeps_snapshot_witness:
  "refreshWithTimeRange codeUnitCompare
     \<lparr>scrapeDelaySeconds = 300, timeWindowSeconds = 60, metricRefreshIntervalSeconds = 60,
      accountListCacheTtlSeconds = 600, zoneListCacheTtlSeconds = 1800,
      sslCertsCacheTtlSeconds = 1800, cfAccounts = None, cfZones = None,
      cfFreeTierAccounts = [], metricsDenylist = [], excludeHost = False\<rparr>
     \<lparr>atCacheCheck = 120000, atRefresh = 120000, atSslFetch = 120000, atAlarm = 120000\<rparr>
     0
     \<lparr>getAccountMetrics = (\<lambda>q a n t. Inl (JsError ''boom'')),
      getZoneMetrics = (\<lambda>q i z f t. Inr []),
      getSSLCertificateMetricsForZone = (\<lambda>z. Inr []),
      getLbWeightMetricsForZone = (\<lambda>z. Inr [])\<rparr>
     \<lparr>mintime = 0, maxtime = 60000\<rparr>
     \<lparr>x_scopeType = ScopeAccount, x_scopeId = ''a1'', x_queryName = ''worker-totals'',
      x_counters = Map.empty(''w{}'' \<mapsto> \<lparr>accumulated = 7\<rparr>),
      x_metrics = [\<lparr>m_name = ''w'', m_help = ''h'', m_type = Counter,
                    m_values = [\<lparr>v_labels = [], v_value = 7\<rparr>]\<rparr>],
      x_lastIngest = 0, x_accountId = ''a1'', x_accountName = ''A'',
      x_zones = [\<lparr>z_id = ''z1'', z_name = ''example.com'', z_status = ''active'',
                  z_plan_id = ''p'', z_plan_name = ''Pro'', z_account_id = ''a1'',
                  z_account_name = ''A''\<rparr>],
      x_firewallRules = [], x_zoneMetadata = None, x_refreshInterval = 60,
      x_lastRefresh = 60000, x_lastError = None, x_lastSslFetch = 0\<rparr>
   = (\<lparr>x_scopeType = ScopeAccount, x_scopeId = ''a1'', x_queryName = ''worker-totals'',
      x_counters = Map.empty(''w{}'' \<mapsto> \<lparr>accumulated = 7\<rparr>),
      x_metrics = [\<lparr>m_name = ''w'', m_help = ''h'', m_type = Counter,
                    m_values = [\<lparr>v_labels = [], v_value = 7\<rparr>]\<rparr>],
      x_lastIngest = 0, x_accountId = ''a1'', x_accountName = ''A'',
      x_zones = [\<lparr>z_id = ''z1'', z_name = ''example.com'', z_status = ''active'',
                  z_plan_id = ''p'', z_plan_name = ''Pro'', z_account_id = ''a1'',
                  z_account_name = ''A''\<rparr>],
      x_firewallRules = [], x_zoneMetadata = None, x_refreshInterval = 60,
      x_lastRefresh = 60000, x_lastError = Some ''boom'', x_lastSslFetch = 0\<rparr>,
      [UpstreamCall GetAccountMetrics,
       StoragePut
         \<lparr>x_scopeType = ScopeAccount, x_scopeId = ''a1'', x_queryName = ''worker-totals'',
          x_counters = Map.empty(''w{}'' \<mapsto> \<lparr>accumulated = 7\<rparr>),
          x_metrics = [\<lparr>m_name = ''w'', m_help = ''h'', m_type = Counter,
                        m_values = [\<lparr>v_labels = [], v_value = 7\<rparr>]\<rparr>],
          x_lastIngest = 0, x_accountId = ''a1'', x_accountName = ''A'',
          x_zones = [\<lparr>z_id = ''z1'', z_name = ''example.com'', z_status = ''active'',
                      z_plan_id = ''p'', z_plan_name = ''Pro'', z_account_id = ''a1'',
                      z_account_name = ''A''\<rparr>],
          x_firewallRules = [], x_zoneMetadata = None, x_refreshInterval = 60,
          x_lastRefresh = 60000, x_lastError = Some ''boom'', x_lastSslFetch = 0\<rparr>,
       SetAlarm 181000])"
proof -
  let ?cfg = "\<lparr>scrapeDelaySeconds = 300, timeWindowSeconds = 60, metricRefreshIntervalSeconds = 60,
      accountListCacheTtlSeconds = 600, zoneListCacheTtlSeconds = 1800,
      sslCertsCacheTtlSeconds = 1800, cfAccounts = None, cfZones = None,
      cfFreeTierAccounts = [], metricsDenylist = [], excludeHost = False\<rparr>"
  let ?clock = "\<lparr>atCacheCheck = 120000, atRefresh = 120000, atSslFetch = 120000, atAlarm = 120000\<rparr>"
  let ?client = "\<lparr>getAccountMetrics = (\<lambda>q a n t. Inl (JsError ''boom'')),
      getZoneMetrics = (\<lambda>q i z f t. Inr []),
      getSSLCertificateMetricsForZone = (\<lambda>z. Inr []),
      getLbWeightMetricsForZone = (\<lambda>z. Inr [])\<rparr>"
  let ?tr = "\<lparr>mintime = 0, maxtime = 60000\<rparr>"
  let ?st = "\<lparr>x_scopeType = ScopeAccount, x_scopeId = ''a1'', x_queryName = ''worker-totals'',
      x_counters = Map.empty(''w{}'' \<mapsto> \<lparr>accumulated = 7\<rparr>),
      x_metrics = [\<lparr>m_name = ''w'', m_help = ''h'', m_type = Counter,
                    m_values = [\<lparr>v_labels = [], v_value = 7\<rparr>]\<rparr>],
      x_lastIngest = 0, x_accountId = ''a1'', x_accountName = ''A'',
      x_zones = [\<lparr>z_id = ''z1'', z_name = ''example.com'', z_status = ''active'',
                  z_plan_id = ''p'', z_plan_name = ''Pro'', z_account_id = ''a1'',
                  z_account_name = ''A''\<rparr>],
      x_firewallRules = [], x_zoneMetadata = None, x_refreshInterval = 60,
      x_lastRefresh = 60000, x_lastError = None, x_lastSslFetch = 0\<rparr>"
  have reached: "\<not> skipsFetch ?cfg ?clock ?st"
    by (simp add: skipsFetch_def)
  have throws: "fetchMetrics ?client ?st ?tr = (Inl (JsError ''boom''), [UpstreamCall GetAccountMetrics])"
    by (simp add: fetchMetrics_def fetchAccountScopedMetrics_def isAccountLevelQuery_def
        ACCOUNT_LEVEL_QUERIES_def)
  have alarm: "nextAlarm ?cfg 120000 0 = 181000"
    by (simp add: nextAlarm_def Let_def)
  from refresh_failure_keeps_snapshot[OF reached throws, of codeUnitCompare 0 ?st]
  show ?thesis by (simp add: alarm)
qed

section \<open>Properties of the account coordinator\<close>

lemma refresh_effects_head:
  "\<exists>rest. snd (refresh config clock push st) = ZonesRefreshAndPush # rest"
  by (auto simp: refresh_def Let_def split: sum.splits)

text \<open>
  C5.  \<open>export\<close> on an initialized account coordinator runs \<open>refresh\<close> exactly when
  \<open>lastRefresh\<close> is 0 or the clock is more than twice the refresh interval (in
  milliseconds) past \<open>lastRefresh\<close>.  When it does, the refresh, which starts with
  \<open>refreshZonesAndPushContext\<close>, has all its effects before the first exporter is asked,
  and the exporters asked are those of the refreshed state.  When it does not, the state
  stays as it was and the only effects are the reads of the exporters' snapshots.
\<close>

theorem export_refreshes_when_stale:
  "(c_lastRefresh st = 0
      \<or> atStaleCheck clock - c_lastRefresh st > 2 * (metricRefreshIntervalSeconds config * 1000)
    \<longrightarrow> fst (snd (AccountMetricCoordinator_export config clock push exporterExport (Some st)))
          = Some (fst (refresh config clock push st))
        \<and> snd (snd (AccountMetricCoordinator_export config clock push exporterExport (Some st)))
          = snd (refresh config clock push st)
            @ map ExporterExport (exporterIds config (fst (refresh config clock push st)))
        \<and> hd (snd (refresh config clock push st)) = ZonesRefreshAndPush)
   \<and> (\<not> (c_lastRefresh st = 0
         \<or> atStaleCheck clock - c_lastRefresh st > 2 * (metricRefreshIntervalSeconds config * 1000))
    \<longrightarrow> fst (snd (AccountMetricCoordinator_export config clock push exporterExport (Some st)))
          = Some st
        \<and> snd (snd (AccountMetricCoordinator_export config clock push exporterExport (Some st)))
          = map ExporterExport (exporterIds config st))
   \<and> (ZonesRefreshAndPush
         \<in> set (snd (snd (AccountMetricCoordinator_export config clock push exporterExport (Some st))))
       \<longleftrightarrow> c_lastRefresh st = 0
         \<or> atStaleCheck clock - c_lastRefresh st > 2 * (metricRefreshIntervalSeconds config * 1000))"
proof (cases "c_lastRefresh st = 0
      \<or> atStaleCheck clock - c_lastRefresh st > 2 * (metricRefreshIntervalSeconds config * 1000)")
  case True
  then have cond: "c_lastRefresh st = 0
      \<or> atStaleCheck clock - c_lastRefresh st > metricRefreshIntervalSeconds config * 2 * 1000"
    by simp
  obtain rest where rest: "snd (refresh config clock push st) = ZonesRefreshAndPush # rest"
    using refresh_effects_head by blast
  have st': "fst (snd (AccountMetricCoordinator_export config clock push exporterExport (Some st)))
          = Some (fst (refresh config clock push st))"
    using cond by (simp add: AccountMetricCoordinator_export_def Let_def split_beta)
  have eff: "snd (snd (AccountMetricCoordinator_export config clock push exporterExport (Some st)))
          = snd (refresh config clock push st)
            @ map ExporterExport (exporterIds config (fst (refresh config clock push st)))"
    using cond by (simp add: AccountMetricCoordinator_export_def Let_def split_beta)
  have mem: "ZonesRefreshAndPush
         \<in> set (snd (snd (AccountMetricCoordinator_export config clock push exporterExport (Some st))))"
    unfolding eff rest by simp
  from True st' eff mem rest show ?thesis by simp
next
  case False
  then have cond: "\<not> (c_lastRefresh st = 0
      \<or> atStaleCheck clock - c_lastRefresh st > metricRefreshIntervalSeconds config * 2 * 1000)"
    by simp
  have st': "fst (snd (AccountMetricCoordinator_export config clock push exporterExport (Some st)))
          = Some st"
    using cond by (simp add: AccountMetricCoordinator_export_def Let_def split_beta)
  have eff: "snd (snd (AccountMetricCoordinator_export config clock push exporterExport (Some st)))
          = map ExporterExport (exporterIds config st)"
    using cond by (simp add: AccountMetricCoordinator_export_def Let_def split_beta)
  have mem: "ZonesRefreshAndPush
         \<notin> set (snd (snd (AccountMetricCoordinator_export config clock push exporterExport (Some st))))"
    unfolding eff by auto
  from False st' eff mem show ?thesis by simp
qed


theorem export_refreshes_when_stale_witness:
  "ZonesRefreshAndPush \<in> set (snd (snd (AccountMetricCoordinator_export
      \<lparr>scrapeDelaySeconds = 300, timeWindowSeconds = 60, metricRefreshIntervalSeconds = 60,
       accountListCacheTtlSeconds = 600, zoneListCacheTtlSeconds = 1800,
       sslCertsCacheTtlSeconds = 1800, cfAccounts = None, cfZones = None,
       cfFreeTierAccounts = ''a1'', metricsDenylist = [], excludeHost = False\<rparr>
      \<lparr>atStaleCheck = 1120001, atRefreshed = 1120002, atRearm = 1120003\<rparr>
      (\<lambda>s. Inr s) (\<lambda>id. Inr [])
      (Some \<lparr>c_accountId = ''a1'', c_accountName = ''A'', c_zones = [], c_totalZoneCount = 0,
             c_firewallRules = [], c_lastZoneFetch = 1000000, c_lastRefresh = 1000000\<rparr>))))
   \<and> snd (snd (AccountMetricCoordinator_export
      \<lparr>scrapeDelaySeconds = 300, timeWindowSeconds = 60, metricRefreshIntervalSeconds = 60,
       accountListCacheTtlSeconds = 600, zoneListCacheTtlSeconds = 1800,
       sslCertsCacheTtlSeconds = 1800, cfAccounts = None, cfZones = None,
       cfFreeTierAccounts = ''a1'', metricsDenylist = [], excludeHost = False\<rparr>
      \<lparr>atStaleCheck = 1120000, atRefreshed = 1120002, atRearm = 1120003\<rparr>
      (\<lambda>s. Inr s) (\<lambda>id. Inr [])
      (Some \<lparr>c_accountId = ''a1'', c_accountName = ''A'', c_zones = [], c_totalZoneCount = 0,
             c_firewallRules = [], c_lastZoneFetch = 1000000, c_lastRefresh = 1000000\<rparr>)))
     = [ExporterExport ''account:a1:worker-totals'', ExporterExport ''account:a1:logpush-account'',
        ExporterExport ''account:a1:magic-transit'']"
proof -
  let ?cfg = "\<lparr>scrapeDelaySeconds = 300, timeWindowSeconds = 60, metricRefreshIntervalSeconds = 60,
       accountListCacheTtlSeconds = 600, zoneListCacheTtlSeconds = 1800,
       sslCertsCacheTtlSeconds = 1800, cfAccounts = None, cfZones = None,
       cfFreeTierAccounts = ''a1'', metricsDenylist = [], excludeHost = False\<rparr>"
  let ?st = "\<lparr>c_accountId = ''a1'', c_accountName = ''A'', c_zones = [], c_totalZoneCount = 0,
             c_firewallRules = [], c_lastZoneFetch = 1000000, c_lastRefresh = 1000000\<rparr>"
  have ids: "exporterIds ?cfg ?st
      = [''account:a1:worker-totals'', ''account:a1:logpush-account'', ''account:a1:magic-transit'']"
    by (simp add: exporterIds_def parseCommaSeparated_def trim_def isWhiteSpace_def
        ACCOUNT_SCOPED_QUERIES_def ACCOUNT_LEVEL_QUERIES_def ZONE_LEVEL_QUERIES_def
        FREE_TIER_QUERIES_def)
  note fresh = export_refreshes_when_stale[where st = ?st and config = ?cfg
        and clock = "\<lparr>atStaleCheck = 1120000, atRefreshed = 1120002, atRearm = 1120003\<rparr>"
        and push = "\<lambda>s. Inr s" and exporterExport = "\<lambda>id. Inr []"]
  note stale = export_refreshes_when_stale[where st = ?st and config = ?cfg
        and clock = "\<lparr>atStaleCheck = 1120001, atRefreshed = 1120002, atRearm = 1120003\<rparr>"
        and push = "\<lambda>s. Inr s" and exporterExport = "\<lambda>id. Inr []"]
  have a: "ZonesRefreshAndPush \<in> set (snd (snd (AccountMetricCoordinator_export ?cfg
      \<lparr>atStaleCheck = 1120001, atRefreshed = 1120002, atRearm = 1120003\<rparr>
      (\<lambda>s. Inr s) (\<lambda>id. Inr []) (Some ?st))))"
    using stale[THEN conjunct2, THEN conjunct2] by simp
  have b: "snd (snd (AccountMetricCoordinator_export ?cfg
      \<lparr>atStaleCheck = 1120000, atRefreshed = 1120002, atRearm = 1120003\<rparr>
      (\<lambda>s. Inr s) (\<lambda>id. Inr []) (Some ?st)))
     = [ExporterExport ''account:a1:worker-totals'', ExporterExport ''account:a1:logpush-account'',
        ExporterExport ''account:a1:magic-transit'']"
    using fresh[THEN conjunct2, THEN conjunct1] by (simp add: ids)
  from a b show ?thesis by simp
qed

section \<open>Properties of the fleet coordinator\<close>

subsection \<open>Maps in insertion order\<close>

lemma mapGet_mapSet: "mapGet (mapSet k v al) k' = (if k' = k then Some v else mapGet al k')"
  by (induction al) auto

lemma mapGet_Some_mem: "mapGet al k = Some v \<Longrightarrow> (k, v) \<in> set al"
  by (induction al) (auto split: if_splits)

subsection \<open>The grouping loop\<close>

lemma groupStep_get:
  "mapGet (groupStep d e g m) n =
     (if m_name m \<in> d \<or> m_name m \<noteq> n then mapGet g n
      else (case mapGet g n of
              Some existing \<Rightarrow> Some (existing\<lparr>m_values := m_values existing @ keptRows e m\<rparr>)
            | None \<Rightarrow> Some (m\<lparr>m_values := keptRows e m\<rparr>)))"
  by (auto simp: groupStep_def Let_def mapGet_mapSet keptRows_def split: option.splits)

lemma foldl_groupStep_existing:
  "mapGet g n = Some existing \<Longrightarrow> n \<notin> d \<Longrightarrow>
   mapGet (foldl (groupStep d e) g ms) n
     = Some (existing\<lparr>m_values := m_values existing
               @ concat (map (keptRows e) (filter (\<lambda>m. m_name m = n) ms))\<rparr>)"
proof (induction ms arbitrary: g existing)
  case Nil
  then show ?case by simp
next
  case (Cons m ms)
  show ?case
  proof (cases "m_name m = n")
    case True
    let ?ex = "existing\<lparr>m_values := m_values existing @ keptRows e m\<rparr>"
    have "mapGet (groupStep d e g m) n = Some ?ex"
      using Cons.prems True by (simp add: groupStep_get)
    from Cons.IH[OF this Cons.prems(2)] True show ?thesis by simp
  next
    case False
    have "mapGet (groupStep d e g m) n = Some existing"
      using Cons.prems False by (simp add: groupStep_get)
    from Cons.IH[OF this Cons.prems(2)] False show ?thesis by simp
  qed
qed

lemma foldl_groupStep_new:
  "mapGet g n = None \<Longrightarrow> n \<notin> d \<Longrightarrow> filter (\<lambda>m. m_name m = n) ms = first # others \<Longrightarrow>
   mapGet (foldl (groupStep d e) g ms) n
     = Some (first\<lparr>m_values := concat (map (keptRows e) (first # others))\<rparr>)"
proof (induction ms arbitrary: g)
  case Nil
  then show ?case by simp
next
  case (Cons m ms)
  show ?case
  proof (cases "m_name m = n")
    case True
    with Cons.prems(3) have m: "m = first" and rest: "filter (\<lambda>m. m_name m = n) ms = others" by simp_all
    have "mapGet (groupStep d e g m) n = Some (m\<lparr>m_values := keptRows e m\<rparr>)"
      using Cons.prems True by (simp add: groupStep_get)
    from foldl_groupStep_existing[OF this Cons.prems(2), of e ms] m rest
    show ?thesis by simp
  next
    case False
    have g': "mapGet (groupStep d e g m) n = None"
      using Cons.prems False by (simp add: groupStep_get)
    from Cons.prems(3) False have "filter (\<lambda>m. m_name m = n) ms = first # others" by simp
    from Cons.IH[OF g' Cons.prems(2) this] show ?thesis by simp
  qed
qed

lemma groupMetrics_get:
  assumes "n \<notin> optSet options denylist"
    and "filter (\<lambda>m. m_name m = n) metrics = first # others"
  shows "mapGet (groupMetrics metrics options) n
     = Some (first\<lparr>m_values := concat (map (keptRows (optSet options excludeLabels)) (first # others))\<rparr>)"
  unfolding groupMetrics_def
  by (rule foldl_groupStep_new[OF _ assms]) simp

subsection \<open>The aggregation loop\<close>

lemma aggregateStep_get:
  "mapGet (aggregateStep lc ty acc r) s =
     (if labelSignature lc (v_labels r) \<noteq> s then mapGet acc s
      else (case mapGet acc s of
              Some existing \<Rightarrow>
                Some (if ty = Counter then existing\<lparr>v_value := v_value existing + v_value r\<rparr>
                      else existing\<lparr>v_value := max (v_value existing) (v_value r)\<rparr>)
            | None \<Rightarrow> Some \<lparr>v_labels = v_labels r, v_value = v_value r\<rparr>))"
  by (auto simp: aggregateStep_def Let_def mapGet_mapSet split: option.splits)

lemma foldl_aggregate_existing:
  "mapGet acc s = Some e0 \<Longrightarrow>
   \<exists>e. mapGet (foldl (aggregateStep lc ty) acc vs) s = Some e \<and> v_labels e = v_labels e0"
proof (induction vs arbitrary: acc e0)
  case Nil
  then show ?case by simp
next
  case (Cons r vs)
  have "\<exists>e1. mapGet (aggregateStep lc ty acc r) s = Some e1 \<and> v_labels e1 = v_labels e0"
    using Cons.prems by (simp add: aggregateStep_get)
  then obtain e1 where e1: "mapGet (aggregateStep lc ty acc r) s = Some e1" "v_labels e1 = v_labels e0"
    by blast
  from Cons.IH[OF e1(1)] e1(2) show ?case by simp
qed

lemma foldl_aggregate_new:
  "mapGet acc s = None \<Longrightarrow> find (\<lambda>r. labelSignature lc (v_labels r) = s) vs = Some r0 \<Longrightarrow>
   \<exists>e. mapGet (foldl (aggregateStep lc ty) acc vs) s = Some e \<and> v_labels e = v_labels r0"
proof (induction vs arbitrary: acc)
  case Nil
  then show ?case by simp
next
  case (Cons r vs)
  show ?case
  proof (cases "labelSignature lc (v_labels r) = s")
    case True
    with Cons.prems(2) have r: "r = r0" by simp
    have "mapGet (aggregateStep lc ty acc r) s = Some \<lparr>v_labels = v_labels r, v_value = v_value r\<rparr>"
      using Cons.prems(1) True by (simp add: aggregateStep_get)
    from foldl_aggregate_existing[OF this, of lc ty vs] r show ?thesis by simp
  next
    case False
    have acc': "mapGet (aggregateStep lc ty acc r) s = None"
      using Cons.prems(1) False by (simp add: aggregateStep_get)
    from Cons.prems(2) False have "find (\<lambda>r. labelSignature lc (v_labels r) = s) vs = Some r0" by simp
    from Cons.IH[OF acc' this] show ?thesis by simp
  qed
qed

text \<open>
  Every row is represented in the aggregate by a row that carries the labels of the first
  row of its signature.
\<close>

lemma aggregate_first:
  assumes "find (\<lambda>r. labelSignature lc (v_labels r) = s) vs = Some r0"
  shows "\<exists>e \<in> set (aggregateByLabels lc vs ty). v_labels e = v_labels r0"
proof -
  from foldl_aggregate_new[OF _ assms, of "[]" ty]
  obtain e where e: "mapGet (foldl (aggregateStep lc ty) [] vs) s = Some e" "v_labels e = v_labels r0"
    by auto
  from mapGet_Some_mem[OF e(1)] have "e \<in> set (aggregateByLabels lc vs ty)"
    by (force simp: aggregateByLabels_def)
  with e(2) show ?thesis by blast
qed

lemma find_signature:
  "r \<in> set vs \<Longrightarrow>
   \<exists>r0 \<in> set vs. find (\<lambda>x. labelSignature lc (v_labels x) = labelSignature lc (v_labels r)) vs = Some r0
      \<and> labelSignature lc (v_labels r0) = labelSignature lc (v_labels r)"
proof (induction vs)
  case Nil
  then show ?case by simp
next
  case (Cons x vs)
  then show ?case by (cases "labelSignature lc (v_labels x) = labelSignature lc (v_labels r)") auto
qed

lemma aggregate_covers:
  assumes "r \<in> set vs"
  shows "\<exists>e \<in> set (aggregateByLabels lc vs ty).
           labelSignature lc (v_labels e) = labelSignature lc (v_labels r)"
proof -
  from find_signature[OF assms, of lc] obtain r0 where
    r0: "find (\<lambda>x. labelSignature lc (v_labels x) = labelSignature lc (v_labels r)) vs = Some r0"
        "labelSignature lc (v_labels r0) = labelSignature lc (v_labels r)" by blast
  from aggregate_first[OF r0(1), of ty] obtain e where
    e: "e \<in> set (aggregateByLabels lc vs ty)" "v_labels e = v_labels r0" by blast
  from e(2) r0(2) have "labelSignature lc (v_labels e) = labelSignature lc (v_labels r)" by simp
  with e(1) show ?thesis by blast
qed

subsection \<open>From a row to its line\<close>

lemma groupLines_subset:
  "(n, g) \<in> set (groupMetrics metrics options) \<Longrightarrow>
   set (groupLines lc numToString (n, g)) \<subseteq> set (serializeLines lc numToString metrics options)"
  by (auto simp: serializeLines_def)

lemma group_lines:
  assumes "mapGet (groupMetrics metrics options) n = Some g"
  shows "(''# TYPE '' @ n @ '' '' @ typeName (m_type g)) \<in> set (serializeLines lc numToString metrics options)"
    and "e \<in> set (aggregateByLabels lc (m_values g) (m_type g)) \<Longrightarrow>
         valueLine numToString n e \<in> set (serializeLines lc numToString metrics options)"
proof -
  from mapGet_Some_mem[OF assms] have mem: "(n, g) \<in> set (groupMetrics metrics options)" .
  show "(''# TYPE '' @ n @ '' '' @ typeName (m_type g)) \<in> set (serializeLines lc numToString metrics options)"
    using groupLines_subset[OF mem, of lc numToString] by (auto simp: groupLines_def Let_def)
  show "e \<in> set (aggregateByLabels lc (m_values g) (m_type g)) \<Longrightarrow>
         valueLine numToString n e \<in> set (serializeLines lc numToString metrics options)"
    using groupLines_subset[OF mem, of lc numToString] by (auto simp: groupLines_def Let_def)
qed

lemma filter_name_Cons:
  "m \<in> set metrics \<Longrightarrow> \<exists>first others. filter (\<lambda>x. m_name x = m_name m) metrics = first # others"
  by (cases "filter (\<lambda>x. m_name x = m_name m) metrics") (auto simp: filter_empty_conv)

text \<open>
  Every row of every metric that is not denied has a value line under the metric's name
  whose labels have the signature of the row's labels after exclusion.
\<close>

lemma serialize_row_line:
  assumes m: "m \<in> set metrics"
    and allowed: "m_name m \<notin> optSet options denylist"
    and v: "v \<in> set (keptRows (optSet options excludeLabels) m)"
  shows "\<exists>e. valueLine numToString (m_name m) e \<in> set (serializeLines lc numToString metrics options)
           \<and> labelSignature lc (v_labels e) = labelSignature lc (v_labels v)"
proof -
  from filter_name_Cons[OF m] obtain first others where
    f: "filter (\<lambda>x. m_name x = m_name m) metrics = first # others" by blast
  let ?g = "first\<lparr>m_values := concat (map (keptRows (optSet options excludeLabels)) (first # others))\<rparr>"
  have g: "mapGet (groupMetrics metrics options) (m_name m) = Some ?g"
    by (rule groupMetrics_get[OF allowed f])
  have "m \<in> set (filter (\<lambda>x. m_name x = m_name m) metrics)" using m by simp
  then have "m \<in> set (first # others)" unfolding f .
  with v have "v \<in> set (m_values ?g)" by auto
  from aggregate_covers[OF this, of lc "m_type ?g"] obtain e where
    e: "e \<in> set (aggregateByLabels lc (m_values ?g) (m_type ?g))"
       "labelSignature lc (v_labels e) = labelSignature lc (v_labels v)" by blast
  from group_lines(2)[OF g e(1)] e(2) show ?thesis by blast
qed

lemma find_append_first:
  "r \<in> set xs \<Longrightarrow> P r \<Longrightarrow> \<exists>r0 \<in> set xs. find P (xs @ ys) = Some r0 \<and> P r0"
proof (induction xs)
  case Nil
  then show ?case by simp
next
  case (Cons x xs)
  then show ?case by (cases "P x") auto
qed

text \<open>
  A row of the first metric of a name keeps its labels in the output when no other row
  of that metric shares its signature with different labels.
\<close>

lemma serialize_first_metric_row:
  assumes allowed: "n \<notin> optSet options denylist"
    and f: "filter (\<lambda>x. m_name x = n) metrics = first # others"
    and r: "r \<in> set (keptRows (optSet options excludeLabels) first)"
    and inj: "\<And>r'. r' \<in> set (keptRows (optSet options excludeLabels) first) \<Longrightarrow>
                 labelSignature lc (v_labels r') = labelSignature lc (v_labels r) \<Longrightarrow>
                 v_labels r' = v_labels r"
  shows "(''# TYPE '' @ n @ '' '' @ typeName (m_type first)) \<in> set (serializeLines lc numToString metrics options)
       \<and> (\<exists>e. valueLine numToString n e \<in> set (serializeLines lc numToString metrics options)
              \<and> v_labels e = v_labels r)"
proof -
  let ?ex = "optSet options excludeLabels"
  let ?g = "first\<lparr>m_values := concat (map (keptRows ?ex) (first # others))\<rparr>"
  have g: "mapGet (groupMetrics metrics options) n = Some ?g"
    by (rule groupMetrics_get[OF allowed f])
  have vals: "m_values ?g = keptRows ?ex first @ concat (map (keptRows ?ex) others)" by simp
  from find_append_first[of r "keptRows ?ex first"
      "\<lambda>x. labelSignature lc (v_labels x) = labelSignature lc (v_labels r)"
      "concat (map (keptRows ?ex) others)"] r
  obtain r0 where r0: "r0 \<in> set (keptRows ?ex first)"
      "find (\<lambda>x. labelSignature lc (v_labels x) = labelSignature lc (v_labels r)) (m_values ?g) = Some r0"
      "labelSignature lc (v_labels r0) = labelSignature lc (v_labels r)"
    unfolding vals by blast
  from inj[OF r0(1) r0(3)] have same: "v_labels r0 = v_labels r" .
  from aggregate_first[OF r0(2), of "m_type ?g"] obtain e where
    e: "e \<in> set (aggregateByLabels lc (m_values ?g) (m_type ?g))" "v_labels e = v_labels r0" by blast
  have ty: "m_type ?g = m_type first" by simp
  from group_lines(1)[OF g, of lc numToString] group_lines(2)[OF g e(1), of numToString] e(2) same ty
  show ?thesis by auto
qed

subsection \<open>The error tally\<close>

lemma bumpCode_same: "\<exists>n. (code, n) \<in> set (bumpCode code es)"
proof (induction es)
  case Nil
  then show ?case by simp
next
  case (Cons p es)
  obtain c n where p: "p = (c, n)" by (cases p)
  from Cons show ?case unfolding p by (cases "c = code") auto
qed

lemma bumpCode_keeps: "(c, n) \<in> set es \<Longrightarrow> \<exists>n'. (c, n') \<in> set (bumpCode code es)"
proof (induction es)
  case Nil
  then show ?case by simp
next
  case (Cons p es)
  obtain c0 n0 where p: "p = (c0, n0)" by (cases p)
  from Cons show ?case unfolding p by (cases "c0 = code") auto
qed

lemma bumpCode_codes: "fst ` set (bumpCode code es) = insert code (fst ` set es)"
proof (induction es)
  case Nil
  then show ?case by simp
next
  case (Cons p es)
  obtain c0 n0 where p: "p = (c0, n0)" by (cases p)
  from Cons show ?case unfolding p by (cases "c0 = code") auto
qed

lemma recordError_tallied: "tallied (recordError accountId code t) accountId code"
  using bumpCode_same[of code]
  by (auto simp: tallied_def recordError_def Let_def mapGet_mapSet)

lemma recordError_keeps: "tallied t a c \<Longrightarrow> tallied (recordError accountId code t) a c"
proof -
  assume "tallied t a c"
  then obtain es n where es: "mapGet t a = Some es" "(c, n) \<in> set es" by (auto simp: tallied_def)
  show ?thesis
  proof (cases "a = accountId")
    case True
    from bumpCode_keeps[OF es(2), of code] obtain n' where "(c, n') \<in> set (bumpCode code es)" by blast
    with True es(1) show ?thesis
      by (auto simp: tallied_def recordError_def Let_def mapGet_mapSet)
  next
    case False
    with es show ?thesis
      by (auto simp: tallied_def recordError_def Let_def mapGet_mapSet)
  qed
qed

lemma tallyStep_keeps: "tallied t a c \<Longrightarrow> tallied (tallyStep accts outcome t j) a c"
  by (auto simp: tallyStep_def recordError_keeps split: sum.splits)

lemma foldl_tally_keeps: "tallied t a c \<Longrightarrow> tallied (foldl (tallyStep accts outcome) t js) a c"
  by (induction js arbitrary: t) (simp_all add: tallyStep_keeps)

lemma foldl_tally_records:
  "i \<in> set js \<Longrightarrow> outcome i = Inl err \<Longrightarrow>
   tallied (foldl (tallyStep accts outcome) t js) (a_id (accts ! i)) (codeString (e_code (extractErrorInfo err)))"
proof (induction js arbitrary: t)
  case Nil
  then show ?case by simp
next
  case (Cons j js)
  show ?case
  proof (cases "j = i")
    case True
    have "tallied (tallyStep accts outcome t j) (a_id (accts ! i)) (codeString (e_code (extractErrorInfo err)))"
      using True Cons.prems(2) by (simp add: tallyStep_def recordError_tallied)
    then show ?thesis by (simp add: foldl_tally_keeps)
  next
    case False
    with Cons show ?thesis by simp
  qed
qed

lemma tallied_row:
  "tallied t a c \<Longrightarrow>
   \<exists>n. \<lparr>v_labels = [(''account_id'', a), (''error_code'', c)], v_value = n\<rparr> \<in> set (errorRows t)"
proof -
  assume "tallied t a c"
  then obtain es n where es: "mapGet t a = Some es" "(c, n) \<in> set es" by (auto simp: tallied_def)
  from mapGet_Some_mem[OF es(1)] have "(a, es) \<in> set t" .
  with es(2) have "\<lparr>v_labels = [(''account_id'', a), (''error_code'', c)], v_value = n\<rparr> \<in> set (errorRows t)"
    by (force simp: errorRows_def)
  then show ?thesis by blast
qed

lemma tallied_nonempty: "tallied t a c \<Longrightarrow> length t > 0"
  by (cases t) (auto simp: tallied_def)

lemma mapSet_mem: "(k', v') \<in> set (mapSet k v al) \<Longrightarrow> (k' = k \<and> v' = v) \<or> (k', v') \<in> set al"
  by (induction al) (auto split: if_splits)

lemma recordError_codesKnown:
  assumes "codesKnown t"
  shows "codesKnown (recordError accountId (codeString ec) t)"
  unfolding codesKnown_def
proof (intro ballI, clarify)
  fix a es c n
  assume mem: "(a, es) \<in> set (recordError accountId (codeString ec) t)" and c: "(c, n) \<in> set es"
  define old where "old = (case mapGet t accountId of None \<Rightarrow> [] | Some es \<Rightarrow> es)"
  have old_known: "c' \<in> range codeString" if "(c', n') \<in> set old" for c' n'
  proof (cases "mapGet t accountId")
    case None
    with that show ?thesis by (simp add: old_def)
  next
    case (Some found)
    with that have "(c', n') \<in> set found" by (simp add: old_def)
    moreover from mapGet_Some_mem[OF Some] have "(accountId, found) \<in> set t" .
    ultimately show ?thesis using assms unfolding codesKnown_def by fast
  qed
  from mem have "(a = accountId \<and> es = bumpCode (codeString ec) old) \<or> (a, es) \<in> set t"
    unfolding recordError_def Let_def old_def by (rule mapSet_mem)
  then show "c \<in> range codeString"
  proof
    assume new: "a = accountId \<and> es = bumpCode (codeString ec) old"
    from c have "c \<in> fst ` set es" by force
    with new have "c = codeString ec \<or> c \<in> fst ` set old" by (simp add: bumpCode_codes)
    then show ?thesis
    proof
      assume "c = codeString ec" then show ?thesis by simp
    next
      assume "c \<in> fst ` set old"
      then obtain n' where "(c, n') \<in> set old" by auto
      then show ?thesis by (rule old_known)
    qed
  next
    assume "(a, es) \<in> set t"
    with c assms show ?thesis unfolding codesKnown_def by fast
  qed
qed

lemma tallyStep_codesKnown: "codesKnown t \<Longrightarrow> codesKnown (tallyStep accts outcome t j)"
  by (auto simp: tallyStep_def recordError_codesKnown split: sum.splits)

lemma foldl_tally_codesKnown: "codesKnown t \<Longrightarrow> codesKnown (foldl (tallyStep accts outcome) t js)"
  by (induction js arbitrary: t) (simp_all add: tallyStep_codesKnown)

lemma tallyErrors_codesKnown: "codesKnown (tallyErrors accts outcome order)"
  unfolding tallyErrors_def by (rule foldl_tally_codesKnown) (simp add: codesKnown_def)

lemma errorRows_shape:
  "codesKnown t \<Longrightarrow> r \<in> set (errorRows t) \<Longrightarrow>
   \<exists>a ec. v_labels r = [(''account_id'', a), (''error_code'', codeString ec)]"
  unfolding codesKnown_def errorRows_def by fastforce

subsection \<open>Signatures of the error rows\<close>

lemma codeString_no_sep: "CHR 0x01 \<notin> set (codeString ec)"
  by (cases ec) simp_all

lemma split_at_first:
  assumes "xs @ c # ys = xs' @ c # ys'" "c \<notin> set xs" "c \<notin> set xs'"
  shows "xs = xs' \<and> ys = ys'"
  using assms
proof (induction xs arbitrary: xs')
  case Nil
  then show ?case by (cases xs') auto
next
  case (Cons x xs)
  then show ?case by (cases xs') auto
qed

lemma split_at_last:
  assumes "xs @ c # ys = xs' @ c # ys'" "c \<notin> set ys" "c \<notin> set ys'"
  shows "xs = xs' \<and> ys = ys'"
proof -
  from assms(1) have "rev (xs @ c # ys) = rev (xs' @ c # ys')" by simp
  then have "rev ys @ c # rev xs = rev ys' @ c # rev xs'" by simp
  moreover have "c \<notin> set (rev ys)" "c \<notin> set (rev ys')" using assms(2,3) by simp_all
  ultimately have "rev ys = rev ys' \<and> rev xs = rev xs'"
    by (rule split_at_first)
  then show ?thesis by simp
qed

lemma errorSignature:
  "labelSignature lc [(''account_id'', a), (''error_code'', c)]
     = (if lc ''account_id'' ''error_code'' \<le> 0
        then (''account_id'' @ [CHR 0x00] @ a) @ CHR 0x01 # (''error_code'' @ [CHR 0x00] @ c)
        else (''error_code'' @ [CHR 0x00] @ c) @ CHR 0x01 # (''account_id'' @ [CHR 0x00] @ a))"
  by (simp add: labelSignature_def sort_entries_def)

lemma errorSignature_inj:
  assumes "labelSignature lc [(''account_id'', a), (''error_code'', codeString ec)]
         = labelSignature lc [(''account_id'', a'), (''error_code'', codeString ec')]"
  shows "a = a' \<and> codeString ec = codeString ec'"
proof (cases "lc ''account_id'' ''error_code'' \<le> 0")
  case True
  with assms have eq: "(''account_id'' @ [CHR 0x00] @ a) @ CHR 0x01 # (''error_code'' @ [CHR 0x00] @ codeString ec)
      = (''account_id'' @ [CHR 0x00] @ a') @ CHR 0x01 # (''error_code'' @ [CHR 0x00] @ codeString ec')"
    by (simp only: errorSignature if_True)
  have "CHR 0x01 \<notin> set (''error_code'' @ [CHR 0x00] @ codeString ec)"
       "CHR 0x01 \<notin> set (''error_code'' @ [CHR 0x00] @ codeString ec')"
    using codeString_no_sep by simp_all
  from split_at_last[OF eq this] show ?thesis by simp
next
  case False
  with assms have eq: "(''error_code'' @ [CHR 0x00] @ codeString ec) @ CHR 0x01 # (''account_id'' @ [CHR 0x00] @ a)
      = (''error_code'' @ [CHR 0x00] @ codeString ec') @ CHR 0x01 # (''account_id'' @ [CHR 0x00] @ a')"
    by (simp only: errorSignature if_False)
  have "CHR 0x01 \<notin> set (''error_code'' @ [CHR 0x00] @ codeString ec)"
       "CHR 0x01 \<notin> set (''error_code'' @ [CHR 0x00] @ codeString ec')"
    using codeString_no_sep by simp_all
  from split_at_first[OF eq this] show ?thesis by simp
qed

lemma errorRows_unfiltered:
  "map (\<lambda>v. v\<lparr>v_labels := filterLabels (v_labels v) {''host''}\<rparr>) (errorRows t) = errorRows t"
proof -
  have "\<And>r. r \<in> set (errorRows t) \<Longrightarrow> r\<lparr>v_labels := filterLabels (v_labels r) {''host''}\<rparr> = r"
    by (auto simp: errorRows_def filterLabels_def)
  then show ?thesis by (simp add: map_idI)
qed

lemma keptRows_errors:
  "keptRows (optSet (fleetOptions config) excludeLabels)
     \<lparr>m_name = n, m_help = h, m_type = ty, m_values = errorRows t\<rparr> = errorRows t"
  by (simp add: keptRows_def fleetOptions_def optSet_def errorRows_unfiltered)

lemma fleet_errors_first:
  assumes "length (tallyErrors accts outcome order) > 0"
  shows "\<exists>others. filter (\<lambda>x. m_name x = ''cloudflare_exporter_errors_total'') (fleetMetrics accts outcome order)
     = \<lparr>m_name = ''cloudflare_exporter_errors_total'',
        m_help = ''Total errors during metric collection by account and error code'',
        m_type = Counter, m_values = errorRows (tallyErrors accts outcome order)\<rparr> # others"
  using assms by (simp add: fleetMetrics_def buildExporterInfoMetrics_def Let_def)

subsection \<open>The fan-out\<close>

lemma fanOut_nth: "j < length accts \<Longrightarrow> fanOutResults accts outcome ! j = settled (outcome j)"
  by (simp add: fanOutResults_def)

lemma fanOut_metrics:
  assumes "j < length accts" "outcome j = Inr r"
  shows "set (r_metrics r) \<subseteq> set (fleetMetrics accts outcome order)"
proof -
  have "settled (outcome j) \<in> set (fanOutResults accts outcome)"
    using assms(1) by (auto simp: fanOutResults_def)
  with assms(2) have "r \<in> set (fanOutResults accts outcome)" by (simp add: settled_def)
  then show ?thesis by (auto simp: fleetMetrics_def Let_def)
qed

lemma fleetOptions_sets:
  "optSet (fleetOptions config) denylist = parseCommaSeparated (Some (metricsDenylist config))"
  "optSet (fleetOptions config) excludeLabels = (if excludeHost config then {''host''} else {})"
  by (simp_all add: fleetOptions_def optSet_def)

lemma export_text:
  assumes "refreshAccountsIfStale config nowCheck nowFetched getAccounts state = Inr (accts, state')"
    and "accts \<noteq> []"
  shows "MetricCoordinator_export lc numToString config nowCheck nowFetched getAccounts outcome order (Some state)
     = (Inr (join [newline] (serializeLines lc numToString (fleetMetrics accts outcome order)
                              (fleetOptions config))), Some state')"
  using assms by (simp add: MetricCoordinator_export_def serializeToPrometheus_def)

lemma error_sample_line:
  assumes order: "i \<in> set order" and i: "i < length accts" and fails: "outcome i = Inl err"
    and allowed: "''cloudflare_exporter_errors_total'' \<notin> parseCommaSeparated (Some (metricsDenylist config))"
  shows "''# TYPE cloudflare_exporter_errors_total counter''
           \<in> set (serializeLines lc numToString (fleetMetrics accts outcome order) (fleetOptions config))
       \<and> (\<exists>x. valueLine numToString ''cloudflare_exporter_errors_total''
                 \<lparr>v_labels = [(''account_id'', a_id (accts ! i)),
                              (''error_code'', codeString (e_code (extractErrorInfo err)))],
                  v_value = x\<rparr>
               \<in> set (serializeLines lc numToString (fleetMetrics accts outcome order) (fleetOptions config)))"
proof -
  let ?t = "tallyErrors accts outcome order"
  let ?N = "''cloudflare_exporter_errors_total''"
  let ?first = "\<lparr>m_name = ?N,
        m_help = ''Total errors during metric collection by account and error code'',
        m_type = Counter, m_values = errorRows ?t\<rparr>"
  let ?A = "a_id (accts ! i)" and ?C = "codeString (e_code (extractErrorInfo err))"
  from order i have "i \<in> set (filter (\<lambda>i. i < length accts) order)" by simp
  then have tl: "tallied ?t ?A ?C"
    unfolding tallyErrors_def using fails by (rule foldl_tally_records)
  from tallied_row[OF tl] obtain n where
    row: "\<lparr>v_labels = [(''account_id'', ?A), (''error_code'', ?C)], v_value = n\<rparr> \<in> set (errorRows ?t)"
    by blast
  from fleet_errors_first[OF tallied_nonempty[OF tl]] obtain others where
    f: "filter (\<lambda>x. m_name x = ?N) (fleetMetrics accts outcome order) = ?first # others" by blast
  have allowed': "?N \<notin> optSet (fleetOptions config) denylist"
    using allowed by (simp add: fleetOptions_sets)
  have kept: "keptRows (optSet (fleetOptions config) excludeLabels) ?first = errorRows ?t"
    by (rule keptRows_errors)
  let ?r = "\<lparr>v_labels = [(''account_id'', ?A), (''error_code'', ?C)], v_value = n\<rparr>"
  have r: "?r \<in> set (keptRows (optSet (fleetOptions config) excludeLabels) ?first)"
    unfolding kept by (rule row)
  have inj: "v_labels r' = v_labels ?r"
    if "r' \<in> set (keptRows (optSet (fleetOptions config) excludeLabels) ?first)"
      and "labelSignature lc (v_labels r') = labelSignature lc (v_labels ?r)" for r'
  proof -
    from that(1) have "r' \<in> set (errorRows ?t)" unfolding kept .
    from errorRows_shape[OF tallyErrors_codesKnown this] obtain a' ec' where
      s: "v_labels r' = [(''account_id'', a'), (''error_code'', codeString ec')]" by blast
    from that(2) have "labelSignature lc [(''account_id'', a'), (''error_code'', codeString ec')]
        = labelSignature lc [(''account_id'', ?A), (''error_code'', codeString (e_code (extractErrorInfo err)))]"
      unfolding s by simp
    from errorSignature_inj[OF this] show ?thesis unfolding s by simp
  qed
  from serialize_first_metric_row[OF allowed' f r inj, of lc numToString]
  obtain e where ty: "(''# TYPE '' @ ?N @ '' '' @ typeName (m_type ?first))
        \<in> set (serializeLines lc numToString (fleetMetrics accts outcome order) (fleetOptions config))"
    and e: "valueLine numToString ?N e
        \<in> set (serializeLines lc numToString (fleetMetrics accts outcome order) (fleetOptions config))"
       "v_labels e = v_labels ?r"
    by blast
  have "e = \<lparr>v_labels = [(''account_id'', ?A), (''error_code'', ?C)], v_value = v_value e\<rparr>"
    using e(2) by simp
  with e(1) have "\<exists>x. valueLine numToString ?N
        \<lparr>v_labels = [(''account_id'', ?A), (''error_code'', ?C)], v_value = x\<rparr>
        \<in> set (serializeLines lc numToString (fleetMetrics accts outcome order) (fleetOptions config))"
    by metis
  moreover from ty have "''# TYPE cloudflare_exporter_errors_total counter''
        \<in> set (serializeLines lc numToString (fleetMetrics accts outcome order) (fleetOptions config))"
    by (simp add: typeName_def)
  ultimately show ?thesis by blast
qed

text \<open>
  C3 (as the code has it).  Let the account list be known and let the export of account
  \<open>i\<close> reject.  Then \<open>export\<close> still returns text, the serialization of the fleet metrics;
  the result taken for account \<open>i\<close> is the zero result; every account whose export
  succeeded keeps its result, and its metrics are among the metrics handed to the
  serializer; every row of such a metric whose name is not on the denylist has a value
  line under the metric's name whose labels have the signature of the row's labels after
  label exclusion (rows of one signature share a line); and, unless
  \<open>cloudflare_exporter_errors_total\<close> is on the denylist, the output has the counter header
  of that name and a sample with exactly the labels \<open>account_id\<close> = the id of account \<open>i\<close>
  and \<open>error_code\<close> = the code extracted from the error.  This holds in whatever order
  the calls settle.
\<close>

theorem partial_failure_isolation:
  assumes refreshed:
      "refreshAccountsIfStale config nowCheck nowFetched getAccounts state = Inr (accts, state')"
    and perm: "mset order = mset [0..<length accts]"
    and i: "i < length accts"
    and fails: "outcome i = Inl err"
  shows "MetricCoordinator_export lc numToString config nowCheck nowFetched getAccounts outcome order
             (Some state)
           = (Inr (join [newline] (serializeLines lc numToString (fleetMetrics accts outcome order)
                                    (fleetOptions config))), Some state')
       \<and> fanOutResults accts outcome ! i = zeroExport
       \<and> (\<forall>j r. j < length accts \<and> outcome j = Inr r \<longrightarrow>
              fanOutResults accts outcome ! j = r
            \<and> set (r_metrics r) \<subseteq> set (fleetMetrics accts outcome order))
       \<and> (\<forall>j r m v. j < length accts \<and> outcome j = Inr r \<and> m \<in> set (r_metrics r)
              \<and> m_name m \<notin> parseCommaSeparated (Some (metricsDenylist config))
              \<and> v \<in> set (keptRows (if excludeHost config then {''host''} else {}) m) \<longrightarrow>
              (\<exists>e. valueLine numToString (m_name m) e
                      \<in> set (serializeLines lc numToString (fleetMetrics accts outcome order)
                               (fleetOptions config))
                  \<and> labelSignature lc (v_labels e) = labelSignature lc (v_labels v)))
       \<and> (''cloudflare_exporter_errors_total'' \<notin> parseCommaSeparated (Some (metricsDenylist config)) \<longrightarrow>
              ''# TYPE cloudflare_exporter_errors_total counter''
                \<in> set (serializeLines lc numToString (fleetMetrics accts outcome order)
                         (fleetOptions config))
            \<and> (\<exists>x. valueLine numToString ''cloudflare_exporter_errors_total''
                      \<lparr>v_labels = [(''account_id'', a_id (accts ! i)),
                                   (''error_code'', codeString (e_code (extractErrorInfo err)))],
                       v_value = x\<rparr>
                    \<in> set (serializeLines lc numToString (fleetMetrics accts outcome order)
                             (fleetOptions config))))"
proof -
  let ?lines = "serializeLines lc numToString (fleetMetrics accts outcome order) (fleetOptions config)"
  from i have ne: "accts \<noteq> []" by auto
  have out: "MetricCoordinator_export lc numToString config nowCheck nowFetched getAccounts outcome order
             (Some state) = (Inr (join [newline] ?lines), Some state')"
    by (rule export_text[OF refreshed ne])
  have zero: "fanOutResults accts outcome ! i = zeroExport"
    using i fails by (simp add: fanOut_nth settled_def)
  have kept: "\<forall>j r. j < length accts \<and> outcome j = Inr r \<longrightarrow>
              fanOutResults accts outcome ! j = r
            \<and> set (r_metrics r) \<subseteq> set (fleetMetrics accts outcome order)"
  proof (intro allI impI)
    fix j r
    assume h: "j < length accts \<and> outcome j = Inr r"
    then have "fanOutResults accts outcome ! j = r" by (simp add: fanOut_nth settled_def)
    moreover from h have "set (r_metrics r) \<subseteq> set (fleetMetrics accts outcome order)"
      using fanOut_metrics[of j accts outcome r order] by blast
    ultimately show "fanOutResults accts outcome ! j = r
            \<and> set (r_metrics r) \<subseteq> set (fleetMetrics accts outcome order)" by simp
  qed
  have shown: "\<forall>j r m v. j < length accts \<and> outcome j = Inr r \<and> m \<in> set (r_metrics r)
              \<and> m_name m \<notin> parseCommaSeparated (Some (metricsDenylist config))
              \<and> v \<in> set (keptRows (if excludeHost config then {''host''} else {}) m) \<longrightarrow>
              (\<exists>e. valueLine numToString (m_name m) e \<in> set ?lines
                  \<and> labelSignature lc (v_labels e) = labelSignature lc (v_labels v))"
  proof (intro allI impI)
    fix j r m v
    assume h: "j < length accts \<and> outcome j = Inr r \<and> m \<in> set (r_metrics r)
              \<and> m_name m \<notin> parseCommaSeparated (Some (metricsDenylist config))
              \<and> v \<in> set (keptRows (if excludeHost config then {''host''} else {}) m)"
    then have m: "m \<in> set (fleetMetrics accts outcome order)"
      using fanOut_metrics[of j accts outcome r order] by blast
    from h have allowed: "m_name m \<notin> optSet (fleetOptions config) denylist"
      and v: "v \<in> set (keptRows (optSet (fleetOptions config) excludeLabels) m)"
      by (simp_all add: fleetOptions_sets)
    from serialize_row_line[OF m allowed v]
    show "\<exists>e. valueLine numToString (m_name m) e \<in> set ?lines
                  \<and> labelSignature lc (v_labels e) = labelSignature lc (v_labels v)" .
  qed
  have "set order = set [0..<length accts]" using perm by (rule mset_eq_setD)
  with i have io: "i \<in> set order" by simp
  have sample: "''cloudflare_exporter_errors_total'' \<notin> parseCommaSeparated (Some (metricsDenylist config)) \<longrightarrow>
              ''# TYPE cloudflare_exporter_errors_total counter'' \<in> set ?lines
            \<and> (\<exists>x. valueLine numToString ''cloudflare_exporter_errors_total''
                      \<lparr>v_labels = [(''account_id'', a_id (accts ! i)),
                                   (''error_code'', codeString (e_code (extractErrorInfo err)))],
                       v_value = x\<rparr> \<in> set ?lines)"
    using error_sample_line[where i = i and order = order and accts = accts and outcome = outcome
        and err = err and config = config and lc = lc and numToString = numToString] io i fails
    by blast
  from out zero kept shown sample show ?thesis by blast
qed

lemmas fleet_eval =
  exampleConfig_def exampleFleet_def exampleExport_def threeAccounts_def secondRejects_def
  serializeLines_def groupMetrics_def groupStep_def optSet_def filterLabels_def
  groupLines_def aggregateByLabels_def aggregateStep_def labelSignature_def sort_entries_def
  valueLine_def formatLabels_def formatValue_def typeName_def fleetMetrics_def fleetOptions_def
  fanOutResults_def settled_def zeroExport_def tallyErrors_def tallyStep_def recordError_def
  addZoneCounts_def buildExporterInfoMetrics_def errorRows_def parseCommaSeparated_def
  wholeNumberString_def escapeHelp_def escapeLabel_def replaceAll_def backslash_def newline_def
  dquote_def trim_def isWhiteSpace_def Let_def upt_rec

theorem partial_failure_isolation_witness:
  "MetricCoordinator_export codeUnitCompare wholeNumberString (exampleConfig [] True) 2000 2000
       (Inr []) secondRejects [2, 0, 1] (Some (exampleFleet threeAccounts))
     = (Inr (join [newline]
               (serializeLines codeUnitCompare wholeNumberString
                  (fleetMetrics threeAccounts secondRejects [2, 0, 1])
                  (fleetOptions (exampleConfig [] True)))),
        Some (exampleFleet threeAccounts))
   \<and> fanOutResults threeAccounts secondRejects ! 1 = zeroExport
   \<and> fanOutResults threeAccounts secondRejects ! 0 = exampleExport ''h0''
   \<and> ''# TYPE cloudflare_exporter_errors_total counter''
        \<in> set (serializeLines codeUnitCompare wholeNumberString
                  (fleetMetrics threeAccounts secondRejects [2, 0, 1])
                  (fleetOptions (exampleConfig [] True)))
   \<and> serializeLines codeUnitCompare wholeNumberString
        (fleetMetrics threeAccounts secondRejects [2, 0, 1]) (fleetOptions (exampleConfig [] True))
     = [''# HELP cloudflare_exporter_up Exporter health'',
        ''# TYPE cloudflare_exporter_up gauge'', ''cloudflare_exporter_up 1'', [],
        ''# HELP cloudflare_accounts Total accounts discovered'',
        ''# TYPE cloudflare_accounts gauge'', ''cloudflare_accounts 3'', [],
        ''# HELP cloudflare_zones Total zones before filtering'',
        ''# TYPE cloudflare_zones gauge'', ''cloudflare_zones 4'', [],
        ''# HELP cloudflare_zones_filtered Zones after whitelist filter'',
        ''# TYPE cloudflare_zones_filtered gauge'', ''cloudflare_zones_filtered 2'', [],
        ''# HELP cloudflare_zones_processed Zones successfully processed'',
        ''# TYPE cloudflare_zones_processed gauge'', ''cloudflare_zones_processed 2'', [],
        ''# HELP cloudflare_zones_skipped_free_tier Zones skipped due to free tier plan (no GraphQL analytics access)'',
        ''# TYPE cloudflare_zones_skipped_free_tier gauge'', ''cloudflare_zones_skipped_free_tier 0'', [],
        ''# HELP cloudflare_exporter_errors_total Total errors during metric collection by account and error code'',
        ''# TYPE cloudflare_exporter_errors_total counter'',
        ''cloudflare_exporter_errors_total{account_id='' @ [dquote] @ ''a2'' @ [dquote]
          @ '',error_code='' @ [dquote] @ ''API_RATE_LIMITED'' @ [dquote] @ ''} 1'',
        [],
        ''# HELP cf_requests Requests'', ''# TYPE cf_requests counter'',
        ''cf_requests{zone='' @ [dquote] @ ''z'' @ [dquote] @ ''} 8'', []]"
proof -
  have refreshed: "refreshAccountsIfStale (exampleConfig [] True) 2000 2000 (Inr []) (exampleFleet threeAccounts)
      = Inr (threeAccounts, exampleFleet threeAccounts)"
    by (simp add: refreshAccountsIfStale_def exampleConfig_def exampleFleet_def threeAccounts_def)
  have perm: "mset [2, 0, 1] = mset [0..<length threeAccounts]"
    by (simp add: threeAccounts_def upt_rec)
  have i: "1 < length threeAccounts" by (simp add: threeAccounts_def)
  have fails: "secondRejects 1 = Inl (CloudflarePrometheusError ''slow down'' API_RATE_LIMITED True)"
    by (simp add: secondRejects_def)
  have zero: "0 < length threeAccounts \<and> secondRejects 0 = Inr (exampleExport ''h0'')"
    by (simp add: threeAccounts_def secondRejects_def)
  have allowed: "''cloudflare_exporter_errors_total''
      \<notin> parseCommaSeparated (Some (metricsDenylist (exampleConfig [] True)))"
    by (simp add: exampleConfig_def parseCommaSeparated_def)
  note t = partial_failure_isolation[where outcome = secondRejects and i = 1
      and lc = codeUnitCompare and numToString = wholeNumberString, OF refreshed perm i fails]
  have lines: "serializeLines codeUnitCompare wholeNumberString
        (fleetMetrics threeAccounts secondRejects [2, 0, 1]) (fleetOptions (exampleConfig [] True))
     = [''# HELP cloudflare_exporter_up Exporter health'',
        ''# TYPE cloudflare_exporter_up gauge'', ''cloudflare_exporter_up 1'', [],
        ''# HELP cloudflare_accounts Total accounts discovered'',
        ''# TYPE cloudflare_accounts gauge'', ''cloudflare_accounts 3'', [],
        ''# HELP cloudflare_zones Total zones before filtering'',
        ''# TYPE cloudflare_zones gauge'', ''cloudflare_zones 4'', [],
        ''# HELP cloudflare_zones_filtered Zones after whitelist filter'',
        ''# TYPE cloudflare_zones_filtered gauge'', ''cloudflare_zones_filtered 2'', [],
        ''# HELP cloudflare_zones_processed Zones successfully processed'',
        ''# TYPE cloudflare_zones_processed gauge'', ''cloudflare_zones_processed 2'', [],
        ''# HELP cloudflare_zones_skipped_free_tier Zones skipped due to free tier plan (no GraphQL analytics access)'',
        ''# TYPE cloudflare_zones_skipped_free_tier gauge'', ''cloudflare_zones_skipped_free_tier 0'', [],
        ''# HELP cloudflare_exporter_errors_total Total errors during metric collection by account and error code'',
        ''# TYPE cloudflare_exporter_errors_total counter'',
        ''cloudflare_exporter_errors_total{account_id='' @ [dquote] @ ''a2'' @ [dquote]
          @ '',error_code='' @ [dquote] @ ''API_RATE_LIMITED'' @ [dquote] @ ''} 1'',
        [],
        ''# HELP cf_requests Requests'', ''# TYPE cf_requests counter'',
        ''cf_requests{zone='' @ [dquote] @ ''z'' @ [dquote] @ ''} 8'', []]"
    by (simp add: fleet_eval)
  from t have a: "MetricCoordinator_export codeUnitCompare wholeNumberString (exampleConfig [] True) 2000 2000
       (Inr []) secondRejects [2, 0, 1] (Some (exampleFleet threeAccounts))
     = (Inr (join [newline]
               (serializeLines codeUnitCompare wholeNumberString
                  (fleetMetrics threeAccounts secondRejects [2, 0, 1])
                  (fleetOptions (exampleConfig [] True)))),
        Some (exampleFleet threeAccounts))"
    and b: "fanOutResults threeAccounts secondRejects ! 1 = zeroExport"
    by blast+
  from t zero have c: "fanOutResults threeAccounts secondRejects ! 0 = exampleExport ''h0''"
    by blast
  from t allowed have d: "''# TYPE cloudflare_exporter_errors_total counter''
        \<in> set (serializeLines codeUnitCompare wholeNumberString
                  (fleetMetrics threeAccounts secondRejects [2, 0, 1])
                  (fleetOptions (exampleConfig [] True)))"
    by blast
  from a b c d lines show ?thesis by blast
qed


text \<open>
  With \<open>cloudflare_exporter_errors_total\<close> on the metrics denylist no error sample is
  written: the only account rejects, and the output consists of the six self-observation
  groups.
\<close>

theorem partial_failure_isolation_counterexample:
  "MetricCoordinator_export codeUnitCompare wholeNumberString
       (exampleConfig ''cloudflare_exporter_errors_total'' False) 2000 2000
       (Inr []) alwaysRejects [0] (Some (exampleFleet oneAccount))
     = (Inr (join [newline]
          [''# HELP cloudflare_exporter_up Exporter health'',
           ''# TYPE cloudflare_exporter_up gauge'', ''cloudflare_exporter_up 1'', [],
           ''# HELP cloudflare_accounts Total accounts discovered'',
           ''# TYPE cloudflare_accounts gauge'', ''cloudflare_accounts 1'', [],
           ''# HELP cloudflare_zones Total zones before filtering'',
           ''# TYPE cloudflare_zones gauge'', ''cloudflare_zones 0'', [],
           ''# HELP cloudflare_zones_filtered Zones after whitelist filter'',
           ''# TYPE cloudflare_zones_filtered gauge'', ''cloudflare_zones_filtered 0'', [],
           ''# HELP cloudflare_zones_processed Zones successfully processed'',
           ''# TYPE cloudflare_zones_processed gauge'', ''cloudflare_zones_processed 0'', [],
           ''# HELP cloudflare_zones_skipped_free_tier Zones skipped due to free tier plan (no GraphQL analytics access)'',
           ''# TYPE cloudflare_zones_skipped_free_tier gauge'', ''cloudflare_zones_skipped_free_tier 0'', []]),
        Some (exampleFleet oneAccount))
   \<and> alwaysRejects 0 = Inl (JsError ''boom'')
   \<and> ''# TYPE cloudflare_exporter_errors_total counter''
        \<notin> set (serializeLines codeUnitCompare wholeNumberString
                  (fleetMetrics oneAccount alwaysRejects [0])
                  (fleetOptions (exampleConfig ''cloudflare_exporter_errors_total'' False)))"
proof -
  have lines: "serializeLines codeUnitCompare wholeNumberString
                  (fleetMetrics oneAccount alwaysRejects [0])
                  (fleetOptions (exampleConfig ''cloudflare_exporter_errors_total'' False))
      = [''# HELP cloudflare_exporter_up Exporter health'',
           ''# TYPE cloudflare_exporter_up gauge'', ''cloudflare_exporter_up 1'', [],
           ''# HELP cloudflare_accounts Total accounts discovered'',
           ''# TYPE cloudflare_accounts gauge'', ''cloudflare_accounts 1'', [],
           ''# HELP cloudflare_zones Total zones before filtering'',
           ''# TYPE cloudflare_zones gauge'', ''cloudflare_zones 0'', [],
           ''# HELP cloudflare_zones_filtered Zones after whitelist filter'',
           ''# TYPE cloudflare_zones_filtered gauge'', ''cloudflare_zones_filtered 0'', [],
           ''# HELP cloudflare_zones_processed Zones successfully processed'',
           ''# TYPE cloudflare_zones_processed gauge'', ''cloudflare_zones_processed 0'', [],
           ''# HELP cloudflare_zones_skipped_free_tier Zones skipped due to free tier plan (no GraphQL analytics access)'',
           ''# TYPE cloudflare_zones_skipped_free_tier gauge'', ''cloudflare_zones_skipped_free_tier 0'', []]"
    by (simp add: fleet_eval oneAccount_def alwaysRejects_def)
  have run: "MetricCoordinator_export codeUnitCompare wholeNumberString
       (exampleConfig ''cloudflare_exporter_errors_total'' False) 2000 2000
       (Inr []) alwaysRejects [0] (Some (exampleFleet oneAccount))
     = (Inr (join [newline] (serializeLines codeUnitCompare wholeNumberString
                  (fleetMetrics oneAccount alwaysRejects [0])
                  (fleetOptions (exampleConfig ''cloudflare_exporter_errors_total'' False)))),
        Some (exampleFleet oneAccount))"
    by (simp add: MetricCoordinator_export_def refreshAccountsIfStale_def serializeToPrometheus_def
        exampleConfig_def exampleFleet_def oneAccount_def)
  have absent: "''# TYPE cloudflare_exporter_errors_total counter''
        \<notin> set (serializeLines codeUnitCompare wholeNumberString
                  (fleetMetrics oneAccount alwaysRejects [0])
                  (fleetOptions (exampleConfig ''cloudflare_exporter_errors_total'' False)))"
    unfolding lines by simp
  show ?thesis unfolding run lines[symmetric] using absent by (simp add: alwaysRejects_def)
qed

subsection \<open>The value of an aggregated row\<close>

lemma foldl_aggregate_existing_value:
  "mapGet acc s = Some e0 \<Longrightarrow>
   mapGet (foldl (aggregateStep lc ty) acc vs) s
     = Some (e0\<lparr>v_value := foldl (\<lambda>a b. if ty = Counter then a + b else max a b) (v_value e0)
                 (map v_value (filter (\<lambda>r. labelSignature lc (v_labels r) = s) vs))\<rparr>)"
proof (induction vs arbitrary: acc e0)
  case Nil
  then show ?case by simp
next
  case (Cons r vs)
  show ?case
  proof (cases "labelSignature lc (v_labels r) = s")
    case True
    let ?e1 = "e0\<lparr>v_value := (if ty = Counter then v_value e0 + v_value r
                                else max (v_value e0) (v_value r))\<rparr>"
    have "mapGet (aggregateStep lc ty acc r) s = Some ?e1"
      using Cons.prems True by (simp add: aggregateStep_get)
    from Cons.IH[OF this] True show ?thesis by simp
  next
    case False
    have "mapGet (aggregateStep lc ty acc r) s = Some e0"
      using Cons.prems False by (simp add: aggregateStep_get)
    from Cons.IH[OF this] False show ?thesis by simp
  qed
qed

lemma length_insert_entry: "length (insert_entry lc e es) = Suc (length es)"
  by (induction es) simp_all

lemma length_sort_entries: "length (sort_entries lc es) = length es"
  unfolding sort_entries_def by (induction es) (simp_all add: length_insert_entry)

lemma join_nonempty: "xs \<noteq> [] \<Longrightarrow> \<forall>x \<in> set xs. x \<noteq> [] \<Longrightarrow> join sep xs \<noteq> []"
proof (cases xs)
  case Nil
  assume "xs \<noteq> []"
  with Nil show ?thesis by simp
next
  case (Cons x ys)
  assume "\<forall>x \<in> set xs. x \<noteq> []"
  with Cons show ?thesis by (cases ys) simp_all
qed

lemma labelSignature_Nil_iff: "labelSignature lc ls = labelSignature lc [] \<longleftrightarrow> ls = []"
proof
  assume h: "labelSignature lc ls = labelSignature lc []"
  show "ls = []"
  proof (rule ccontr)
    assume "ls \<noteq> []"
    then have "sort_entries lc ls \<noteq> []"
      using length_sort_entries[of lc ls] by auto
    then have "join [CHR 0x01] (map (\<lambda>(k, v). k @ [CHR 0x00] @ v) (sort_entries lc ls)) \<noteq> []"
      by (intro join_nonempty) auto
    with h show False by (simp add: labelSignature_def sort_entries_def)
  qed
next
  assume "ls = []" then show "labelSignature lc ls = labelSignature lc []" by simp
qed

text \<open>
  A gauge whose first row has no labels: the aggregate has a row without labels whose
  value is the maximum of that row's value and the values of the later rows without
  labels.
\<close>

lemma aggregate_gauge_head:
  "\<lparr>v_labels = [], v_value = foldl max v (map v_value (filter (\<lambda>r. v_labels r = []) rest))\<rparr>
     \<in> set (aggregateByLabels lc (\<lparr>v_labels = [], v_value = v\<rparr> # rest) Gauge)"
proof -
  let ?s = "labelSignature lc []"
  have first: "mapGet (aggregateStep lc Gauge [] \<lparr>v_labels = [], v_value = v\<rparr>) ?s
      = Some \<lparr>v_labels = [], v_value = v\<rparr>"
    by (simp add: aggregateStep_get)
  have same: "filter (\<lambda>r. labelSignature lc (v_labels r) = ?s) rest = filter (\<lambda>r. v_labels r = []) rest"
    by (simp only: labelSignature_Nil_iff)
  have "mapGet (foldl (aggregateStep lc Gauge) [] (\<lparr>v_labels = [], v_value = v\<rparr> # rest)) ?s
      = Some \<lparr>v_labels = [], v_value = foldl max v (map v_value (filter (\<lambda>r. v_labels r = []) rest))\<rparr>"
    using foldl_aggregate_existing_value[OF first, of lc Gauge rest] by (simp add: same)
  from mapGet_Some_mem[OF this] show ?thesis
    by (force simp: aggregateByLabels_def)
qed

subsection \<open>The self-observation samples\<close>

lemma group_help_line:
  assumes "mapGet (groupMetrics metrics options) n = Some g"
  shows "(''# HELP '' @ n @ '' '' @ escapeHelp (m_help g)) \<in> set (serializeLines lc numToString metrics options)"
proof -
  from mapGet_Some_mem[OF assms] have mem: "(n, g) \<in> set (groupMetrics metrics options)" .
  show ?thesis
    using groupLines_subset[OF mem, of lc numToString] by (auto simp: groupLines_def Let_def)
qed

lemma keptRows_label_less:
  "keptRows ex \<lparr>m_name = n, m_help = h, m_type = ty, m_values = [\<lparr>v_labels = [], v_value = v\<rparr>]\<rparr>
     = [\<lparr>v_labels = [], v_value = v\<rparr>]"
  by (simp add: keptRows_def filterLabels_def)

lemma gauge_sample_lines:
  assumes allowed: "n \<notin> optSet options denylist"
    and f: "filter (\<lambda>x. m_name x = n) metrics
              = \<lparr>m_name = n, m_help = h, m_type = Gauge, m_values = [\<lparr>v_labels = [], v_value = v\<rparr>]\<rparr>
                # filter (\<lambda>x. m_name x = n) later"
  shows "(''# HELP '' @ n @ '' '' @ escapeHelp h) \<in> set (serializeLines lc numToString metrics options)"
    and "(''# TYPE '' @ n @ '' gauge'') \<in> set (serializeLines lc numToString metrics options)"
    and "(n @ '' '' @ numToString (foldl max v (labelLessValues (optSet options excludeLabels) n later)))
           \<in> set (serializeLines lc numToString metrics options)"
proof -
  let ?ex = "optSet options excludeLabels"
  let ?first = "\<lparr>m_name = n, m_help = h, m_type = Gauge, m_values = [\<lparr>v_labels = [], v_value = v\<rparr>]\<rparr>"
  let ?others = "filter (\<lambda>x. m_name x = n) later"
  let ?g = "?first\<lparr>m_values := concat (map (keptRows ?ex) (?first # ?others))\<rparr>"
  let ?rest = "concat (map (keptRows ?ex) ?others)"
  have g: "mapGet (groupMetrics metrics options) n = Some ?g"
    by (rule groupMetrics_get[OF allowed f])
  from group_help_line[OF g, of lc numToString]
  show "(''# HELP '' @ n @ '' '' @ escapeHelp h) \<in> set (serializeLines lc numToString metrics options)"
    by simp
  from group_lines(1)[OF g, of lc numToString]
  show "(''# TYPE '' @ n @ '' gauge'') \<in> set (serializeLines lc numToString metrics options)"
    by (simp add: typeName_def)
  have vals: "m_values ?g = \<lparr>v_labels = [], v_value = v\<rparr> # ?rest"
    by (simp add: keptRows_label_less)
  have "\<lparr>v_labels = [], v_value = foldl max v (map v_value (filter (\<lambda>r. v_labels r = []) ?rest))\<rparr>
      \<in> set (aggregateByLabels lc (m_values ?g) (m_type ?g))"
    unfolding vals using aggregate_gauge_head[of v ?rest lc] by simp
  from group_lines(2)[OF g this, of numToString]
  show "(n @ '' '' @ numToString (foldl max v (labelLessValues ?ex n later)))
           \<in> set (serializeLines lc numToString metrics options)"
    by (simp add: valueLine_def formatLabels_def formatValue_def labelLessValues_def)
qed

lemma foldl_addZoneCounts:
  "foldl addZoneCounts zc rs
     = \<lparr>total = total zc + sum_list (map (\<lambda>r. total (r_zoneCounts r)) rs),
        filtered = filtered zc + sum_list (map (\<lambda>r. filtered (r_zoneCounts r)) rs),
        processed = processed zc + sum_list (map (\<lambda>r. processed (r_zoneCounts r)) rs),
        skippedFreeTier = skippedFreeTier zc
          + sum_list (map (\<lambda>r. skippedFreeTier (r_zoneCounts r)) rs)\<rparr>"
  by (induction rs arbitrary: zc) (simp_all add: addZoneCounts_def add.assoc)

lemma fleet_self_first:
  "filter (\<lambda>x. m_name x = ''cloudflare_exporter_up'') (fleetMetrics accts outcome order)
     = \<lparr>m_name = ''cloudflare_exporter_up'', m_help = ''Exporter health'', m_type = Gauge,
        m_values = [\<lparr>v_labels = [], v_value = 1\<rparr>]\<rparr>
       # filter (\<lambda>x. m_name x = ''cloudflare_exporter_up'')
           (concat (map r_metrics (fanOutResults accts outcome)))"
  "filter (\<lambda>x. m_name x = ''cloudflare_accounts'') (fleetMetrics accts outcome order)
     = \<lparr>m_name = ''cloudflare_accounts'', m_help = ''Total accounts discovered'', m_type = Gauge,
        m_values = [\<lparr>v_labels = [], v_value = real (length accts)\<rparr>]\<rparr>
       # filter (\<lambda>x. m_name x = ''cloudflare_accounts'')
           (concat (map r_metrics (fanOutResults accts outcome)))"
  "filter (\<lambda>x. m_name x = ''cloudflare_zones'') (fleetMetrics accts outcome order)
     = \<lparr>m_name = ''cloudflare_zones'', m_help = ''Total zones before filtering'', m_type = Gauge,
        m_values = [\<lparr>v_labels = [],
                     v_value = sum_list (map (\<lambda>r. total (r_zoneCounts r))
                                 (fanOutResults accts outcome))\<rparr>]\<rparr>
       # filter (\<lambda>x. m_name x = ''cloudflare_zones'')
           (concat (map r_metrics (fanOutResults accts outcome)))"
  "filter (\<lambda>x. m_name x = ''cloudflare_zones_filtered'') (fleetMetrics accts outcome order)
     = \<lparr>m_name = ''cloudflare_zones_filtered'', m_help = ''Zones after whitelist filter'',
        m_type = Gauge,
        m_values = [\<lparr>v_labels = [],
                     v_value = sum_list (map (\<lambda>r. filtered (r_zoneCounts r))
                                 (fanOutResults accts outcome))\<rparr>]\<rparr>
       # filter (\<lambda>x. m_name x = ''cloudflare_zones_filtered'')
           (concat (map r_metrics (fanOutResults accts outcome)))"
  "filter (\<lambda>x. m_name x = ''cloudflare_zones_processed'') (fleetMetrics accts outcome order)
     = \<lparr>m_name = ''cloudflare_zones_processed'', m_help = ''Zones successfully processed'',
        m_type = Gauge,
        m_values = [\<lparr>v_labels = [],
                     v_value = sum_list (map (\<lambda>r. processed (r_zoneCounts r))
                                 (fanOutResults accts outcome))\<rparr>]\<rparr>
       # filter (\<lambda>x. m_name x = ''cloudflare_zones_processed'')
           (concat (map r_metrics (fanOutResults accts outcome)))"
  "filter (\<lambda>x. m_name x = ''cloudflare_zones_skipped_free_tier'') (fleetMetrics accts outcome order)
     = \<lparr>m_name = ''cloudflare_zones_skipped_free_tier'',
        m_help = ''Zones skipped due to free tier plan (no GraphQL analytics access)'',
        m_type = Gauge,
        m_values = [\<lparr>v_labels = [],
                     v_value = sum_list (map (\<lambda>r. skippedFreeTier (r_zoneCounts r))
                                 (fanOutResults accts outcome))\<rparr>]\<rparr>
       # filter (\<lambda>x. m_name x = ''cloudflare_zones_skipped_free_tier'')
           (concat (map r_metrics (fanOutResults accts outcome)))"
  by (simp_all add: fleetMetrics_def buildExporterInfoMetrics_def Let_def foldl_addZoneCounts)

lemma escapeHelp_self:
  "escapeHelp ''Exporter health'' = ''Exporter health''"
  "escapeHelp ''Total accounts discovered'' = ''Total accounts discovered''"
  "escapeHelp ''Total zones before filtering'' = ''Total zones before filtering''"
  "escapeHelp ''Zones after whitelist filter'' = ''Zones after whitelist filter''"
  "escapeHelp ''Zones successfully processed'' = ''Zones successfully processed''"
  "escapeHelp ''Zones skipped due to free tier plan (no GraphQL analytics access)''
     = ''Zones skipped due to free tier plan (no GraphQL analytics access)''"
  by (simp_all add: escapeHelp_def replaceAll_def backslash_def newline_def)


lemma exportTraced_export:
  "MetricCoordinator_export lc numToString config nowCheck nowFetched getAccounts outcome order this_state
     = (fst (MetricCoordinator_exportTraced lc numToString config nowCheck nowFetched getAccounts
               outcome order this_state),
        fst (snd (MetricCoordinator_exportTraced lc numToString config nowCheck nowFetched getAccounts
               outcome order this_state)))"
  by (simp add: MetricCoordinator_export_def MetricCoordinator_exportTraced_def
      split: option.splits sum.splits prod.splits)

lemma self_observation_lines:
  assumes allowed: "n \<notin> parseCommaSeparated (Some (metricsDenylist config))"
    and f: "filter (\<lambda>x. m_name x = n) (fleetMetrics accts outcome order)
              = \<lparr>m_name = n, m_help = h, m_type = Gauge, m_values = [\<lparr>v_labels = [], v_value = v\<rparr>]\<rparr>
                # filter (\<lambda>x. m_name x = n) (concat (map r_metrics (fanOutResults accts outcome)))"
    and h: "escapeHelp h = h"
  shows "{''# HELP '' @ n @ '' '' @ h, ''# TYPE '' @ n @ '' gauge'',
          n @ '' '' @ numToString
                 (foldl max v (labelLessValues (if excludeHost config then {''host''} else {}) n
                                 (concat (map r_metrics (fanOutResults accts outcome)))))}
           \<subseteq> set (serializeLines lc numToString (fleetMetrics accts outcome order) (fleetOptions config))"
proof -
  have allowed': "n \<notin> optSet (fleetOptions config) denylist"
    using allowed by (simp add: fleetOptions_sets)
  note l = gauge_sample_lines[where lc = lc and numToString = numToString, OF allowed' f]
  from l(1) l(2) l(3) show ?thesis
    by (simp only: h fleetOptions_sets insert_subset empty_subsetI simp_thms)
qed

text \<open>
  C10 (as the code has it).  When the account list is empty after refresh and filtering,
  \<open>export\<close> returns the empty string at once: no account coordinator is reached for and
  nothing is serialized, so no metric is emitted, the self-observation metrics included.
  With at least one account it reaches for the coordinator of every account, in order,
  and returns the serialization of the fleet metrics, in which each of the six
  self-observation gauges that the operator has not put on the metrics denylist has its
  help line, its type line and a sample without labels.  The sample carries the value
  the exporter computed (1, the number of accounts, the sums of the accounts' zone
  counts, an account whose export rejected counting zero), raised to the largest value of
  a row without labels that an account reported under the same name, if there is one.
\<close>

theorem empty_account_list:
  "(refreshAccountsIfStale config nowCheck nowFetched getAccounts state = Inr ([], state') \<longrightarrow>
      MetricCoordinator_exportTraced lc numToString config nowCheck nowFetched getAccounts outcome order
          (Some state)
        = (Inr [], Some state', []))
   \<and> (refreshAccountsIfStale config nowCheck nowFetched getAccounts state = Inr (accts, state')
        \<and> accts \<noteq> [] \<longrightarrow>
      MetricCoordinator_exportTraced lc numToString config nowCheck nowFetched getAccounts outcome order
          (Some state)
        = (Inr (join [newline] (serializeLines lc numToString (fleetMetrics accts outcome order)
                                 (fleetOptions config))),
           Some state',
           map (\<lambda>account. AccountCoordinatorGet (a_id account) (a_name account)) accts)
      \<and> (\<forall>(n, h, v) \<in> set
            [(''cloudflare_exporter_up'', ''Exporter health'', 1),
             (''cloudflare_accounts'', ''Total accounts discovered'', real (length accts)),
             (''cloudflare_zones'', ''Total zones before filtering'',
                sum_list (map (\<lambda>r. total (r_zoneCounts r)) (fanOutResults accts outcome))),
             (''cloudflare_zones_filtered'', ''Zones after whitelist filter'',
                sum_list (map (\<lambda>r. filtered (r_zoneCounts r)) (fanOutResults accts outcome))),
             (''cloudflare_zones_processed'', ''Zones successfully processed'',
                sum_list (map (\<lambda>r. processed (r_zoneCounts r)) (fanOutResults accts outcome))),
             (''cloudflare_zones_skipped_free_tier'',
                ''Zones skipped due to free tier plan (no GraphQL analytics access)'',
                sum_list (map (\<lambda>r. skippedFreeTier (r_zoneCounts r))
                            (fanOutResults accts outcome)))].
           n \<notin> parseCommaSeparated (Some (metricsDenylist config)) \<longrightarrow>
             {''# HELP '' @ n @ '' '' @ h, ''# TYPE '' @ n @ '' gauge'',
              n @ '' '' @ numToString
                     (foldl max v
                        (labelLessValues (if excludeHost config then {''host''} else {}) n
                           (concat (map r_metrics (fanOutResults accts outcome)))))}
               \<subseteq> set (serializeLines lc numToString (fleetMetrics accts outcome order)
                         (fleetOptions config))))"
proof (intro conjI impI)
  assume "refreshAccountsIfStale config nowCheck nowFetched getAccounts state = Inr ([], state')"
  then show "MetricCoordinator_exportTraced lc numToString config nowCheck nowFetched getAccounts
      outcome order (Some state) = (Inr [], Some state', [])"
    by (simp add: MetricCoordinator_exportTraced_def)
next
  assume "refreshAccountsIfStale config nowCheck nowFetched getAccounts state = Inr (accts, state')
        \<and> accts \<noteq> []"
  then show "MetricCoordinator_exportTraced lc numToString config nowCheck nowFetched getAccounts
      outcome order (Some state)
        = (Inr (join [newline] (serializeLines lc numToString (fleetMetrics accts outcome order)
                                 (fleetOptions config))),
           Some state',
           map (\<lambda>account. AccountCoordinatorGet (a_id account) (a_name account)) accts)"
    by (simp add: MetricCoordinator_exportTraced_def serializeToPrometheus_def)
next
  note s = self_observation_lines[where config = config and accts = accts and outcome = outcome
      and order = order and lc = lc and numToString = numToString]
  show "\<forall>(n, h, v) \<in> set
            [(''cloudflare_exporter_up'', ''Exporter health'', 1),
             (''cloudflare_accounts'', ''Total accounts discovered'', real (length accts)),
             (''cloudflare_zones'', ''Total zones before filtering'',
                sum_list (map (\<lambda>r. total (r_zoneCounts r)) (fanOutResults accts outcome))),
             (''cloudflare_zones_filtered'', ''Zones after whitelist filter'',
                sum_list (map (\<lambda>r. filtered (r_zoneCounts r)) (fanOutResults accts outcome))),
             (''cloudflare_zones_processed'', ''Zones successfully processed'',
                sum_list (map (\<lambda>r. processed (r_zoneCounts r)) (fanOutResults accts outcome))),
             (''cloudflare_zones_skipped_free_tier'',
                ''Zones skipped due to free tier plan (no GraphQL analytics access)'',
                sum_list (map (\<lambda>r. skippedFreeTier (r_zoneCounts r))
                            (fanOutResults accts outcome)))].
           n \<notin> parseCommaSeparated (Some (metricsDenylist config)) \<longrightarrow>
             {''# HELP '' @ n @ '' '' @ h, ''# TYPE '' @ n @ '' gauge'',
              n @ '' '' @ numToString
                     (foldl max v
                        (labelLessValues (if excludeHost config then {''host''} else {}) n
                           (concat (map r_metrics (fanOutResults accts outcome)))))}
               \<subseteq> set (serializeLines lc numToString (fleetMetrics accts outcome order)
                         (fleetOptions config))"
    unfolding list.set ball_simps prod.case
    using s[OF _ fleet_self_first(1) escapeHelp_self(1)]
          s[OF _ fleet_self_first(2) escapeHelp_self(2)]
          s[OF _ fleet_self_first(3) escapeHelp_self(3)]
          s[OF _ fleet_self_first(4) escapeHelp_self(4)]
          s[OF _ fleet_self_first(5) escapeHelp_self(5)]
          s[OF _ fleet_self_first(6) escapeHelp_self(6)]
    by blast
qed


theorem empty_account_list_witness:
  "MetricCoordinator_exportTraced codeUnitCompare wholeNumberString
       ((exampleConfig [] False)\<lparr>cfAccounts := Some ''a9''\<rparr>) 2000 2000 (Inr oneAccount)
       alwaysExports [0] (Some (exampleFleet []))
     = (Inr [],
        Some \<lparr>f_identifier = ''metric-coordinator'', f_accounts = [], f_lastAccountFetch = 2000\<rparr>,
        [])
   \<and> MetricCoordinator_exportTraced codeUnitCompare wholeNumberString (exampleConfig [] True)
        2000 2000 (Inr []) secondRejects [2, 0, 1] (Some (exampleFleet threeAccounts))
     = (Inr (join [newline]
               (serializeLines codeUnitCompare wholeNumberString
                  (fleetMetrics threeAccounts secondRejects [2, 0, 1])
                  (fleetOptions (exampleConfig [] True)))),
        Some (exampleFleet threeAccounts),
        [AccountCoordinatorGet ''a1'' ''A'', AccountCoordinatorGet ''a2'' ''B'',
         AccountCoordinatorGet ''a3'' ''C''])
   \<and> {''# HELP cloudflare_exporter_up Exporter health'',
       ''# TYPE cloudflare_exporter_up gauge'', ''cloudflare_exporter_up 1'',
       ''# HELP cloudflare_accounts Total accounts discovered'',
       ''# TYPE cloudflare_accounts gauge'', ''cloudflare_accounts 3'',
       ''# HELP cloudflare_zones Total zones before filtering'',
       ''# TYPE cloudflare_zones gauge'', ''cloudflare_zones 4'',
       ''# HELP cloudflare_zones_filtered Zones after whitelist filter'',
       ''# TYPE cloudflare_zones_filtered gauge'', ''cloudflare_zones_filtered 2'',
       ''# HELP cloudflare_zones_processed Zones successfully processed'',
       ''# TYPE cloudflare_zones_processed gauge'', ''cloudflare_zones_processed 2'',
       ''# HELP cloudflare_zones_skipped_free_tier Zones skipped due to free tier plan (no GraphQL analytics access)'',
       ''# TYPE cloudflare_zones_skipped_free_tier gauge'', ''cloudflare_zones_skipped_free_tier 0''}
      \<subseteq> set (serializeLines codeUnitCompare wholeNumberString
                 (fleetMetrics threeAccounts secondRejects [2, 0, 1])
                 (fleetOptions (exampleConfig [] True)))"
proof -
  let ?lines = "serializeLines codeUnitCompare wholeNumberString
                 (fleetMetrics threeAccounts secondRejects [2, 0, 1])
                 (fleetOptions (exampleConfig [] True))"
  let ?all = "concat (map r_metrics (fanOutResults threeAccounts secondRejects))"
  let ?ex = "if excludeHost (exampleConfig [] True) then {''host''} else {}"
  have empty: "refreshAccountsIfStale ((exampleConfig [] False)\<lparr>cfAccounts := Some ''a9''\<rparr>) 2000 2000
        (Inr oneAccount) (exampleFleet [])
      = Inr ([], \<lparr>f_identifier = ''metric-coordinator'', f_accounts = [], f_lastAccountFetch = 2000\<rparr>)"
    by (simp add: refreshAccountsIfStale_def exampleConfig_def exampleFleet_def oneAccount_def
        filterAccountsByIds_def parseCommaSeparated_def trim_def isWhiteSpace_def Let_def)
  have cached: "refreshAccountsIfStale (exampleConfig [] True) 2000 2000 (Inr []) (exampleFleet threeAccounts)
      = Inr (threeAccounts, exampleFleet threeAccounts) \<and> threeAccounts \<noteq> []"
    by (simp add: refreshAccountsIfStale_def exampleConfig_def exampleFleet_def threeAccounts_def)
  have allowed: "parseCommaSeparated (Some (metricsDenylist (exampleConfig [] True))) = {}"
    by (simp add: exampleConfig_def parseCommaSeparated_def)
  have a: "MetricCoordinator_exportTraced codeUnitCompare wholeNumberString
       ((exampleConfig [] False)\<lparr>cfAccounts := Some ''a9''\<rparr>) 2000 2000 (Inr oneAccount)
       alwaysExports [0] (Some (exampleFleet []))
     = (Inr [],
        Some \<lparr>f_identifier = ''metric-coordinator'', f_accounts = [], f_lastAccountFetch = 2000\<rparr>,
        [])"
    using empty_account_list[where config = "(exampleConfig [] False)\<lparr>cfAccounts := Some ''a9''\<rparr>"
        and nowCheck = 2000 and nowFetched = 2000 and getAccounts = "Inr oneAccount"
        and state = "exampleFleet []"
        and state' = "\<lparr>f_identifier = ''metric-coordinator'', f_accounts = [], f_lastAccountFetch = 2000\<rparr>"
        and lc = codeUnitCompare and numToString = wholeNumberString and outcome = alwaysExports
        and order = "[0]", THEN conjunct1] empty
    by blast
  note t = empty_account_list[where config = "exampleConfig [] True" and nowCheck = 2000
        and nowFetched = 2000 and getAccounts = "Inr []" and state = "exampleFleet threeAccounts"
        and state' = "exampleFleet threeAccounts" and accts = threeAccounts
        and lc = codeUnitCompare and numToString = wholeNumberString and outcome = secondRejects
        and order = "[2, 0, 1]", THEN conjunct2, rule_format, OF cached]
  have b: "MetricCoordinator_exportTraced codeUnitCompare wholeNumberString (exampleConfig [] True)
        2000 2000 (Inr []) secondRejects [2, 0, 1] (Some (exampleFleet threeAccounts))
     = (Inr (join [newline] ?lines), Some (exampleFleet threeAccounts),
        [AccountCoordinatorGet ''a1'' ''A'', AccountCoordinatorGet ''a2'' ''B'',
         AccountCoordinatorGet ''a3'' ''C''])"
    using t[THEN conjunct1] by (simp add: threeAccounts_def)
  have v: "wholeNumberString (foldl max 1 (labelLessValues ?ex ''cloudflare_exporter_up'' ?all)) = ''1''"
    "wholeNumberString (foldl max (real (length threeAccounts))
        (labelLessValues ?ex ''cloudflare_accounts'' ?all)) = ''3''"
    "wholeNumberString (foldl max (sum_list (map (\<lambda>r. total (r_zoneCounts r))
          (fanOutResults threeAccounts secondRejects)))
        (labelLessValues ?ex ''cloudflare_zones'' ?all)) = ''4''"
    "wholeNumberString (foldl max (sum_list (map (\<lambda>r. filtered (r_zoneCounts r))
          (fanOutResults threeAccounts secondRejects)))
        (labelLessValues ?ex ''cloudflare_zones_filtered'' ?all)) = ''2''"
    "wholeNumberString (foldl max (sum_list (map (\<lambda>r. processed (r_zoneCounts r))
          (fanOutResults threeAccounts secondRejects)))
        (labelLessValues ?ex ''cloudflare_zones_processed'' ?all)) = ''2''"
    "wholeNumberString (foldl max (sum_list (map (\<lambda>r. skippedFreeTier (r_zoneCounts r))
          (fanOutResults threeAccounts secondRejects)))
        (labelLessValues ?ex ''cloudflare_zones_skipped_free_tier'' ?all)) = ''0''"
    by (simp_all add: labelLessValues_def keptRows_def fleet_eval)
  have c: "{''# HELP cloudflare_exporter_up Exporter health'',
       ''# TYPE cloudflare_exporter_up gauge'', ''cloudflare_exporter_up 1'',
       ''# HELP cloudflare_accounts Total accounts discovered'',
       ''# TYPE cloudflare_accounts gauge'', ''cloudflare_accounts 3'',
       ''# HELP cloudflare_zones Total zones before filtering'',
       ''# TYPE cloudflare_zones gauge'', ''cloudflare_zones 4'',
       ''# HELP cloudflare_zones_filtered Zones after whitelist filter'',
       ''# TYPE cloudflare_zones_filtered gauge'', ''cloudflare_zones_filtered 2'',
       ''# HELP cloudflare_zones_processed Zones successfully processed'',
       ''# TYPE cloudflare_zones_processed gauge'', ''cloudflare_zones_processed 2'',
       ''# HELP cloudflare_zones_skipped_free_tier Zones skipped due to free tier plan (no GraphQL analytics access)'',
       ''# TYPE cloudflare_zones_skipped_free_tier gauge'', ''cloudflare_zones_skipped_free_tier 0''}
      \<subseteq> set ?lines"
    using t[THEN conjunct2] unfolding list.set ball_simps prod.case allowed v
    by simp
  from a b c show ?thesis by blast
qed

text \<open>
  With \<open>cloudflare_exporter_up\<close> on the metrics denylist and one account whose export
  succeeds, the output has the other five self-observation groups and the account's
  metric, and no line of \<open>cloudflare_exporter_up\<close>.
\<close>

theorem empty_account_list_counterexample:
  "MetricCoordinator_exportTraced codeUnitCompare wholeNumberString
       (exampleConfig ''cloudflare_exporter_up'' False) 2000 2000
       (Inr []) alwaysExports [0] (Some (exampleFleet oneAccount))
     = (Inr (join [newline]
          [''# HELP cloudflare_accounts Total accounts discovered'',
           ''# TYPE cloudflare_accounts gauge'', ''cloudflare_accounts 1'', [],
           ''# HELP cloudflare_zones Total zones before filtering'',
           ''# TYPE cloudflare_zones gauge'', ''cloudflare_zones 2'', [],
           ''# HELP cloudflare_zones_filtered Zones after whitelist filter'',
           ''# TYPE cloudflare_zones_filtered gauge'', ''cloudflare_zones_filtered 1'', [],
           ''# HELP cloudflare_zones_processed Zones successfully processed'',
           ''# TYPE cloudflare_zones_processed gauge'', ''cloudflare_zones_processed 1'', [],
           ''# HELP cloudflare_zones_skipped_free_tier Zones skipped due to free tier plan (no GraphQL analytics access)'',
           ''# TYPE cloudflare_zones_skipped_free_tier gauge'', ''cloudflare_zones_skipped_free_tier 0'', [],
           ''# HELP cf_requests Requests'', ''# TYPE cf_requests counter'',
           ''cf_requests{zone='' @ [dquote] @ ''z'' @ [dquote] @ '',host='' @ [dquote] @ ''h0''
             @ [dquote] @ ''} 4'', []]),
        Some (exampleFleet oneAccount),
        [AccountCoordinatorGet ''a1'' ''A''])
   \<and> refreshAccountsIfStale (exampleConfig ''cloudflare_exporter_up'' False) 2000 2000 (Inr [])
        (exampleFleet oneAccount) = Inr (oneAccount, exampleFleet oneAccount)
   \<and> length oneAccount = 1
   \<and> ''# HELP cloudflare_exporter_up Exporter health''
        \<notin> set (serializeLines codeUnitCompare wholeNumberString
                  (fleetMetrics oneAccount alwaysExports [0])
                  (fleetOptions (exampleConfig ''cloudflare_exporter_up'' False)))
   \<and> ''# TYPE cloudflare_exporter_up gauge''
        \<notin> set (serializeLines codeUnitCompare wholeNumberString
                  (fleetMetrics oneAccount alwaysExports [0])
                  (fleetOptions (exampleConfig ''cloudflare_exporter_up'' False)))
   \<and> ''cloudflare_exporter_up 1''
        \<notin> set (serializeLines codeUnitCompare wholeNumberString
                  (fleetMetrics oneAccount alwaysExports [0])
                  (fleetOptions (exampleConfig ''cloudflare_exporter_up'' False)))"
proof -
  have lines: "serializeLines codeUnitCompare wholeNumberString
                  (fleetMetrics oneAccount alwaysExports [0])
                  (fleetOptions (exampleConfig ''cloudflare_exporter_up'' False))
      = [''# HELP cloudflare_accounts Total accounts discovered'',
           ''# TYPE cloudflare_accounts gauge'', ''cloudflare_accounts 1'', [],
           ''# HELP cloudflare_zones Total zones before filtering'',
           ''# TYPE cloudflare_zones gauge'', ''cloudflare_zones 2'', [],
           ''# HELP cloudflare_zones_filtered Zones after whitelist filter'',
           ''# TYPE cloudflare_zones_filtered gauge'', ''cloudflare_zones_filtered 1'', [],
           ''# HELP cloudflare_zones_processed Zones successfully processed'',
           ''# TYPE cloudflare_zones_processed gauge'', ''cloudflare_zones_processed 1'', [],
           ''# HELP cloudflare_zones_skipped_free_tier Zones skipped due to free tier plan (no GraphQL analytics access)'',
           ''# TYPE cloudflare_zones_skipped_free_tier gauge'', ''cloudflare_zones_skipped_free_tier 0'', [],
           ''# HELP cf_requests Requests'', ''# TYPE cf_requests counter'',
           ''cf_requests{zone='' @ [dquote] @ ''z'' @ [dquote] @ '',host='' @ [dquote] @ ''h0''
             @ [dquote] @ ''} 4'', []]"
    by (simp add: fleet_eval oneAccount_def alwaysExports_def)
  have refreshed: "refreshAccountsIfStale (exampleConfig ''cloudflare_exporter_up'' False) 2000 2000 (Inr [])
        (exampleFleet oneAccount) = Inr (oneAccount, exampleFleet oneAccount)"
    by (simp add: refreshAccountsIfStale_def exampleConfig_def exampleFleet_def oneAccount_def)
  have run: "MetricCoordinator_exportTraced codeUnitCompare wholeNumberString
       (exampleConfig ''cloudflare_exporter_up'' False) 2000 2000
       (Inr []) alwaysExports [0] (Some (exampleFleet oneAccount))
     = (Inr (join [newline] (serializeLines codeUnitCompare wholeNumberString
                  (fleetMetrics oneAccount alwaysExports [0])
                  (fleetOptions (exampleConfig ''cloudflare_exporter_up'' False)))),
        Some (exampleFleet oneAccount), [AccountCoordinatorGet ''a1'' ''A''])"
    by (simp add: MetricCoordinator_exportTraced_def refreshed serializeToPrometheus_def)
       (simp add: oneAccount_def)
  have absent: "''# HELP cloudflare_exporter_up Exporter health''
        \<notin> set (serializeLines codeUnitCompare wholeNumberString
                  (fleetMetrics oneAccount alwaysExports [0])
                  (fleetOptions (exampleConfig ''cloudflare_exporter_up'' False)))"
      "''# TYPE cloudflare_exporter_up gauge''
        \<notin> set (serializeLines codeUnitCompare wholeNumberString
                  (fleetMetrics oneAccount alwaysExports [0])
                  (fleetOptions (exampleConfig ''cloudflare_exporter_up'' False)))"
      "''cloudflare_exporter_up 1''
        \<notin> set (serializeLines codeUnitCompare wholeNumberString
                  (fleetMetrics oneAccount alwaysExports [0])
                  (fleetOptions (exampleConfig ''cloudflare_exporter_up'' False)))"
    unfolding lines by simp_all
  have one: "length oneAccount = 1" by (simp add: oneAccount_def)
  show ?thesis unfolding run lines[symmetric] using absent refreshed one by simp
qed

end
